(* ===== verification/Prelude.thy ===== *)
theory Prelude
  imports Main
begin

text \<open>
  The vocabulary shared by every component of the cloud controller manager model.

  \<^item> Go's \<^verbatim>\<open>error\<close> values: \<open>error\<close> has one constructor per way the sources build an
    error (a sentinel of the repository, a sentinel or another error of a library,
    \<^verbatim>\<open>fmt.Errorf\<close> with and without the wrapping verb, the two error structs of the volume
    packages); \<open>errors_Is\<close> and \<open>error_msg\<close> are \<^verbatim>\<open>errors.Is\<close> and \<^verbatim>\<open>Error()\<close>.
  \<^item> The result of running a function is an \<open>outcome\<close>: a value, a returned error, or a run-time
    panic (index out of range, nil dereference).
  \<^item> Stateful code is a function from a state to an outcome and a state; \<open>bindM\<close> runs the next
    statement, \<open>tryM\<close> is the \<^verbatim>\<open>if err != nil\<close> that does something else than return.
  \<^item> Every call that leaves the process is appended to a trace, which is part of the state.
    \<open>emits\<close> relates the outcome of a program and the calls it made; its rules (collected in
    \<open>emits_intros\<close>) follow the structure of the program and carry the component proofs.
\<close>

section \<open>Errors\<close>

text \<open>Sentinel errors declared in the repository (compared with \<^verbatim>\<open>errors.Is\<close>).\<close>

datatype sentinel =
    ErrNotFound
  | ErrMultipleResults
  | ErrNoAddressFound
  | ErrIPv6SupportDisabled
  | ErrNoRouterID
  | ErrBadMetadata

text \<open>Sentinel errors of the libraries that the sources compare against or return.\<close>

datatype lib_sentinel =
    ErrWaitTimeout
  | ErrFloatingIPsNotFound
  | InstanceNotFound
  | NotImplemented
  | DeadlineExceeded
  | NotExist
  | Exist

datatype error =
    Sent sentinel
  | Lib lib_sentinel string
  | Api string
  | Errorf string
  | Wrapf string error
  | DanglingAttach string string string
  | DeletedVolumeInUse string

fun sentinel_msg :: "sentinel \<Rightarrow> string" where
  "sentinel_msg ErrNotFound = ''failed to find object''"
| "sentinel_msg ErrMultipleResults = ''multiple results where only one expected''"
| "sentinel_msg ErrNoAddressFound = ''no address found for host''"
| "sentinel_msg ErrIPv6SupportDisabled = ''IPv6 support is disabled''"
| "sentinel_msg ErrNoRouterID = ''router-id not set in cloud provider config''"
| "sentinel_msg ErrBadMetadata = ''invalid OpenStack metadata, got empty uuid''"

text \<open>\<^verbatim>\<open>err.Error()\<close>. Every use of the wrapping verb in the sources puts it last.\<close>

fun error_msg :: "error \<Rightarrow> string" where
  "error_msg (Sent s) = sentinel_msg s"
| "error_msg (Lib _ msg) = msg"
| "error_msg (Api msg) = msg"
| "error_msg (Errorf msg) = msg"
| "error_msg (Wrapf prefix e) = prefix @ error_msg e"
| "error_msg (DanglingAttach msg _ _) = msg"
| "error_msg (DeletedVolumeInUse msg) = msg"

text \<open>\<open>flatten prefix\<close>: \<^verbatim>\<open>fmt.Errorf("prefix%v", err)\<close>, which keeps only the text.\<close>

definition flatten :: "string \<Rightarrow> error \<Rightarrow> error" where
  "flatten prefix e = Errorf (prefix @ error_msg e)"

text \<open>\<^verbatim>\<open>errors.Is\<close> against a sentinel of the repository and against one of a library.\<close>

fun errors_Is :: "error \<Rightarrow> sentinel \<Rightarrow> bool" where
  "errors_Is (Sent s) t = (s = t)"
| "errors_Is (Wrapf _ e) t = errors_Is e t"
| "errors_Is _ t = False"

fun errors_Is_lib :: "error \<Rightarrow> lib_sentinel \<Rightarrow> bool" where
  "errors_Is_lib (Lib s _) t = (s = t)"
| "errors_Is_lib (Wrapf _ e) t = errors_Is_lib e t"
| "errors_Is_lib _ t = False"

section \<open>Outcomes and stateful programs\<close>

datatype 'a outcome = Ok 'a | Err error | Panic string

type_synonym ('s, 'a) prog = "'s \<Rightarrow> 'a outcome \<times> 's"

definition retM :: "'a \<Rightarrow> ('s, 'a) prog" where
  "retM x s = (Ok x, s)"

definition failM :: "error \<Rightarrow> ('s, 'a) prog" where
  "failM e s = (Err e, s)"

definition panicM :: "string \<Rightarrow> ('s, 'a) prog" where
  "panicM msg s = (Panic msg, s)"

definition liftM :: "'a outcome \<Rightarrow> ('s, 'a) prog" where
  "liftM r s = (r, s)"

definition bindM :: "('s, 'a) prog \<Rightarrow> ('a \<Rightarrow> ('s, 'b) prog) \<Rightarrow> ('s, 'b) prog" where
  "bindM m k s = (case m s of
     (Ok x, s') \<Rightarrow> k x s'
   | (Err e, s') \<Rightarrow> (Err e, s')
   | (Panic p, s') \<Rightarrow> (Panic p, s'))"

text \<open>\<open>tryM m h k\<close>: run \<open>m\<close>; \<open>h\<close> is the error branch, \<open>k\<close> the rest. A panic passes through.\<close>

definition tryM :: "('s, 'a) prog \<Rightarrow> (error \<Rightarrow> ('s, 'b) prog) \<Rightarrow> ('a \<Rightarrow> ('s, 'b) prog) \<Rightarrow> ('s, 'b) prog" where
  "tryM m h k s = (case m s of
     (Ok x, s') \<Rightarrow> k x s'
   | (Err e, s') \<Rightarrow> h e s'
   | (Panic p, s') \<Rightarrow> (Panic p, s'))"

text \<open>\<open>wrapM f m\<close>: \<^verbatim>\<open>if err != nil { return f(err) }\<close>.\<close>

definition wrapM :: "(error \<Rightarrow> error) \<Rightarrow> ('s, 'a) prog \<Rightarrow> ('s, 'a) prog" where
  "wrapM f m s = (case m s of
     (Err e, s') \<Rightarrow> (Err (f e), s')
   | (r, s') \<Rightarrow> (r, s'))"

text \<open>\<open>deferM d m\<close>: \<^verbatim>\<open>defer\<close> of a closure \<open>d\<close>, which sees how the function ends and runs after it, a panic included.\<close>

definition deferM :: "('a outcome \<Rightarrow> ('s, unit) prog) \<Rightarrow> ('s, 'a) prog \<Rightarrow> ('s, 'a) prog" where
  "deferM d m s = (case m s of (r, s') \<Rightarrow>
     (case d r s' of
        (Panic p, s'') \<Rightarrow> (Panic p, s'')
      | (_, s'') \<Rightarrow> (r, s'')))"

text \<open>A loop over a slice whose body may return early; the accumulator holds the loop variables.\<close>

fun foldM :: "('a \<Rightarrow> 'b \<Rightarrow> ('s, 'b) prog) \<Rightarrow> 'a list \<Rightarrow> 'b \<Rightarrow> ('s, 'b) prog" where
  "foldM f [] acc = retM acc"
| "foldM f (x # xs) acc = bindM (f x acc) (foldM f xs)"

text \<open>The slice access \<^verbatim>\<open>xs[0]\<close>, which panics on an empty slice.\<close>

definition firstM :: "'a list \<Rightarrow> ('s, 'a) prog" where
  "firstM xs = (case xs of [] \<Rightarrow> panicM ''index out of range'' | x # _ \<Rightarrow> retM x)"

text \<open>The dereference of a pointer that may be nil.\<close>

definition derefM :: "'a option \<Rightarrow> ('s, 'a) prog" where
  "derefM p = (case p of None \<Rightarrow> panicM ''nil pointer dereference'' | Some x \<Rightarrow> retM x)"

lemma bindM_retM [simp]: "bindM (retM x) k = k x"
  by (rule ext) (simp add: bindM_def retM_def)

lemma bindM_failM [simp]: "bindM (failM e) k = failM e"
  by (rule ext) (simp add: bindM_def failM_def)

lemma bindM_panicM [simp]: "bindM (panicM p) k = panicM p"
  by (rule ext) (simp add: bindM_def panicM_def)

lemma bindM_retM_right [simp]: "bindM m retM = m"
  by (rule ext) (simp add: bindM_def retM_def split: prod.splits outcome.splits)

lemma bindM_assoc: "bindM (bindM m f) g = bindM m (\<lambda>x. bindM (f x) g)"
  by (rule ext) (simp add: bindM_def split: prod.splits outcome.splits)

lemma tryM_retM [simp]: "tryM (retM x) h k = k x"
  by (rule ext) (simp add: tryM_def retM_def)

lemma tryM_failM [simp]: "tryM (failM e) h k = h e"
  by (rule ext) (simp add: tryM_def failM_def)

lemma wrapM_retM [simp]: "wrapM f (retM x) = retM x"
  by (rule ext) (simp add: wrapM_def retM_def)

lemma wrapM_failM [simp]: "wrapM f (failM e) = failM (f e)"
  by (rule ext) (simp add: wrapM_def failM_def)

lemma firstM_simps [simp]:
  "firstM [] = panicM ''index out of range''"
  "firstM (x # xs) = retM x"
  by (simp_all add: firstM_def)

lemma derefM_simps [simp]:
  "derefM None = panicM ''nil pointer dereference''"
  "derefM (Some x) = retM x"
  by (simp_all add: derefM_def)

lemma foldM_append: "foldM f (xs @ ys) acc = bindM (foldM f xs acc) (foldM f ys)"
proof (induction xs arbitrary: acc)
  case Nil
  then show ?case by simp
next
  case (Cons x xs)
  then have "foldM f (xs @ ys) = (\<lambda>acc. bindM (foldM f xs acc) (foldM f ys))"
    by (intro ext) simp
  then show ?case by (simp add: bindM_assoc)
qed

lemma wrapped_outcome [simp]:
  "(case r of Ok x \<Rightarrow> r | Err e \<Rightarrow> Err (f e) | Panic p \<Rightarrow> r) = Ok y \<longleftrightarrow> r = Ok y"
  "(case r of Ok x \<Rightarrow> r | Err e \<Rightarrow> Err (f e) | Panic p \<Rightarrow> r) = Panic q \<longleftrightarrow> r = Panic q"
  by (cases r; simp)+

text \<open>How a program ends with a value.\<close>

lemma tryM_OkE:
  assumes "tryM m h k s = (Ok y, s')"
  obtains x s1 where "m s = (Ok x, s1)" "k x s1 = (Ok y, s')"
  | e s1 where "m s = (Err e, s1)" "h e s1 = (Ok y, s')"
  using assms by (auto simp: tryM_def split: prod.splits outcome.splits)

lemma bindM_OkE:
  assumes "bindM m k s = (Ok y, s')"
  obtains x s1 where "m s = (Ok x, s1)" "k x s1 = (Ok y, s')"
  using assms by (auto simp: bindM_def split: prod.splits outcome.splits)

lemmas prog_defs = retM_def failM_def panicM_def liftM_def bindM_def tryM_def wrapM_def

section \<open>Running a program\<close>

text \<open>
  Equations for programs that are applied to a state: the simplifier then follows the run, and leaves
  the statements that have not been reached alone.
\<close>

named_theorems run

lemmas run_combinators [run] = bindM_def wrapM_def tryM_def deferM_def

lemma run_basic [run]:
  "retM x s = (Ok x, s)" "failM e s = (Err e, s)" "liftM r s = (r, s)" "panicM p s = (Panic p, s)"
  by (simp_all add: prog_defs)

lemma run_control [run]:
  "(if b then m else m') s = (if b then m s else m' s)"
  "(case x of None \<Rightarrow> n | Some y \<Rightarrow> f y) s = (case x of None \<Rightarrow> n s | Some y \<Rightarrow> f y s)"
  "(case p of (a, b) \<Rightarrow> g a b) s = (case p of (a, b) \<Rightarrow> g a b s)"
  "(case xs of [] \<Rightarrow> h | y # ys \<Rightarrow> k y ys) s = (case xs of [] \<Rightarrow> h s | y # ys \<Rightarrow> k y ys s)"
  by (simp_all split: option.splits prod.splits list.splits)

section \<open>The values a program returns\<close>

text \<open>\<open>yields m Q\<close>: every value that \<open>m\<close> returns without an error satisfies \<open>Q\<close>.\<close>

definition yields :: "('s, 'a) prog \<Rightarrow> ('a \<Rightarrow> bool) \<Rightarrow> bool" where
  "yields m Q \<longleftrightarrow> (\<forall>s x s'. m s = (Ok x, s') \<longrightarrow> Q x)"

named_theorems yield_intros

lemma yieldsI: "(\<And>s x s'. m s = (Ok x, s') \<Longrightarrow> Q x) \<Longrightarrow> yields m Q"
  by (simp add: yields_def)

lemma yieldsD: "yields m Q \<Longrightarrow> m s = (Ok x, s') \<Longrightarrow> Q x"
  by (auto simp: yields_def)

lemma yields_weaken: "yields m Q \<Longrightarrow> (\<And>x. Q x \<Longrightarrow> Q' x) \<Longrightarrow> yields m Q'"
  by (auto simp: yields_def)

lemma yields_any: "(\<And>x. Q x) \<Longrightarrow> yields m Q"
  by (simp add: yields_def)

lemma yields_bind: "yields m P \<Longrightarrow> (\<And>x. P x \<Longrightarrow> yields (k x) Q) \<Longrightarrow> yields (bindM m k) Q"
  by (rule yieldsI, erule bindM_OkE) (blast dest: yieldsD)

lemma yields_basic [yield_intros]:
  "Q x \<Longrightarrow> yields (retM x) Q"
  "yields (failM e) Q"
  "yields (panicM p) Q"
  "(\<And>x. r = Ok x \<Longrightarrow> Q x) \<Longrightarrow> yields (liftM r) Q"
  by (simp_all add: yields_def retM_def failM_def panicM_def liftM_def)

lemma yields_bindM [yield_intros]: "yields m (\<lambda>x. yields (k x) Q) \<Longrightarrow> yields (bindM m k) Q"
  by (rule yields_bind)

lemma yields_tryM [yield_intros]:
  "yields m (\<lambda>x. yields (k x) Q) \<Longrightarrow> (\<And>e. yields (h e) Q) \<Longrightarrow> yields (tryM m h k) Q"
  by (rule yieldsI, erule tryM_OkE) (blast dest: yieldsD)+

lemma yields_wrapM [yield_intros]: "yields m Q \<Longrightarrow> yields (wrapM f m) Q"
  by (auto simp: yields_def wrapM_def split: prod.splits outcome.splits)

lemma yields_deferM [yield_intros]: "yields m Q \<Longrightarrow> yields (deferM d m) Q"
  by (auto simp: yields_def deferM_def split: prod.splits outcome.splits)

lemma yields_if [yield_intros]:
  "(b \<Longrightarrow> yields m Q) \<Longrightarrow> (\<not> b \<Longrightarrow> yields m' Q) \<Longrightarrow> yields (if b then m else m') Q"
  by simp

lemma yields_case_option [yield_intros]:
  "(p = None \<Longrightarrow> yields m Q) \<Longrightarrow> (\<And>x. p = Some x \<Longrightarrow> yields (k x) Q) \<Longrightarrow>
    yields (case p of None \<Rightarrow> m | Some x \<Rightarrow> k x) Q"
  by (cases p) simp_all

lemma yields_case_prod [yield_intros]:
  "(\<And>x y. p = (x, y) \<Longrightarrow> yields (k x y) Q) \<Longrightarrow> yields (case p of (x, y) \<Rightarrow> k x y) Q"
  by (cases p) simp_all

text \<open>A loop: \<open>I done acc\<close> holds after the elements \<open>done\<close>.\<close>

lemma yields_foldM:
  assumes "I [] acc"
    and "\<And>done x rest a. xs = done @ x # rest \<Longrightarrow> I done a \<Longrightarrow> yields (f x a) (I (done @ [x]))"
  shows "yields (foldM f xs acc) (I xs)"
proof -
  have "yields (foldM f rest a) (I xs)" if "xs = done @ rest" "I done a" for rest "done" a
    using that
  proof (induction rest arbitrary: "done" a)
    case Nil
    then show ?case by (simp add: yields_basic)
  next
    case (Cons x rest)
    have "yields (foldM f rest a') (I xs)" if "I (done @ [x]) a'" for a'
      by (rule Cons.IH [OF _ that]) (simp add: Cons.prems)
    with assms(2) [OF Cons.prems] show ?case by (auto intro: yields_bind)
  qed
  from this [of "[]" xs acc] assms(1) show ?thesis by simp
qed

section \<open>Parts of the state that a program keeps\<close>


definition keeps :: "('s \<Rightarrow> 'v) \<Rightarrow> ('s, 'a) prog \<Rightarrow> bool" where
  "keeps f m \<longleftrightarrow> (\<forall>s. f (snd (m s)) = f s)"

named_theorems keep_intros

lemma keepsD: "keeps f m \<Longrightarrow> m s = (r, s') \<Longrightarrow> f s' = f s"
  unfolding keeps_def by (metis snd_conv)

lemma keeps_basic [keep_intros]:
  "keeps f (retM x)" "keeps f (failM e)" "keeps f (panicM p)" "keeps f (liftM r)"
  by (simp_all add: keeps_def prog_defs)

lemma keeps_bindM [keep_intros]: "keeps f m \<Longrightarrow> (\<And>x. keeps f (k x)) \<Longrightarrow> keeps f (bindM m k)"
  by (auto simp: keeps_def bindM_def split: prod.splits outcome.splits) (metis snd_conv)+

lemma keeps_tryM [keep_intros]:
  "keeps f m \<Longrightarrow> (\<And>e. keeps f (h e)) \<Longrightarrow> (\<And>x. keeps f (k x)) \<Longrightarrow> keeps f (tryM m h k)"
  by (auto simp: keeps_def tryM_def split: prod.splits outcome.splits) (metis snd_conv)+

lemma keeps_wrapM [keep_intros]: "keeps f m \<Longrightarrow> keeps f (wrapM g m)"
  by (auto simp: keeps_def wrapM_def split: prod.splits outcome.splits) (metis snd_conv)+

lemma keeps_deferM [keep_intros]: "keeps f m \<Longrightarrow> (\<And>r. keeps f (d r)) \<Longrightarrow> keeps f (deferM d m)"
  by (auto simp: keeps_def deferM_def split: prod.splits outcome.splits) (metis snd_conv)+

lemma keeps_if [keep_intros]: "keeps f m \<Longrightarrow> keeps f m' \<Longrightarrow> keeps f (if b then m else m')"
  by simp

lemma keeps_case_prod [keep_intros]: "(\<And>x y. keeps f (k x y)) \<Longrightarrow> keeps f (case p of (x, y) \<Rightarrow> k x y)"
  by (cases p) simp

section \<open>Programs and the calls they make\<close>

text \<open>
  \<open>tr\<close> reads the trace of a state. \<open>emits tr m Q\<close>: from every state, \<open>m\<close> only appends to the
  trace, and \<open>Q\<close> holds of its outcome and the appended calls.
\<close>

definition emits :: "('s \<Rightarrow> 'e list) \<Rightarrow> ('s, 'a) prog \<Rightarrow> ('a outcome \<Rightarrow> 'e list \<Rightarrow> bool) \<Rightarrow> bool" where
  "emits tr m Q \<longleftrightarrow> (\<forall>s. \<exists>es. tr (snd (m s)) = tr s @ es \<and> Q (fst (m s)) es)"

named_theorems emits_intros

lemma emitsI: "(\<And>s. \<exists>es. tr (snd (m s)) = tr s @ es \<and> Q (fst (m s)) es) \<Longrightarrow> emits tr m Q"
  by (simp add: emits_def)

lemma emitsE:
  assumes "emits tr m Q" "m s = (r, s')"
  obtains es where "tr s' = tr s @ es" "Q r es"
  using assms by (metis emits_def fst_conv snd_conv)

lemma emits_weaken:
  "emits tr m Q \<Longrightarrow> (\<And>r es. Q r es \<Longrightarrow> Q' r es) \<Longrightarrow> emits tr m Q'"
  unfolding emits_def by blast

lemma emits_outcome:
  assumes "emits tr m Q" "\<And>s r s'. m s = (r, s') \<Longrightarrow> P r"
  shows "emits tr m (\<lambda>r es. Q r es \<and> P r)"
proof -
  have "P (fst (m s))" for s by (cases "m s") (auto dest: assms(2))
  with assms(1) show ?thesis unfolding emits_def by blast
qed

lemma emits_conj: "emits tr m Q \<Longrightarrow> emits tr m Q' \<Longrightarrow> emits tr m (\<lambda>r es. Q r es \<and> Q' r es)"
  unfolding emits_def by (metis same_append_eq)

lemma emits_retM: "Q (Ok x) [] \<Longrightarrow> emits tr (retM x) Q"
  by (simp add: emits_def retM_def)

lemma emits_failM: "Q (Err e) [] \<Longrightarrow> emits tr (failM e) Q"
  by (simp add: emits_def failM_def)

lemma emits_panicM: "Q (Panic p) [] \<Longrightarrow> emits tr (panicM p) Q"
  by (simp add: emits_def panicM_def)

lemma emits_tryM:
  assumes m: "emits tr m Q1"
    and h: "\<And>e. emits tr (h e) (Q2 e)"
    and k: "\<And>x. emits tr (k x) (Q3 x)"
    and ok: "\<And>x r es es'. Q1 (Ok x) es \<Longrightarrow> Q3 x r es' \<Longrightarrow> Q r (es @ es')"
    and err: "\<And>e r es es'. Q1 (Err e) es \<Longrightarrow> Q2 e r es' \<Longrightarrow> Q r (es @ es')"
    and pan: "\<And>p es. Q1 (Panic p) es \<Longrightarrow> Q (Panic p) es"
  shows "emits tr (tryM m h k) Q"
proof (rule emitsI)
  fix s
  obtain r s' where ms: "m s = (r, s')" by fastforce
  from m ms obtain es where es: "tr s' = tr s @ es" "Q1 r es" by (rule emitsE)
  show "\<exists>es. tr (snd (tryM m h k s)) = tr s @ es \<and> Q (fst (tryM m h k s)) es"
  proof (cases r)
    case (Ok x)
    obtain r2 s2 where r2: "k x s' = (r2, s2)" by fastforce
    with k obtain es2 where "tr s2 = tr s' @ es2" "Q3 x r2 es2" by (rule emitsE)
    with es ms r2 Ok ok show ?thesis by (auto simp: tryM_def)
  next
    case (Err e)
    obtain r2 s2 where r2: "h e s' = (r2, s2)" by fastforce
    with h obtain es2 where "tr s2 = tr s' @ es2" "Q2 e r2 es2" by (rule emitsE)
    with es ms r2 Err err show ?thesis by (auto simp: tryM_def)
  next
    case (Panic p)
    with es ms pan show ?thesis by (auto simp: tryM_def)
  qed
qed

lemma bindM_tryM: "bindM m k = tryM m failM k"
  by (rule ext) (simp add: bindM_def tryM_def failM_def split: prod.splits outcome.splits)

lemma emits_bindM:
  assumes "emits tr m Q1" "\<And>x. emits tr (k x) (Q2 x)"
    and "\<And>x r es es'. Q1 (Ok x) es \<Longrightarrow> Q2 x r es' \<Longrightarrow> Q r (es @ es')"
    and "\<And>e es. Q1 (Err e) es \<Longrightarrow> Q (Err e) es"
    and "\<And>p es. Q1 (Panic p) es \<Longrightarrow> Q (Panic p) es"
  shows "emits tr (bindM m k) Q"
  unfolding bindM_tryM
  by (rule emits_tryM [where ?Q1.0 = Q1 and ?Q3.0 = Q2 and ?Q2.0 = "\<lambda>e r es. r = Err e \<and> es = []"])
    (auto simp: emits_def failM_def assms(3-5) assms(1,2) [unfolded emits_def])

lemma emits_wrapM:
  assumes "emits tr m Q1"
    and "\<And>x es. Q1 (Ok x) es \<Longrightarrow> Q (Ok x) es"
    and "\<And>e es. Q1 (Err e) es \<Longrightarrow> Q (Err (f e)) es"
    and "\<And>p es. Q1 (Panic p) es \<Longrightarrow> Q (Panic p) es"
  shows "emits tr (wrapM f m) Q"
proof (rule emitsI)
  fix s
  obtain r s' where ms: "m s = (r, s')" by fastforce
  from assms(1) ms obtain es where "tr s' = tr s @ es" "Q1 r es" by (rule emitsE)
  with ms assms(2-4) show "\<exists>es. tr (snd (wrapM f m s)) = tr s @ es \<and> Q (fst (wrapM f m s)) es"
    by (cases r) (auto simp: wrapM_def)
qed

subsection \<open>Backward rules\<close>

text \<open>
  The same rules read backwards: the postcondition is transformed along the program, so that
  \<open>intro wp\<close> turns a goal about a program into goals about its branches.
\<close>

named_theorems wp

lemma wp_tryM [wp]:
  assumes "emits tr m (\<lambda>r es. case r of
      Ok x \<Rightarrow> emits tr (k x) (\<lambda>r' es'. Q r' (es @ es'))
    | Err e \<Rightarrow> emits tr (h e) (\<lambda>r' es'. Q r' (es @ es'))
    | Panic p \<Rightarrow> Q (Panic p) es)"
  shows "emits tr (tryM m h k) Q"
proof (rule emitsI)
  fix s
  obtain r s' where ms: "m s = (r, s')" by fastforce
  from assms ms obtain es where es: "tr s' = tr s @ es"
    and post: "case r of
        Ok x \<Rightarrow> emits tr (k x) (\<lambda>r' es'. Q r' (es @ es'))
      | Err e \<Rightarrow> emits tr (h e) (\<lambda>r' es'. Q r' (es @ es'))
      | Panic p \<Rightarrow> Q (Panic p) es"
    by (rule emitsE)
  have step: "\<exists>es2. tr (snd (f s')) = tr s @ es2 \<and> Q (fst (f s')) es2"
    if "emits tr f (\<lambda>r' es'. Q r' (es @ es'))" for f
  proof -
    from that obtain es' where "tr (snd (f s')) = tr s' @ es'" "Q (fst (f s')) (es @ es')"
      unfolding emits_def by blast
    with es show ?thesis by simp
  qed
  from ms es post show "\<exists>es. tr (snd (tryM m h k s)) = tr s @ es \<and> Q (fst (tryM m h k s)) es"
    by (cases r) (simp_all add: tryM_def step)
qed

lemma wp_bindM [wp]:
  assumes "emits tr m (\<lambda>r es. case r of
      Ok x \<Rightarrow> emits tr (k x) (\<lambda>r' es'. Q r' (es @ es'))
    | Err e \<Rightarrow> Q (Err e) es
    | Panic p \<Rightarrow> Q (Panic p) es)"
  shows "emits tr (bindM m k) Q"
  unfolding bindM_tryM
  by (rule wp_tryM, rule emits_weaken [OF assms]) (auto simp: emits_failM split: outcome.splits)

lemma wp_wrapM [wp]:
  "emits tr m (\<lambda>r es. Q (case r of Err e \<Rightarrow> Err (f e) | _ \<Rightarrow> r) es) \<Longrightarrow> emits tr (wrapM f m) Q"
  by (erule emits_wrapM) simp_all

lemma wp_deferM [wp]:
  assumes "emits tr m (\<lambda>r es. emits tr (d r) (\<lambda>r' es'. Q (case r' of Panic p \<Rightarrow> Panic p | _ \<Rightarrow> r) (es @ es')))"
  shows "emits tr (deferM d m) Q"
proof (rule emitsI)
  fix s
  obtain r s' where ms: "m s = (r, s')" by fastforce
  with assms obtain es where es: "tr s' = tr s @ es"
      "emits tr (d r) (\<lambda>r' es'. Q (case r' of Panic p \<Rightarrow> Panic p | _ \<Rightarrow> r) (es @ es'))" by (rule emitsE)
  obtain r' s'' where ds: "d r s' = (r', s'')" by fastforce
  with es(2) obtain es' where "tr s'' = tr s' @ es'" "Q (case r' of Panic p \<Rightarrow> Panic p | _ \<Rightarrow> r) (es @ es')" by (rule emitsE)
  with es(1) ms ds show "\<exists>es. tr (snd (deferM d m s)) = tr s @ es \<and> Q (fst (deferM d m s)) es"
    by (cases r') (auto simp: deferM_def)
qed

lemma wp_outcome [wp]:
  "(\<And>x. r = Ok x \<Longrightarrow> P x) \<Longrightarrow> (\<And>e. r = Err e \<Longrightarrow> P' e) \<Longrightarrow> (\<And>p. r = Panic p \<Longrightarrow> P'' p) \<Longrightarrow>
    case r of Ok x \<Rightarrow> P x | Err e \<Rightarrow> P' e | Panic p \<Rightarrow> P'' p"
  by (cases r) simp_all

lemma wp_if [wp]:
  "(b \<Longrightarrow> emits tr m Q) \<Longrightarrow> (\<not> b \<Longrightarrow> emits tr m' Q) \<Longrightarrow> emits tr (if b then m else m') Q"
  by simp

lemma wp_case_option [wp]:
  "(p = None \<Longrightarrow> emits tr m Q) \<Longrightarrow> (\<And>x. p = Some x \<Longrightarrow> emits tr (k x) Q) \<Longrightarrow>
    emits tr (case p of None \<Rightarrow> m | Some x \<Rightarrow> k x) Q"
  by (cases p) simp_all

lemma wp_case_prod [wp]:
  "(\<And>x y. p = (x, y) \<Longrightarrow> emits tr (k x y) Q) \<Longrightarrow> emits tr (case p of (x, y) \<Rightarrow> k x y) Q"
  by (cases p) simp_all

lemma wp_case_list [wp]:
  "(l = [] \<Longrightarrow> emits tr m Q) \<Longrightarrow> (\<And>x xs. l = x # xs \<Longrightarrow> emits tr (k x xs) Q) \<Longrightarrow>
    emits tr (case l of [] \<Rightarrow> m | x # xs \<Rightarrow> k x xs) Q"
  by (cases l) simp_all

lemma wp_Let [wp]: "(\<And>x. x = v \<Longrightarrow> emits tr (k x) Q) \<Longrightarrow> emits tr (let x = v in k x) Q"
  by simp

lemma wp_firstM [wp]:
  "(xs = [] \<Longrightarrow> Q (Panic ''index out of range'') []) \<Longrightarrow> (\<And>x ys. xs = x # ys \<Longrightarrow> Q (Ok x) []) \<Longrightarrow>
    emits tr (firstM xs) Q"
  by (cases xs) (simp_all add: emits_retM emits_panicM)

lemma wp_derefM [wp]:
  "(p = None \<Longrightarrow> Q (Panic ''nil pointer dereference'') []) \<Longrightarrow> (\<And>x. p = Some x \<Longrightarrow> Q (Ok x) []) \<Longrightarrow>
    emits tr (derefM p) Q"
  by (cases p) (simp_all add: emits_retM emits_panicM)

lemmas [wp] = emits_retM emits_failM emits_panicM

lemma wp_liftM [wp]: "Q r [] \<Longrightarrow> emits tr (liftM r) Q"
  by (simp add: emits_def liftM_def)

text \<open>
  A loop: \<open>I done acc es\<close> holds after the elements \<open>done\<close> with the accumulator \<open>acc\<close> and the calls \<open>es\<close>.
\<close>

lemma emits_foldM:
  assumes init: "I [] acc []"
    and step: "\<And>done x rest acc es. xs = done @ x # rest \<Longrightarrow> I done acc es \<Longrightarrow>
      emits tr (f x acc) (\<lambda>r es'. case r of Ok acc' \<Rightarrow> I (done @ [x]) acc' (es @ es') | _ \<Rightarrow> Q r (es @ es'))"
    and final: "\<And>acc es. I xs acc es \<Longrightarrow> Q (Ok acc) es"
  shows "emits tr (foldM f xs acc) Q"
proof -
  have "emits tr (foldM f rest acc) (\<lambda>r es'. Q r (es @ es'))"
    if "xs = done @ rest" "I done acc es" for rest "done" acc es
    using that
  proof (induction rest arbitrary: "done" acc es)
    case Nil
    then show ?case unfolding foldM.simps by (intro emits_retM) (simp add: final)
  next
    case (Cons x rest)
    have "emits tr (f x acc) (\<lambda>r es'. case r of Ok acc' \<Rightarrow> I (done @ [x]) acc' (es @ es') | _ \<Rightarrow> Q r (es @ es'))"
      using Cons.prems by (rule step)
    moreover have "emits tr (foldM f rest acc') (\<lambda>r es''. Q r ((es @ es') @ es''))"
      if "I (done @ [x]) acc' (es @ es')" for acc' es'
      using Cons.IH [OF _ that] Cons.prems(1) by simp
    ultimately show ?case
      unfolding foldM.simps
      by (intro wp_bindM) (erule emits_weaken, auto split: outcome.splits)
  qed
  from this [of "[]" xs acc "[]"] init show ?thesis by simp
qed

subsection \<open>Properties of traces that survive concatenation\<close>

text \<open>
  Safety properties of a program's calls are usually closed under concatenation: "only these calls",
  "a deletion only right after the load balancer was seen ACTIVE", "at most ...". For such a property
  \<open>R\<close>, \<open>always tr R m\<close> follows from the same fact about the parts of \<open>m\<close>; the locale proves the rules
  once, and each interpretation adds its copy to \<open>emits_intros\<close>.
\<close>

definition always :: "('s \<Rightarrow> 'e list) \<Rightarrow> ('e list \<Rightarrow> bool) \<Rightarrow> ('s, 'a) prog \<Rightarrow> bool" where
  "always tr R m \<longleftrightarrow> emits tr m (\<lambda>_ es. R es)"

lemma always_emits: "emits tr m Q \<Longrightarrow> (\<And>r es. Q r es \<Longrightarrow> R es) \<Longrightarrow> always tr R m"
  unfolding always_def by (rule emits_weaken)

lemma always_mono: "always tr R m \<Longrightarrow> (\<And>es. R es \<Longrightarrow> R' es) \<Longrightarrow> always tr R' m"
  unfolding always_def by (erule emits_weaken)

locale trace_property =
  fixes R :: "'e list \<Rightarrow> bool"
  assumes R_Nil: "R []"
    and R_append: "R xs \<Longrightarrow> R ys \<Longrightarrow> R (xs @ ys)"
begin

lemma always_retM [emits_intros]: "always tr R (retM x)"
  by (simp add: always_def emits_retM R_Nil)

lemma always_failM [emits_intros]: "always tr R (failM e)"
  by (simp add: always_def emits_failM R_Nil)

lemma always_panicM [emits_intros]: "always tr R (panicM p)"
  by (simp add: always_def emits_panicM R_Nil)

lemma always_liftM [emits_intros]: "always tr R (liftM r)"
  by (simp add: always_def emits_def liftM_def R_Nil)

lemma always_firstM [emits_intros]: "always tr R (firstM xs)"
  by (cases xs) (simp_all add: always_panicM always_retM)

lemma always_derefM [emits_intros]: "always tr R (derefM p)"
  by (cases p) (simp_all add: always_panicM always_retM)

lemma always_tryM [emits_intros]:
  "always tr R m \<Longrightarrow> (\<And>e. always tr R (h e)) \<Longrightarrow> (\<And>x. always tr R (k x)) \<Longrightarrow> always tr R (tryM m h k)"
  unfolding always_def
  by (erule emits_tryM [where ?Q2.0 = "\<lambda>_ _. R" and ?Q3.0 = "\<lambda>_ _. R"]) (auto intro: R_append)

lemma always_bindM [emits_intros]:
  "always tr R m \<Longrightarrow> (\<And>x. always tr R (k x)) \<Longrightarrow> always tr R (bindM m k)"
  unfolding bindM_tryM by (rule always_tryM) (simp_all add: always_failM)

text \<open>The continuation need only be considered for values that the first part can return.\<close>

lemma always_bindM_Ok:
  assumes "always tr R m" "\<And>x s s'. m s = (Ok x, s') \<Longrightarrow> always tr R (k x)"
  shows "always tr R (bindM m k)"
  unfolding always_def
proof (rule emitsI)
  fix s
  obtain r s1 where ms: "m s = (r, s1)" by fastforce
  with assms(1) obtain es where es: "tr s1 = tr s @ es" "R es" unfolding always_def by (rule emitsE)
  show "\<exists>es. tr (snd (bindM m k s)) = tr s @ es \<and> R es"
  proof (cases r)
    case (Ok x)
    obtain r2 s2 where k: "k x s1 = (r2, s2)" by fastforce
    from assms(2) ms Ok have "emits tr (k x) (\<lambda>_. R)" unfolding always_def by blast
    then obtain es2 where "tr s2 = tr s1 @ es2" "R es2" using k by (rule emitsE)
    with es ms k Ok R_append show ?thesis by (auto simp: bindM_def)
  qed (use ms es in \<open>auto simp: bindM_def\<close>)
qed

lemma always_wrapM [emits_intros]: "always tr R m \<Longrightarrow> always tr R (wrapM f m)"
  unfolding always_def by (erule emits_wrapM) auto

lemma always_deferM [emits_intros]:
  "always tr R m \<Longrightarrow> (\<And>r. always tr R (d r)) \<Longrightarrow> always tr R (deferM d m)"
  unfolding always_def by (rule wp_deferM, erule emits_weaken) (auto intro: emits_weaken R_append)

lemma always_if [emits_intros]:
  "(b \<Longrightarrow> always tr R m) \<Longrightarrow> (\<not> b \<Longrightarrow> always tr R m') \<Longrightarrow> always tr R (if b then m else m')"
  by simp

lemma always_foldM [emits_intros]:
  "(\<And>x acc. x \<in> set xs \<Longrightarrow> always tr R (f x acc)) \<Longrightarrow> always tr R (foldM f xs acc)"
  by (induction xs arbitrary: acc) (auto intro!: always_retM always_bindM)

lemma always_case_option [emits_intros]:
  "always tr R m \<Longrightarrow> (\<And>x. always tr R (k x)) \<Longrightarrow> always tr R (case p of None \<Rightarrow> m | Some x \<Rightarrow> k x)"
  by (cases p) simp_all

lemma always_case_prod [emits_intros]:
  "(\<And>x y. always tr R (k x y)) \<Longrightarrow> always tr R (case p of (x, y) \<Rightarrow> k x y)"
  by (cases p) simp_all

lemma always_case_list [emits_intros]:
  "always tr R m \<Longrightarrow> (\<And>x xs. always tr R (k x xs)) \<Longrightarrow> always tr R (case l of [] \<Rightarrow> m | x # xs \<Rightarrow> k x xs)"
  by (cases l) simp_all

lemma always_Let [emits_intros]: "(\<And>x. always tr R (k x)) \<Longrightarrow> always tr R (let x = v in k x)"
  by simp

end

text \<open>
  An automaton that reads the calls: \<open>follow step q es\<close> is the state after \<open>es\<close>, \<open>None\<close> after a call that
  the automaton does not allow. Returning to a state is a property that survives concatenation.
\<close>

fun follow :: "('q \<Rightarrow> 'e \<Rightarrow> 'q option) \<Rightarrow> 'q \<Rightarrow> 'e list \<Rightarrow> 'q option" where
  "follow step q [] = Some q"
| "follow step q (c # cs) = (case step q c of None \<Rightarrow> None | Some q' \<Rightarrow> follow step q' cs)"

lemma follow_append:
  "follow step q (xs @ ys) = (case follow step q xs of None \<Rightarrow> None | Some q' \<Rightarrow> follow step q' ys)"
  by (induction xs arbitrary: q) (auto split: option.splits)

interpretation follow: trace_property "\<lambda>es. follow step q es = Some q" for step q
  by unfold_locales (simp_all add: follow_append)

text \<open>The first instance: every call satisfies \<open>P\<close>.\<close>

abbreviation only :: "('s \<Rightarrow> 'e list) \<Rightarrow> ('e \<Rightarrow> bool) \<Rightarrow> ('s, 'a) prog \<Rightarrow> bool" where
  "only tr P \<equiv> always tr (list_all P)"

interpretation only: trace_property "list_all P" for P
  by unfold_locales auto

lemma only_mono: "only tr P m \<Longrightarrow> (\<And>e. P e \<Longrightarrow> P' e) \<Longrightarrow> only tr P' m"
  by (erule always_mono) (auto simp: list_all_iff)

end
