(* ===== verification/GoStrings.thy ===== *)
theory GoStrings
  imports Prelude "HOL-Library.Char_ord" "HOL-Library.List_Lexorder" "HOL-Library.Sublist"
begin

text \<open>
  The string functions of the Go standard library that the sources call: \<^verbatim>\<open>strings.HasPrefix\<close>,
  \<^verbatim>\<open>HasSuffix\<close>, \<^verbatim>\<open>TrimSuffix\<close>, \<^verbatim>\<open>Contains\<close>, \<^verbatim>\<open>LastIndex\<close>, \<^verbatim>\<open>Split\<close>, \<^verbatim>\<open>Join\<close>, \<^verbatim>\<open>TrimSpace\<close>,
  \<^verbatim>\<open>ToLower\<close>, \<^verbatim>\<open>Replace\<close>, the \<^verbatim>\<open>%d\<close> verb and \<^verbatim>\<open>strconv.Atoi\<close>. A Go string is a sequence of bytes, and
  so is an Isabelle \<open>string\<close> (a \<open>char\<close> is eight bits); \<open>length\<close> is Go's \<^verbatim>\<open>len\<close>, and \<open>take\<close> is
  slicing from the start. \<open>to_lower\<close> maps the ASCII letters (the sources apply it to protocol and
  host names); \<open>trim_space\<close> knows the ASCII white space and the UTF-8 encodings of the other
  code points with the White\_Space property. The lemmas give the laws the components need:
  decimal printing is injective and inverted by \<open>atoi\<close>, \<open>join\<close> inverts \<open>split\<close>, a trimmed string
  has at most one trailing suffix removed.
\<close>

section \<open>Prefixes, suffixes, substrings\<close>

definition has_prefix :: "string \<Rightarrow> string \<Rightarrow> bool" where
  "has_prefix s p = (take (length p) s = p)"

definition has_suffix :: "string \<Rightarrow> string \<Rightarrow> bool" where
  "has_suffix s p = (length p \<le> length s \<and> drop (length s - length p) s = p)"

definition trim_suffix :: "string \<Rightarrow> string \<Rightarrow> string" where
  "trim_suffix s p = (if has_suffix s p then take (length s - length p) s else s)"

fun contains :: "string \<Rightarrow> string \<Rightarrow> bool" where
  "contains [] p = (p = [])"
| "contains (c # s) p = (has_prefix (c # s) p \<or> contains s p)"

text \<open>\<^verbatim>\<open>strings.LastIndex(s, c)\<close> for a one-byte separator, and the text behind it.\<close>

fun last_index :: "string \<Rightarrow> char \<Rightarrow> nat option" where
  "last_index [] c = None"
| "last_index (x # s) c = (case last_index s c of
     Some i \<Rightarrow> Some (Suc i)
   | None \<Rightarrow> (if x = c then Some 0 else None))"

lemma has_prefix_iff: "has_prefix s p \<longleftrightarrow> (\<exists>t. s = p @ t)"
  by (metis append_eq_conv_conj append_take_drop_id has_prefix_def)

lemma has_prefix_append [simp]: "has_prefix (p @ s) p"
  by (simp add: has_prefix_def)

lemma has_suffix_iff: "has_suffix s p \<longleftrightarrow> (\<exists>t. s = t @ p)"
  unfolding has_suffix_def by (metis append_take_drop_id append_eq_conv_conj diff_add_inverse2
      le_add2 length_append)

lemma has_suffix_append [simp]: "has_suffix (s @ p) p"
  by (auto simp: has_suffix_iff)

lemma trim_suffix_append [simp]: "trim_suffix (s @ p) p = s"
  by (simp add: trim_suffix_def)

lemma trim_suffix_id: "\<not> has_suffix s p \<Longrightarrow> trim_suffix s p = s"
  by (simp add: trim_suffix_def)

lemma length_trim_suffix: "length (trim_suffix s p) \<le> length s"
  by (simp add: trim_suffix_def)

lemma prefix_trim_suffix: "prefix (trim_suffix s p) s"
  by (simp add: trim_suffix_def take_is_prefix)

lemma contains_iff: "contains s p \<longleftrightarrow> (\<exists>a b. s = a @ p @ b)"
proof (induction s)
  case Nil
  then show ?case by auto
next
  case (Cons c s)
  have "contains (c # s) p \<longleftrightarrow> has_prefix (c # s) p \<or> (\<exists>a b. s = a @ p @ b)"
    using Cons.IH by simp
  also have "\<dots> \<longleftrightarrow> (\<exists>a b. c # s = a @ p @ b)"
    unfolding has_prefix_iff by (metis append_Cons append_Nil neq_Nil_conv list.inject)
  finally show ?case .
qed

lemma contains_appendI: "contains p q \<Longrightarrow> contains (a @ p @ b) q"
  unfolding contains_iff by (metis append.assoc)

lemma last_index_None: "last_index s c = None \<longleftrightarrow> c \<notin> set s"
  by (induction s) (auto split: option.splits)

lemma last_index_Some: "last_index s c = Some i \<Longrightarrow> i < length s \<and> s ! i = c \<and> c \<notin> set (drop (Suc i) s)"
proof (induction s arbitrary: i)
  case Nil
  then show ?case by simp
next
  case (Cons x s)
  then show ?case
    by (cases "last_index s c") (auto simp: last_index_None split: if_splits)
qed

lemma last_index_append: "c \<notin> set t \<Longrightarrow> last_index (s @ c # t) c = Some (length s)"
proof (induction s)
  case Nil
  then have "last_index t c = None" by (simp add: last_index_None)
  then show ?case by simp
next
  case (Cons x s)
  then show ?case by simp
qed

section \<open>Splitting and joining\<close>

text \<open>\<^verbatim>\<open>strings.Split(s, sep)\<close> for a one-byte separator: always at least one element.\<close>

fun split :: "char \<Rightarrow> string \<Rightarrow> string list" where
  "split c [] = [[]]"
| "split c (x # s) = (if x = c then [] # split c s
     else (case split c s of [] \<Rightarrow> [[x]] | w # ws \<Rightarrow> (x # w) # ws))"

fun join :: "string \<Rightarrow> string list \<Rightarrow> string" where
  "join sep [] = []"
| "join sep [w] = w"
| "join sep (w # v # ws) = w @ sep @ join sep (v # ws)"

lemma split_not_Nil [simp]: "split c s \<noteq> []"
  by (induction s) (auto split: list.splits)

lemma join_split: "join [c] (split c s) = s"
proof (induction s)
  case Nil
  then show ?case by simp
next
  case (Cons x s)
  obtain w ws where w: "split c s = w # ws" by (meson neq_Nil_conv split_not_Nil)
  with Cons show ?case by (cases ws) auto
qed

lemma split_no_sep: "w \<in> set (split c s) \<Longrightarrow> c \<notin> set w"
proof (induction s arbitrary: w)
  case Nil
  then show ?case by simp
next
  case (Cons x s)
  obtain v vs where v: "split c s = v # vs" by (meson neq_Nil_conv split_not_Nil)
  with Cons.IH have "\<And>w. w \<in> set (v # vs) \<Longrightarrow> c \<notin> set w" by simp
  with Cons.prems v show ?case by (cases "x = c") (auto split: if_splits)
qed

lemma split_single: "c \<notin> set s \<Longrightarrow> split c s = [s]"
  by (induction s) auto

lemma split_append: "c \<notin> set s \<Longrightarrow> split c (s @ c # t) = s # split c t"
  by (induction s) auto

lemma split_join: "ws \<noteq> [] \<Longrightarrow> \<forall>w \<in> set ws. c \<notin> set w \<Longrightarrow> split c (join [c] ws) = ws"
  by (induction "[c]" ws rule: join.induct) (auto simp: split_single split_append)

section \<open>White space, case, replacement\<close>

text \<open>The encodings that \<^verbatim>\<open>unicode.IsSpace\<close> accepts.\<close>

definition space_encodings :: "string list" where
  "space_encodings =
     [[CHR 0x09], [CHR 0x0A], [CHR 0x0B], [CHR 0x0C], [CHR 0x0D], [CHR 0x20],
      [CHR 0xC2, CHR 0x85], [CHR 0xC2, CHR 0xA0], [CHR 0xE1, CHR 0x9A, CHR 0x80],
      [CHR 0xE2, CHR 0x80, CHR 0x80], [CHR 0xE2, CHR 0x80, CHR 0x81], [CHR 0xE2, CHR 0x80, CHR 0x82],
      [CHR 0xE2, CHR 0x80, CHR 0x83], [CHR 0xE2, CHR 0x80, CHR 0x84], [CHR 0xE2, CHR 0x80, CHR 0x85],
      [CHR 0xE2, CHR 0x80, CHR 0x86], [CHR 0xE2, CHR 0x80, CHR 0x87], [CHR 0xE2, CHR 0x80, CHR 0x88],
      [CHR 0xE2, CHR 0x80, CHR 0x89], [CHR 0xE2, CHR 0x80, CHR 0x8A], [CHR 0xE2, CHR 0x80, CHR 0xA8],
      [CHR 0xE2, CHR 0x80, CHR 0xA9], [CHR 0xE2, CHR 0x80, CHR 0xAF], [CHR 0xE2, CHR 0x81, CHR 0x9F],
      [CHR 0xE3, CHR 0x80, CHR 0x80]]"

text \<open>\<open>strip_left encs s\<close> removes leading encodings; each one is shorter than four bytes.\<close>

function strip_left :: "string list \<Rightarrow> string \<Rightarrow> string" where
  "strip_left encs s = (case find (\<lambda>e. e \<noteq> [] \<and> has_prefix s e) encs of
     None \<Rightarrow> s
   | Some e \<Rightarrow> strip_left encs (drop (length e) s))"
  by pat_completeness auto
termination
proof (relation "measure (\<lambda>(encs, s). length s)", simp)
  fix encs :: "string list" and s e :: string
  assume "find (\<lambda>e. e \<noteq> [] \<and> has_prefix s e) encs = Some e"
  then have "e \<noteq> [] \<and> has_prefix s e" by (metis (mono_tags, lifting) find_Some_iff)
  then show "((encs, drop (length e) s), encs, s) \<in> measure (\<lambda>(encs, s). length s)"
    by (auto simp: has_prefix_iff)
qed

declare strip_left.simps [simp del]

definition trim_space :: "string \<Rightarrow> string" where
  "trim_space s =
     rev (strip_left (map rev space_encodings) (rev (strip_left space_encodings s)))"

definition lower_char :: "char \<Rightarrow> char" where
  "lower_char c = (if of_char c \<in> {65..90 :: nat} then char_of (of_char c + 32 :: nat) else c)"

definition to_lower :: "string \<Rightarrow> string" where
  "to_lower = map lower_char"

text \<open>\<^verbatim>\<open>strings.Replace(s, c, "", -1)\<close> for a one-byte pattern.\<close>

definition remove_char :: "char \<Rightarrow> string \<Rightarrow> string" where
  "remove_char c = filter (\<lambda>x. x \<noteq> c)"

lemma strip_left_id: "\<forall>e \<in> set encs. e \<noteq> [] \<longrightarrow> \<not> has_prefix s e \<Longrightarrow> strip_left encs s = s"
proof -
  assume "\<forall>e \<in> set encs. e \<noteq> [] \<longrightarrow> \<not> has_prefix s e"
  then have "find (\<lambda>e. e \<noteq> [] \<and> has_prefix s e) encs = None"
    by (auto simp: find_None_iff)
  then show ?thesis by (subst strip_left.simps) simp
qed

lemma strip_left_suffix: "suffix (strip_left encs s) s"
proof (induction encs s rule: strip_left.induct)
  case (1 encs s)
  show ?case
  proof (cases "find (\<lambda>e. e \<noteq> [] \<and> has_prefix s e) encs")
    case None
    then show ?thesis by (subst strip_left.simps) simp
  next
    case (Some e)
    with 1 have "suffix (strip_left encs (drop (length e) s)) (drop (length e) s)" by simp
    also have "suffix \<dots> s" by (rule suffix_drop)
    finally show ?thesis using Some by (subst strip_left.simps) simp
  qed
qed

lemma to_lower_simps [simp]:
  "to_lower [] = []"
  "to_lower (c # s) = lower_char c # to_lower s"
  "to_lower (s @ t) = to_lower s @ to_lower t"
  by (simp_all add: to_lower_def)

lemma length_to_lower [simp]: "length (to_lower s) = length s"
  by (simp add: to_lower_def)

section \<open>Decimal numbers\<close>

fun show_nat :: "nat \<Rightarrow> string" where
  "show_nat n = (if n < 10 then [char_of (48 + n)] else show_nat (n div 10) @ [char_of (48 + n mod 10)])"

declare show_nat.simps [simp del]

text \<open>The verb \<^verbatim>\<open>%d\<close>.\<close>

definition show_int :: "int \<Rightarrow> string" where
  "show_int i = (if i < 0 then CHR ''-'' # show_nat (nat (- i)) else show_nat (nat i))"

definition is_digit :: "char \<Rightarrow> bool" where
  "is_digit c = (of_char c \<in> {48..57 :: nat})"

definition digits_value :: "string \<Rightarrow> nat" where
  "digits_value = foldl (\<lambda>n c. 10 * n + (of_char c - 48)) 0"

text \<open>
  The verb \<^verbatim>\<open>%q\<close> and \<^verbatim>\<open>strconv.Quote\<close>: quotes, backslashes and control characters are escaped; bytes from
  0x80 on are kept, as they are for printable UTF-8 text.
\<close>

definition quote_char :: "char \<Rightarrow> string" where
  "quote_char c =
     (let n = (of_char c :: nat); hex = (\<lambda>d. char_of (if d < 10 then 48 + d else 87 + d) :: char) in
      if c = CHR 0x22 \<or> c = CHR 0x5C then [CHR 0x5C, c]
      else if n = 7 then [CHR 0x5C, CHR ''a'']
      else if n = 8 then [CHR 0x5C, CHR ''b'']
      else if n = 9 then [CHR 0x5C, CHR ''t'']
      else if n = 10 then [CHR 0x5C, CHR ''n'']
      else if n = 11 then [CHR 0x5C, CHR ''v'']
      else if n = 12 then [CHR 0x5C, CHR ''f'']
      else if n = 13 then [CHR 0x5C, CHR ''r'']
      else if n < 32 \<or> n = 127 then [CHR 0x5C, CHR ''x'', hex (n div 16), hex (n mod 16)]
      else [c])"

definition quoted :: "string \<Rightarrow> string" where
  "quoted s = [CHR 0x22] @ concat (map quote_char s) @ [CHR 0x22]"

text \<open>
  \<^verbatim>\<open>strconv.Atoi\<close>: an optional sign, then one or more decimal digits, within 64-bit range. Digits that
  exceed 64 bits are a range error even when other characters follow.
\<close>

definition atoi_syntax :: "string \<Rightarrow> error" where
  "atoi_syntax s = Errorf (''strconv.Atoi: parsing '' @ quoted s @ '': invalid syntax'')"

definition atoi_range :: "string \<Rightarrow> error" where
  "atoi_range s = Errorf (''strconv.Atoi: parsing '' @ quoted s @ '': value out of range'')"

definition atoi :: "string \<Rightarrow> int outcome" where
  "atoi s =
     (let (neg, ds) = (case s of
            CHR ''-'' # t \<Rightarrow> (True, t)
          | CHR ''+'' # t \<Rightarrow> (False, t)
          | _ \<Rightarrow> (False, s));
          v = (if neg then - int (digits_value ds) else int (digits_value ds))
      in if ds = [] \<or> \<not> list_all is_digit ds \<and> digits_value (takeWhile is_digit ds) < 2 ^ 64
         then Err (atoi_syntax s)
         else if \<not> list_all is_digit ds \<or> v < - (2 ^ 63) \<or> 2 ^ 63 - 1 < v then Err (atoi_range s)
         else Ok v)"

lemma digits_value_snoc [simp]: "digits_value (ds @ [c]) = 10 * digits_value ds + (of_char c - 48)"
  by (simp add: digits_value_def)

lemma digit_char_roundtrip: "d < 10 \<Longrightarrow> of_char (char_of (48 + d) :: char) = (48 + d :: nat)"
  by (simp add: of_char_of take_bit_eq_mod)

lemma show_nat_digits: "list_all is_digit (show_nat n)"
proof (induction n rule: show_nat.induct)
  case (1 n)
  show ?case
  proof (cases "n < 10")
    case True
    then show ?thesis
      by (subst show_nat.simps) (simp add: is_digit_def digit_char_roundtrip)
  next
    case False
    with 1 have "list_all is_digit (show_nat (n div 10))" by simp
    with False show ?thesis
      by (subst show_nat.simps) (simp add: is_digit_def digit_char_roundtrip)
  qed
qed

lemma show_nat_not_Nil [simp]: "show_nat n \<noteq> []"
  by (subst show_nat.simps) simp

lemma digits_value_show_nat [simp]: "digits_value (show_nat n) = n"
proof (induction n rule: show_nat.induct)
  case (1 n)
  show ?case
  proof (cases "n < 10")
    case True
    then show ?thesis
      by (subst show_nat.simps) (simp add: digits_value_def digit_char_roundtrip)
  next
    case False
    with 1 have "digits_value (show_nat (n div 10)) = n div 10" by simp
    with False show ?thesis
      by (subst show_nat.simps) (simp add: digit_char_roundtrip)
  qed
qed

lemma show_nat_inject [simp]: "show_nat m = show_nat n \<longleftrightarrow> m = n"
  by (metis digits_value_show_nat)

lemma not_digit_show_nat: "\<not> is_digit c \<Longrightarrow> c \<notin> set (show_nat n)"
  using show_nat_digits [of n] by (auto simp: list_all_iff)

lemma minus_not_digit [simp]: "\<not> is_digit CHR ''-''" "\<not> is_digit CHR ''+''" "\<not> is_digit CHR ''.''"
    "\<not> is_digit CHR '':''" "\<not> is_digit CHR ''/''" "\<not> is_digit CHR ''|''"
  by (simp_all add: is_digit_def)

lemma show_nat_not_minus [simp]: "CHR ''-'' \<notin> set (show_nat n)" "CHR ''+'' \<notin> set (show_nat n)"
  by (simp_all add: not_digit_show_nat)

lemma show_nat_neq_minus [simp]: "show_nat n \<noteq> CHR ''-'' # s" "CHR ''-'' # s \<noteq> show_nat n"
    "show_nat n \<noteq> CHR ''+'' # s"
  by (metis list.set_intros(1) show_nat_not_minus(1)) (metis list.set_intros(1) show_nat_not_minus(1),
    metis list.set_intros(1) show_nat_not_minus(2))

lemma show_int_inject [simp]: "show_int i = show_int j \<longleftrightarrow> i = j"
  by (auto simp: show_int_def)

lemma show_int_not_Nil [simp]: "show_int i \<noteq> []"
  by (simp add: show_int_def)

text \<open>\<^verbatim>\<open>Atoi\<close> inverts \<^verbatim>\<open>%d\<close> on every 64-bit integer.\<close>

lemma atoi_show_int:
  assumes "- (2 ^ 63) \<le> i" "i < 2 ^ 63"
  shows "atoi (show_int i) = Ok i"
proof (cases "i < 0")
  case True
  with assms show ?thesis
    using show_nat_digits [of "nat (- i)"] by (simp add: atoi_def show_int_def)
next
  case False
  obtain d ds where d: "show_nat (nat i) = d # ds" by (meson neq_Nil_conv show_nat_not_Nil)
  then have "d \<noteq> CHR ''-''" "d \<noteq> CHR ''+''"
    by (metis show_nat_neq_minus(1), metis show_nat_neq_minus(3))
  then have "(case d # ds of CHR ''-'' # t \<Rightarrow> (True, t) | CHR ''+'' # t \<Rightarrow> (False, t)
      | _ \<Rightarrow> (False, d # ds)) = (False, d # ds)"
    by (auto split: char.splits bool.splits)
  with False assms d show ?thesis
    using show_nat_digits [of "nat i"] digits_value_show_nat [of "nat i"]
    by (simp add: atoi_def show_int_def)
qed

end
