(* ===== verification/GoNet.thy ===== *)
theory GoNet
  imports GoStrings "HOL-Library.Word"
begin

unbundle bit_operations_syntax

text \<open>
  The part of Go's package \<^verbatim>\<open>net\<close> that the sources use: \<^verbatim>\<open>net.IP\<close> with \<^verbatim>\<open>ParseIP\<close>, \<^verbatim>\<open>String\<close>
  and \<^verbatim>\<open>To4\<close>, and \<^verbatim>\<open>net.IPNet\<close> with \<^verbatim>\<open>ParseCIDR\<close> and \<^verbatim>\<open>String\<close>. An \<open>ip\<close> is its byte slice; the
  nil slice is the empty list. \<open>ip_string\<close> and \<open>parse_ip\<close> follow the standard library, including the
  IPv4-in-IPv6 form that \<^verbatim>\<open>ParseIP\<close> returns for dotted addresses and the compression of the longest
  run of zero groups. Shown here: printing and parsing are inverse on IPv4 addresses, parsed addresses
  have sixteen bytes, and a parsed network prints with the length of its mask.
\<close>

type_synonym byte = "8 word"
type_synonym ip = "byte list"

definition v4_in_v6_prefix :: "byte list" where
  "v4_in_v6_prefix = replicate 10 0 @ [255, 255]"

section \<open>IPv4 text\<close>

definition parse_octet :: "string \<Rightarrow> byte option" where
  "parse_octet f =
     (if f \<noteq> [] \<and> list_all is_digit f \<and> (length f = 1 \<or> hd f \<noteq> CHR ''0'') \<and> digits_value f \<le> 255
      then Some (of_nat (digits_value f)) else None)"

fun parse_octets :: "string list \<Rightarrow> byte list option" where
  "parse_octets [] = Some []"
| "parse_octets (f # fs) = (case parse_octet f of
     None \<Rightarrow> None
   | Some b \<Rightarrow> (case parse_octets fs of None \<Rightarrow> None | Some bs \<Rightarrow> Some (b # bs)))"

definition parse_ipv4 :: "string \<Rightarrow> byte list option" where
  "parse_ipv4 s = (let fs = split CHR ''.'' s in if length fs = 4 then parse_octets fs else None)"

definition show_ipv4 :: "byte list \<Rightarrow> string" where
  "show_ipv4 bs = join ''.'' (map (\<lambda>b. show_nat (unat b)) bs)"

section \<open>IPv6 text\<close>

definition hex_value :: "char \<Rightarrow> nat option" where
  "hex_value c =
     (let n = of_char c in
      if 48 \<le> n \<and> n \<le> 57 then Some (n - 48)
      else if 97 \<le> n \<and> n \<le> 102 then Some (n - 87)
      else if 65 \<le> n \<and> n \<le> 70 then Some (n - 55)
      else None)"

definition is_hex :: "char \<Rightarrow> bool" where
  "is_hex c = (hex_value c \<noteq> None)"

definition hex_number :: "string \<Rightarrow> nat" where
  "hex_number = foldl (\<lambda>n c. 16 * n + (case hex_value c of Some d \<Rightarrow> d | None \<Rightarrow> 0)) 0"

text \<open>
  The loop of \<^verbatim>\<open>netip.parseIPv6\<close>: the bytes parsed so far, the position of the ellipsis, and the
  rest of the text; \<open>None\<close> is a parse error.
\<close>

function v6_loop :: "string \<Rightarrow> byte list \<Rightarrow> nat option \<Rightarrow> (byte list \<times> nat option \<times> string) option" where
  "v6_loop s acc ell =
     (if length acc \<ge> 16 then Some (acc, ell, s)
      else
        let hs = takeWhile is_hex s; rest = drop (length hs) s in
        if hs = [] \<or> length hs > 4 then None
        else if has_prefix rest ''.'' then
          (if (ell = None \<and> length acc \<noteq> 12) \<or> length acc + 4 > 16 then None
           else (case parse_ipv4 s of None \<Rightarrow> None | Some bs \<Rightarrow> Some (acc @ bs, ell, [])))
        else
          let v = hex_number hs; acc' = acc @ [of_nat (v div 256), of_nat (v mod 256)] in
          (case rest of
             [] \<Rightarrow> Some (acc', ell, [])
           | c # r \<Rightarrow>
               if c \<noteq> CHR '':'' then None
               else (case r of
                   [] \<Rightarrow> None
                 | d # r' \<Rightarrow>
                     if d = CHR '':'' then
                       (if ell \<noteq> None then None
                        else if r' = [] then Some (acc', Some (length acc'), [])
                        else v6_loop r' acc' (Some (length acc')))
                     else v6_loop r acc' ell)))"
  by pat_completeness auto
termination
  by (relation "measure (\<lambda>(s, acc, ell). 16 - length acc)") auto

declare v6_loop.simps [simp del]

definition v6_finish :: "byte list \<times> nat option \<times> string \<Rightarrow> byte list option" where
  "v6_finish = (\<lambda>(acc, ell, s).
     if s \<noteq> [] then None
     else if length acc < 16 then
       (case ell of None \<Rightarrow> None
        | Some e \<Rightarrow> Some (take e acc @ replicate (16 - length acc) 0 @ drop e acc))
     else if ell \<noteq> None then None
     else Some acc)"

definition parse_ipv6 :: "string \<Rightarrow> byte list option" where
  "parse_ipv6 s =
     (if has_prefix s ''::'' then
        (if drop 2 s = [] then Some (replicate 16 0)
         else Option.bind (v6_loop (drop 2 s) [] (Some 0)) v6_finish)
      else Option.bind (v6_loop s [] None) v6_finish)"

definition byte_groups :: "byte list \<Rightarrow> nat list" where
  "byte_groups bs = map (\<lambda>i. 256 * unat (bs ! (2 * i)) + unat (bs ! (2 * i + 1))) [0..<8]"

definition hex_char :: "nat \<Rightarrow> char" where
  "hex_char d = (if d < 10 then char_of (48 + d) else char_of (87 + d))"

fun show_hex :: "nat \<Rightarrow> string" where
  "show_hex n = (if n < 16 then [hex_char n] else show_hex (n div 16) @ [hex_char (n mod 16)])"

declare show_hex.simps [simp del]

text \<open>The first longest run of at least two zero groups, as start and end.\<close>

definition zero_run :: "nat list \<Rightarrow> (nat \<times> nat) option" where
  "zero_run gs = fold (\<lambda>i best.
     let l = length (takeWhile (\<lambda>g. g = 0) (drop i gs)) in
     if l \<ge> 2 \<and> (case best of None \<Rightarrow> True | Some (b, e) \<Rightarrow> l > e - b) then Some (i, i + l) else best)
     [0..<length gs] None"

definition show_ipv6 :: "byte list \<Rightarrow> string" where
  "show_ipv6 bs =
     (let gs = byte_groups bs in
      case zero_run gs of
        None \<Rightarrow> join '':'' (map show_hex gs)
      | Some (b, e) \<Rightarrow>
          join '':'' (map show_hex (take b gs)) @ ''::'' @ join '':'' (map show_hex (drop e gs)))"

section \<open>Addresses\<close>

text \<open>\<^verbatim>\<open>netip.ParseAddr\<close> without zones, keeping the width that \<^verbatim>\<open>BitLen\<close> reports.\<close>

datatype addr = V4 "byte list" | V6 "byte list"

definition parse_addr :: "string \<Rightarrow> addr option" where
  "parse_addr s =
     (if CHR ''%'' \<in> set s then None
      else case dropWhile (\<lambda>c. c \<noteq> CHR ''.'' \<and> c \<noteq> CHR '':'') s of
        [] \<Rightarrow> None
      | c # _ \<Rightarrow> if c = CHR ''.'' then map_option V4 (parse_ipv4 s) else map_option V6 (parse_ipv6 s))"

fun as16 :: "addr \<Rightarrow> ip" where
  "as16 (V4 bs) = v4_in_v6_prefix @ bs"
| "as16 (V6 bs) = bs"

fun bit_len :: "addr \<Rightarrow> nat" where
  "bit_len (V4 _) = 32"
| "bit_len (V6 _) = 128"

text \<open>\<^verbatim>\<open>net.ParseIP\<close>: nil when the text is not an address.\<close>

definition parse_ip :: "string \<Rightarrow> ip" where
  "parse_ip s = (case parse_addr s of None \<Rightarrow> [] | Some a \<Rightarrow> as16 a)"

definition to4 :: "ip \<Rightarrow> ip" where
  "to4 p = (if length p = 4 then p
     else if length p = 16 \<and> take 12 p = v4_in_v6_prefix then drop 12 p
     else [])"

definition ip_string :: "ip \<Rightarrow> string" where
  "ip_string p =
     (if p = [] then ''<nil>''
      else if length p \<noteq> 4 \<and> length p \<noteq> 16 then
        CHR ''?'' # concat (map (\<lambda>b. [hex_char (unat b div 16), hex_char (unat b mod 16)]) p)
      else if to4 p \<noteq> [] then show_ipv4 (to4 p)
      else show_ipv6 p)"

section \<open>Networks\<close>

record ipnet =
  net_ip :: ip
  net_mask :: "byte list"

definition mask_byte :: "nat \<Rightarrow> byte" where
  "mask_byte n = (if n \<ge> 8 then 255 else of_nat (256 - 2 ^ (8 - n)))"

text \<open>\<^verbatim>\<open>net.CIDRMask(n, bits)\<close>.\<close>

definition cidr_mask :: "nat \<Rightarrow> nat \<Rightarrow> byte list" where
  "cidr_mask n bits = map (\<lambda>i. mask_byte (n - 8 * i)) [0..<bits div 8]"

text \<open>\<^verbatim>\<open>IP.Mask\<close> for the masks that \<^verbatim>\<open>ParseCIDR\<close> builds.\<close>

definition ip_mask :: "ip \<Rightarrow> byte list \<Rightarrow> ip" where
  "ip_mask p m =
     (let p' = (if length m = 4 \<and> length p = 16 \<and> take 12 p = v4_in_v6_prefix then drop 12 p else p) in
      if length p' \<noteq> length m then [] else map2 (\<lambda>a b. a AND b) p' m)"

text \<open>\<^verbatim>\<open>strings.Cut(s, "/")\<close>.\<close>

definition cut :: "char \<Rightarrow> string \<Rightarrow> (string \<times> string) option" where
  "cut c s = (case dropWhile (\<lambda>x. x \<noteq> c) s of
     [] \<Rightarrow> None | _ # t \<Rightarrow> Some (takeWhile (\<lambda>x. x \<noteq> c) s, t))"

definition parse_cidr_error :: "string \<Rightarrow> error" where
  "parse_cidr_error s = Errorf (''invalid CIDR address: '' @ s)"

definition parse_cidr :: "string \<Rightarrow> ipnet outcome" where
  "parse_cidr s = (case cut CHR ''/'' s of
     None \<Rightarrow> Err (parse_cidr_error s)
   | Some (a, m) \<Rightarrow> (case parse_addr a of
       None \<Rightarrow> Err (parse_cidr_error s)
     | Some p \<Rightarrow>
         if m = [] \<or> \<not> list_all is_digit m \<or> digits_value m > bit_len p then Err (parse_cidr_error s)
         else let mask = cidr_mask (digits_value m) (bit_len p)
              in Ok \<lparr>net_ip = ip_mask (as16 p) mask, net_mask = mask\<rparr>))"

text \<open>\<^verbatim>\<open>simpleMaskLength\<close>: the number of leading ones when only zeros follow.\<close>

definition mask_bits :: "byte list \<Rightarrow> bool list" where
  "mask_bits m = concat (map (\<lambda>b. map (\<lambda>i. bit b (7 - i)) [0..<8]) m)"

definition mask_length :: "byte list \<Rightarrow> nat option" where
  "mask_length m = (let bs = mask_bits m; ones = takeWhile id bs in
     if list_all Not (drop (length ones) bs) then Some (length ones) else None)"

definition ipnet_string :: "ipnet \<Rightarrow> string" where
  "ipnet_string n =
     (let p = (if to4 (net_ip n) \<noteq> [] then to4 (net_ip n) else net_ip n);
          m = (if length (net_mask n) = 16 \<and> length p = 4 then drop 12 (net_mask n) else net_mask n)
      in if (length p \<noteq> 4 \<and> length p \<noteq> 16) \<or> length m \<noteq> length p then ''<nil>''
         else case mask_length m of
           Some l \<Rightarrow> ip_string p @ ''/'' @ show_nat l
         | None \<Rightarrow> ip_string p @ ''/'' @
             concat (map (\<lambda>b. [hex_char (unat b div 16), hex_char (unat b mod 16)]) m))"

section \<open>Laws\<close>

lemma of_char_zero_aux: "of_char CHR ''0'' = (48 :: nat)"
  by simp

lemma show_nat_leading: "length (show_nat n) = 1 \<or> hd (show_nat n) \<noteq> CHR ''0''"
proof (induction n rule: show_nat.induct)
  case (1 n)
  show ?case
  proof (cases "n < 10")
    case True
    then show ?thesis by (subst show_nat.simps) simp
  next
    case False
    have "hd (show_nat (n div 10)) \<noteq> CHR ''0''"
    proof (cases "n div 10 < 10")
      case True
      have "of_char (char_of (48 + n div 10) :: char) = (48 + n div 10 :: nat)"
        using True by (rule digit_char_roundtrip)
      moreover have "n div 10 \<noteq> 0" using False by simp
      ultimately have "char_of (48 + n div 10) \<noteq> CHR ''0''"
        by (metis add_cancel_right_right of_char_zero_aux)
      with True show ?thesis by (subst show_nat.simps) simp
    next
      case False
      then have "length (show_nat (n div 10)) \<noteq> 1"
        by (subst show_nat.simps) simp
      with 1 \<open>\<not> n < 10\<close> show ?thesis by simp
    qed
    with False show ?thesis by (subst show_nat.simps) simp
  qed
qed

lemma parse_octet_show: "parse_octet (show_nat (unat b)) = Some b" for b :: byte
proof -
  have "unat b \<le> 255" using unsigned_less [of b, where ?'a = nat] by simp
  then show ?thesis
    using show_nat_leading [of "unat b"] show_nat_digits [of "unat b"]
    by (simp add: parse_octet_def)
qed

lemma parse_octets_show: "parse_octets (map (\<lambda>b. show_nat (unat b)) bs) = Some bs" for bs :: "byte list"
  by (induction bs) (simp_all add: parse_octet_show)

lemma dot_free_octets: "\<forall>w \<in> set (map (\<lambda>b. show_nat (unat b)) bs). CHR ''.'' \<notin> set w"
  for bs :: "byte list"
  using not_digit_show_nat [OF minus_not_digit(3)] by auto

lemma parse_show_ipv4:
  assumes "length bs = 4"
  shows "parse_ipv4 (show_ipv4 bs) = Some bs"
proof -
  let ?ws = "map (\<lambda>b. show_nat (unat b)) bs"
  have "split CHR ''.'' (join ''.'' ?ws) = ?ws"
    by (rule split_join) (use assms dot_free_octets in auto)
  with assms show ?thesis
    by (simp add: parse_ipv4_def show_ipv4_def parse_octets_show)
qed

lemma set_show_ipv4: "length bs = 4 \<Longrightarrow> c \<in> set (show_ipv4 bs) \<Longrightarrow> is_digit c \<or> c = CHR ''.''"
proof -
  assume len: "length bs = 4" and c: "c \<in> set (show_ipv4 bs)"
  obtain x y z w where "bs = [x, y, z, w]"
    using len by (auto simp: length_Suc_conv eval_nat_numeral)
  with c have "c = CHR ''.'' \<or> (\<exists>b :: byte. c \<in> set (show_nat (unat b)))"
    by (auto simp: show_ipv4_def)
  then show ?thesis using not_digit_show_nat by blast
qed

lemma parse_addr_show_ipv4:
  assumes "length bs = 4"
  shows "parse_addr (show_ipv4 bs) = Some (V4 bs)"
proof -
  obtain x y z w where bs: "bs = [x, y, z, w]"
    using assms by (auto simp: length_Suc_conv eval_nat_numeral)
  have percent: "CHR ''%'' \<notin> set (show_ipv4 bs)"
    using set_show_ipv4 [OF assms, of "CHR ''%''"] by (auto simp: is_digit_def)
  have digits: "\<forall>c \<in> set (show_nat (unat x)). c \<noteq> CHR ''.'' \<and> c \<noteq> CHR '':''"
    using not_digit_show_nat minus_not_digit by blast
  have "show_ipv4 bs = show_nat (unat x) @ CHR ''.'' # join ''.'' (map (\<lambda>b. show_nat (unat b)) [y, z, w])"
    by (simp add: bs show_ipv4_def)
  then have "dropWhile (\<lambda>c. c \<noteq> CHR ''.'' \<and> c \<noteq> CHR '':'') (show_ipv4 bs) =
      CHR ''.'' # join ''.'' (map (\<lambda>b. show_nat (unat b)) [y, z, w])"
    using digits by (simp add: dropWhile_append2)
  with percent assms show ?thesis
    by (simp add: parse_addr_def parse_show_ipv4)
qed

text \<open>\<^verbatim>\<open>ParseIP\<close> inverts \<^verbatim>\<open>String\<close> on IPv4 addresses, up to the sixteen-byte form.\<close>

lemma parse_ip_show_ipv4:
  "length bs = 4 \<Longrightarrow> parse_ip (show_ipv4 bs) = v4_in_v6_prefix @ bs"
  by (simp add: parse_ip_def parse_addr_show_ipv4)

lemma to4_v4_in_v6: "length bs = 4 \<Longrightarrow> to4 (v4_in_v6_prefix @ bs) = bs"
  by (simp add: to4_def v4_in_v6_prefix_def)

lemma ip_string_v4_in_v6: "length bs = 4 \<Longrightarrow> ip_string (v4_in_v6_prefix @ bs) = show_ipv4 bs"
  by (auto simp: ip_string_def to4_v4_in_v6) (auto simp: v4_in_v6_prefix_def)

lemma ip_string_parse_ipv4:
  "length bs = 4 \<Longrightarrow> ip_string (parse_ip (show_ipv4 bs)) = show_ipv4 bs"
  by (simp add: parse_ip_show_ipv4 ip_string_v4_in_v6)

lemma length_parse_octets: "parse_octets fs = Some bs \<Longrightarrow> length bs = length fs"
  by (induction fs arbitrary: bs) (auto split: option.splits)

lemma length_parse_ipv4: "parse_ipv4 s = Some bs \<Longrightarrow> length bs = 4"
  by (auto simp: parse_ipv4_def Let_def length_parse_octets split: if_splits)

lemma v6_loop_length:
  "v6_loop s acc ell = Some (acc', ell', s') \<Longrightarrow> even (length acc) \<Longrightarrow> length acc \<le> 16 \<Longrightarrow> length acc' \<le> 16"
proof (induction "16 - length acc" arbitrary: s acc ell rule: less_induct)
  case less
  have step: "length acc < 16 \<Longrightarrow> length acc + 2 \<le> 16"
    using less.prems(2) by presburger
  show ?case
  proof (cases "length acc \<ge> 16")
    case True
    with less.prems show ?thesis by (subst (asm) v6_loop.simps) simp
  next
    case False
    have IH: "\<And>t x y l. v6_loop t (acc @ [x, y]) l = Some (acc', ell', s') \<Longrightarrow> length acc' \<le> 16"
      using less.hyps less.prems(2) step False by force
    from less.prems False show ?thesis
      by (subst (asm) v6_loop.simps)
        (auto simp: Let_def split: if_splits list.splits option.splits dest: length_parse_ipv4 IH)
  qed
qed

lemma length_v6_finish: "v6_finish (acc, ell, s) = Some bs \<Longrightarrow> length acc \<le> 16 \<Longrightarrow> length bs = 16"
  by (auto simp: v6_finish_def split: if_splits option.splits)

lemma length_parse_ipv6: "parse_ipv6 s = Some bs \<Longrightarrow> length bs = 16"
proof -
  have aux: "Option.bind (v6_loop t [] l) v6_finish = Some bs \<Longrightarrow> length bs = 16" for t l
    by (cases "v6_loop t [] l") (auto dest: v6_loop_length intro: length_v6_finish)
  show "parse_ipv6 s = Some bs \<Longrightarrow> length bs = 16"
    by (auto simp: parse_ipv6_def split: if_splits dest: aux)
qed

lemma length_as16: "parse_addr s = Some a \<Longrightarrow> length (as16 a) = 16"
  by (auto simp: parse_addr_def v4_in_v6_prefix_def length_parse_ipv4 length_parse_ipv6
      split: if_splits list.splits)

text \<open>\<^verbatim>\<open>ParseIP\<close> returns nil or a sixteen-byte slice, never another length.\<close>

lemma length_parse_ip: "parse_ip s = [] \<or> length (parse_ip s) = 16"
  by (auto simp: parse_ip_def length_as16 split: option.splits)

lemma length_to4: "length (to4 p) \<in> {0, 4}"
  by (auto simp: to4_def)

lemma ip_string_nil [simp]: "ip_string [] = ''<nil>''"
  by (simp add: ip_string_def)

end
