(* ===== verification/Cloud.thy ===== *)
theory Cloud
  imports GoNet
begin

text \<open>
  The data the controller exchanges with Kubernetes and with the Edgecenter API, and the API itself.

  The record types list the fields of \<^verbatim>\<open>corev1.Service\<close>, \<^verbatim>\<open>corev1.Node\<close>, \<^verbatim>\<open>edgecloud.Loadbalancer\<close>
  and so on that the sources read or write. The API client is code outside the repository
  (\<^verbatim>\<open>edgecentercloud-go\<close>, \<^verbatim>\<open>k8s.io/apimachinery\<close>), so it is a parameter of the model: a record of
  functions from the state of the cloud \<open>'w\<close> to an outcome and the next state. Nothing is known about
  these functions; the cloud may change between two calls in any way, since each call returns an
  arbitrary next state. \<open>call\<close> runs one of them and appends the call to the trace.

  \<^verbatim>\<open>edgecloudUtil.ExecuteAndExtractTaskResult(ctx, f, ...)\<close> is one client function per \<^verbatim>\<open>f\<close>, with the
  task result as its value; \<^verbatim>\<open>edgecloudUtil.ResourceIsExist(ctx, f, id)\<close> likewise.
\<close>

section \<open>Kubernetes objects\<close>

text \<open>\<^verbatim>\<open>corev1.Protocol\<close>, \<^verbatim>\<open>corev1.ServiceAffinity\<close>, \<^verbatim>\<open>corev1.NodeAddressType\<close> are strings.\<close>

record service_port =
  sp_Name :: string
  sp_Protocol :: string
  sp_Port :: int
  sp_NodePort :: int

record service =
  svc_Namespace :: string
  svc_Name :: string
  svc_UID :: string
  svc_Annotations :: "string \<rightharpoonup> string"
  svc_Ports :: "service_port list"
  svc_SessionAffinity :: string
  svc_LoadBalancerSourceRanges :: "string list"
  svc_HealthCheckNodePort :: int
  svc_ExternalTrafficPolicy :: string
  svc_Ingress :: "string list"

record node_address =
  na_Type :: string
  na_Address :: string

record node =
  node_Name :: string
  node_ProviderID :: string
  node_Addresses :: "node_address list"

abbreviation ProtocolTCP :: string where "ProtocolTCP \<equiv> ''TCP''"
abbreviation ProtocolUDP :: string where "ProtocolUDP \<equiv> ''UDP''"
abbreviation NodeInternalIP :: string where "NodeInternalIP \<equiv> ''InternalIP''"
abbreviation NodeExternalIP :: string where "NodeExternalIP \<equiv> ''ExternalIP''"
abbreviation NodeHostName :: string where "NodeHostName \<equiv> ''Hostname''"
abbreviation ServiceAffinityClientIP :: string where "ServiceAffinityClientIP \<equiv> ''ClientIP''"
abbreviation ServiceAffinityNone :: string where "ServiceAffinityNone \<equiv> ''None''"

section \<open>Load balancers\<close>

record loadbalancer =
  lb_ID :: string
  lb_Name :: string
  lb_ProvisioningStatus :: string
  lb_VipAddress :: ip
  lb_VipPortID :: string

abbreviation ProvisioningStatusActive :: string where "ProvisioningStatusActive \<equiv> ''ACTIVE''"
abbreviation ProvisioningStatusError :: string where "ProvisioningStatusError \<equiv> ''ERROR''"
abbreviation ProvisioningStatusDeleted :: string where "ProvisioningStatusDeleted \<equiv> ''DELETED''"
abbreviation ProvisioningStatusPendingDelete :: string where "ProvisioningStatusPendingDelete \<equiv> ''PENDING_DELETE''"

record lb_create_request =
  lbc_Name :: string
  lbc_Flavor :: string
  lbc_VipNetworkID :: string
  lbc_VipSubnetID :: string

record listener =
  ln_ID :: string
  ln_Name :: string
  ln_Protocol :: string
  ln_ProtocolPort :: int
  ln_SecretID :: string
  ln_TimeoutClientData :: "int option"
  ln_TimeoutMemberData :: "int option"
  ln_TimeoutMemberConnect :: "int option"

abbreviation ListenerProtocolTCP :: string where "ListenerProtocolTCP \<equiv> ''TCP''"
abbreviation ListenerProtocolUDP :: string where "ListenerProtocolUDP \<equiv> ''UDP''"
abbreviation ListenerProtocolHTTP :: string where "ListenerProtocolHTTP \<equiv> ''HTTP''"
abbreviation ListenerProtocolTerminatedHTTPS :: string where "ListenerProtocolTerminatedHTTPS \<equiv> ''TERMINATED_HTTPS''"

record listener_create_request =
  lnc_Name :: string
  lnc_Protocol :: string
  lnc_ProtocolPort :: int
  lnc_LoadbalancerID :: string
  lnc_InsertXForwarded :: bool
  lnc_SecretID :: string
  lnc_TimeoutClientData :: "int option"
  lnc_TimeoutMemberData :: "int option"
  lnc_TimeoutMemberConnect :: "int option"

record listener_update_request =
  lnu_Name :: string
  lnu_SecretID :: string
  lnu_TimeoutClientData :: "int option"
  lnu_TimeoutMemberData :: "int option"
  lnu_TimeoutMemberConnect :: "int option"

record pool_member =
  pm_ID :: string
  pm_Address :: ip
  pm_ProtocolPort :: int
  pm_SubnetID :: string

record pool_member_create_request =
  pmc_Address :: ip
  pmc_ProtocolPort :: int
  pmc_SubnetID :: string

text \<open>\<open>LoadbalancerSessionPersistence\<close> is represented by its \<^verbatim>\<open>Type\<close>, the only field the sources set.\<close>

abbreviation SessionPersistenceSourceIP :: string where "SessionPersistenceSourceIP \<equiv> ''SOURCE_IP''"

record pool =
  pool_ID :: string
  pool_Name :: string
  pool_Listeners :: "string list"
  pool_Members :: "pool_member list"
  pool_SessionPersistence :: "string option"
  pool_LoadbalancerAlgorithm :: string

record health_monitor_create_request =
  hm_Type :: string
  hm_Delay :: int
  hm_Timeout :: int
  hm_MaxRetries :: int

record pool_create_request =
  pc_Name :: string
  pc_Protocol :: string
  pc_LoadbalancerAlgorithm :: string
  pc_ListenerID :: string
  pc_HealthMonitor :: "health_monitor_create_request option"
  pc_SessionPersistence :: "string option"

record pool_update_request =
  pu_ID :: string
  pu_Name :: string
  pu_Members :: "pool_member_create_request list"
  pu_SessionPersistence :: "string option"
  pu_LoadbalancerAlgorithm :: string

record pool_list_options =
  pl_LoadbalancerID :: string
  pl_ListenerID :: string
  pl_Details :: bool

section \<open>Networks, floating IPs, security groups, instances, volumes\<close>

record network =
  nw_ID :: string
  nw_External :: bool

record subnetwork =
  sn_CIDR :: string

record floating_ip =
  fip_ID :: string
  fip_FloatingIPAddress :: string

record sg_rule =
  sgr_ID :: string
  sgr_SecurityGroupID :: string
  sgr_RemoteGroupID :: string
  sgr_Direction :: string
  sgr_EtherType :: "string option"
  sgr_Protocol :: "string option"
  sgr_PortRangeMax :: "int option"
  sgr_PortRangeMin :: "int option"
  sgr_RemoteIPPrefix :: "string option"

record security_group =
  sg_ID :: string
  sg_Name :: string
  sg_Rules :: "sg_rule list"

record rule_create_request =
  rc_Direction :: string
  rc_EtherType :: string
  rc_Protocol :: string
  rc_SecurityGroupID :: "string option"
  rc_RemoteGroupID :: "string option"
  rc_PortRangeMax :: "int option"
  rc_PortRangeMin :: "int option"
  rc_RemoteIPPrefix :: "string option"
  rc_Description :: "string option"

record instance_address =
  ia_Type :: string
  ia_Address :: ip

record flavor =
  fl_FlavorID :: string
  fl_FlavorName :: string

text \<open>\<^verbatim>\<open>Instance.Addresses\<close> is a Go map; the association list stands for one iteration order.\<close>

record cloud_instance =
  inst_ID :: string
  inst_Name :: string
  inst_Status :: string
  inst_Flavor :: "flavor option"
  inst_Metadata :: "string \<rightharpoonup> string"
  inst_Addresses :: "(string \<times> instance_address list) list"
  inst_SecurityGroups :: "string list"

record instance_interface =
  if_PortID :: string
  if_IPAssignments :: "(ip \<times> string) list"
  if_SubnetCIDRs :: "string list"

text \<open>\<^verbatim>\<open>AssignSecurityGroupRequest\<close>: the group's name and the names per port.\<close>

record assign_sg_request =
  asg_Name :: string
  asg_PortsSecurityGroupNames :: "(string \<times> string list) list"

record cloud_volume =
  cv_ID :: string
  cv_Name :: string
  cv_Status :: string
  cv_AvailabilityZone :: string
  cv_Size :: int
  cv_Attachments :: "(string \<times> string) list"

record volume_create_request =
  vc_Name :: string
  vc_Size :: int
  vc_Source :: string
  vc_TypeName :: string

record task_result =
  task_Loadbalancers :: "string list"
  task_Listeners :: "string list"
  task_Pools :: "string list"
  task_FloatingIPs :: "string list"
  task_Volumes :: "string list"

section \<open>Calls\<close>

text \<open>One constructor per client function; the existence checks and status reads keep the answer.\<close>

datatype (plugins only: code size) lb_call =
    Loadbalancers_List
  | Loadbalancers_Get string "loadbalancer outcome"
  | Loadbalancers_Create lb_create_request
  | Loadbalancers_Delete string
  | Loadbalancers_Exists string "bool outcome"
  | Listener_List string
  | Listener_Get string
  | Listener_Create listener_create_request
  | Listener_Update string listener_update_request
  | Listener_Delete string
  | Listener_Exists string "bool outcome"

datatype (plugins only: code size) pool_call =
    Pool_List pool_list_options
  | Pool_Get string
  | Pool_Create pool_create_request
  | Pool_Update string pool_update_request
  | Pool_Delete string
  | Pool_Exists string "bool outcome"
  | PoolMember_Create string pool_member_create_request
  | PoolMember_Delete string string
  | Task_Wait string
  | Secret_Post string string

datatype (plugins only: code size) network_call =
    Networks_List
  | Subnetworks_Get string
  | Floatingips_List
  | Floatingips_ListByPort string
  | Floatingips_Get string
  | Floatingips_Create string
  | Floatingips_Assign string string
  | Floatingips_Delete string

datatype (plugins only: code size) sg_call =
    SecurityGroups_List
  | SecurityGroups_Get string
  | SecurityGroups_Create string string
  | SecurityGroups_Delete string
  | Rule_Create string rule_create_request
  | SecurityGroup_Assign string assign_sg_request
  | SecurityGroup_UnAssign string assign_sg_request

datatype (plugins only: code size) instance_call =
    Instances_Get string
  | Instances_List string
  | Instances_Exists string
  | Instances_InterfaceList string
  | Instances_SecurityGroupList string
  | Instances_FilterBySecurityGroup string

datatype (plugins only: code size) volume_call =
    Volumes_Get string "cloud_volume outcome"
  | Volumes_Create volume_create_request
  | Volumes_Delete string
  | Volumes_Extend string int
  | Volumes_Attach string string
  | Volumes_Detach string string
  | Operation_Metric string bool

datatype (plugins only: code size) api_call =
    LB lb_call | PL pool_call | NW network_call | SG sg_call | IN instance_call | VO volume_call

record 'w st =
  world :: 'w
  calls :: "api_call list"

text \<open>The variables that the polling closures of the sources capture and assign.\<close>

record captured =
  v_provisioningStatus :: string
  v_lastErr :: "error option"
  v_lastPool :: "pool option"
  v_devicePath :: string

definition no_vars :: captured where
  "no_vars = \<lparr>v_provisioningStatus = [], v_lastErr = None, v_lastPool = None, v_devicePath = []\<rparr>"

text \<open>\<^verbatim>\<open>wait.Backoff\<close>: durations in milliseconds, the factor in tenths.\<close>

record backoff =
  bo_Duration :: nat
  bo_Factor :: nat
  bo_Steps :: nat

section \<open>The client\<close>

type_synonym ('w, 'a) ext = "'w \<Rightarrow> 'a outcome \<times> 'w"

record 'w loadbalancers_api =
  api_lb_list :: "('w, loadbalancer list) ext"
  api_lb_get :: "string \<Rightarrow> ('w, loadbalancer) ext"
  api_lb_create :: "lb_create_request \<Rightarrow> ('w, task_result) ext"
  api_lb_delete :: "string \<Rightarrow> ('w, task_result) ext"
  api_lb_exists :: "string \<Rightarrow> ('w, bool) ext"
  api_listener_list :: "string \<Rightarrow> ('w, listener list) ext"
  api_listener_get :: "string \<Rightarrow> ('w, listener) ext"
  api_listener_create :: "listener_create_request \<Rightarrow> ('w, task_result) ext"
  api_listener_update :: "string \<Rightarrow> listener_update_request \<Rightarrow> ('w, unit) ext"
  api_listener_delete :: "string \<Rightarrow> ('w, task_result) ext"
  api_listener_exists :: "string \<Rightarrow> ('w, bool) ext"

record 'w pools_api =
  api_pool_list :: "pool_list_options \<Rightarrow> ('w, pool list) ext"
  api_pool_get :: "string \<Rightarrow> ('w, pool option) ext"
  api_pool_create :: "pool_create_request \<Rightarrow> ('w, task_result) ext"
  api_pool_update :: "string \<Rightarrow> pool_update_request \<Rightarrow> ('w, unit) ext"
  api_pool_delete :: "string \<Rightarrow> ('w, task_result) ext"
  api_pool_exists :: "string \<Rightarrow> ('w, bool) ext"
  api_member_create :: "string \<Rightarrow> pool_member_create_request \<Rightarrow> ('w, string list) ext"
  api_member_delete :: "string \<Rightarrow> string \<Rightarrow> ('w, string list) ext"
  api_task_wait :: "string \<Rightarrow> ('w, unit) ext"
  api_secret_post :: "string \<Rightarrow> string \<Rightarrow> ('w, string) ext"

record 'w networks_api =
  api_networks_list :: "('w, network list) ext"
  api_subnet_get :: "string \<Rightarrow> ('w, subnetwork) ext"
  api_fip_list :: "('w, floating_ip list) ext"
  api_fip_by_port :: "string \<Rightarrow> ('w, floating_ip list) ext"
  api_fip_get :: "string \<Rightarrow> ('w, floating_ip) ext"
  api_fip_create :: "string \<Rightarrow> ('w, task_result) ext"
  api_fip_assign :: "string \<Rightarrow> string \<Rightarrow> ('w, floating_ip) ext"
  api_fip_delete :: "string \<Rightarrow> ('w, task_result) ext"
  api_sg_list :: "('w, security_group list) ext"
  api_sg_get :: "string \<Rightarrow> ('w, security_group) ext"
  api_sg_create :: "string \<Rightarrow> string \<Rightarrow> ('w, security_group) ext"
  api_sg_delete :: "string \<Rightarrow> ('w, unit) ext"
  api_rule_create :: "string \<Rightarrow> rule_create_request \<Rightarrow> ('w, sg_rule) ext"

record 'w instances_api =
  api_inst_get :: "string \<Rightarrow> ('w, cloud_instance) ext"
  api_inst_list :: "string \<Rightarrow> ('w, cloud_instance list) ext"
  api_inst_exists :: "string \<Rightarrow> ('w, bool) ext"
  api_inst_interfaces :: "string \<Rightarrow> ('w, instance_interface list) ext"
  api_inst_sg_list :: "string \<Rightarrow> ('w, security_group list) ext"
  api_inst_by_sg :: "string \<Rightarrow> ('w, cloud_instance list) ext"
  api_inst_sg_assign :: "string \<Rightarrow> assign_sg_request \<Rightarrow> ('w, unit) ext"
  api_inst_sg_unassign :: "string \<Rightarrow> assign_sg_request \<Rightarrow> ('w, unit) ext"

record 'w volumes_api =
  api_vol_get :: "string \<Rightarrow> ('w, cloud_volume) ext"
  api_vol_create :: "volume_create_request \<Rightarrow> ('w, task_result) ext"
  api_vol_delete :: "string \<Rightarrow> ('w, task_result) ext"
  api_vol_extend :: "string \<Rightarrow> int \<Rightarrow> ('w, string list) ext"
  api_vol_attach :: "string \<Rightarrow> string \<Rightarrow> ('w, cloud_volume) ext"
  api_vol_detach :: "string \<Rightarrow> string \<Rightarrow> ('w, cloud_volume) ext"

text \<open>
  The pure library functions the sources call, and the two polling drivers of
  \<^verbatim>\<open>k8s.io/apimachinery/pkg/util/wait\<close>, which run a closure over the state and its captured variables.
\<close>

type_synonym 'w driver =
  "backoff \<Rightarrow> ('w st \<times> captured, bool) prog \<Rightarrow> ('w st \<times> captured, unit) prog"

record 'w client =
  Loadbalancers :: "'w loadbalancers_api"
  Pools :: "'w pools_api"
  Networks :: "'w networks_api"
  Instances :: "'w instances_api"
  Volumes :: "'w volumes_api"
  ExponentialBackoff :: "'w driver"
  ExponentialBackoffWithContext :: "'w driver"
  SecurityGroupRuleProtocol_IsValid :: "string \<Rightarrow> bool"
  VolumeType_IsValid :: "string \<Rightarrow> bool"
  DefaultLoadBalancerName :: "service \<Rightarrow> string"
  Sprint_member_request :: "pool_member_create_request \<Rightarrow> string"
  Sprint_fip_request :: "string \<Rightarrow> string"
  Sprint_sg_request :: "string \<Rightarrow> string \<Rightarrow> string"
  Sprint_volume_request :: "volume_create_request \<Rightarrow> string"
  Sprint_volume :: "cloud_volume \<Rightarrow> string"
  NewRequest_error :: "string \<Rightarrow> string \<Rightarrow> error option"
  MKaaSClustersBasePathV2 :: string

definition call :: "('a outcome \<Rightarrow> api_call) \<Rightarrow> ('w, 'a) ext \<Rightarrow> ('w st, 'a) prog" where
  "call c f s = (case f (world s) of (r, w') \<Rightarrow> (r, s\<lparr>world := w', calls := calls s @ [c r]\<rparr>))"

text \<open>\<^verbatim>\<open>recordEdgecenterOperationMetric\<close>: the operation and whether its error is non-nil.\<close>

definition record_metric :: "string \<Rightarrow> bool \<Rightarrow> ('w st, unit) prog" where
  "record_metric op failed s = (Ok (), s\<lparr>calls := calls s @ [VO (Operation_Metric op failed)]\<rparr>)"

lemma emits_call [wp]: "(\<And>r. Q r [c r]) \<Longrightarrow> emits calls (call c f) Q"
  by (simp add: emits_def call_def split: prod.splits)

lemma emits_record_metric [wp]:
  "Q (Ok ()) [VO (Operation_Metric op b)] \<Longrightarrow> emits calls (record_metric op b) Q"
  by (simp add: emits_def record_metric_def)

lemma always_call [emits_intros]: "(\<And>r. R [c r]) \<Longrightarrow> always calls R (call c f)"
  unfolding always_def by (rule emits_call) simp

lemma always_record_metric [emits_intros]:
  "R [VO (Operation_Metric op b)] \<Longrightarrow> always calls R (record_metric op b)"
  unfolding always_def by (rule emits_record_metric)

end
