(* ===== verification/Naming.thy ===== *)
theory Naming
  imports Cloud
begin

text \<open>
  Names and comparison keys: \<^verbatim>\<open>cutString\<close>, the member keys, \<^verbatim>\<open>servicePortKey\<close>, the listener, pool,
  load balancer and security group names of \<^verbatim>\<open>loadbalancer_utils.go\<close>, \<^verbatim>\<open>loadbalancer.go\<close> and
  \<^verbatim>\<open>loadbalancer_securitygroups.go\<close>, and the error test \<^verbatim>\<open>isLoadBalancerImmutableError\<close>.
  The lemmas: every name fits the API limit, keys identify what they are built from, listener and
  pool names never coincide, and which services share a load balancer name after truncation.
\<close>

definition maxNameLength :: nat where
  "maxNameLength = 63"

definition cutString :: "string \<Rightarrow> string" where
  "cutString original =
     (if length original > maxNameLength then take maxNameLength original else original)"

definition poolMemberKey :: "pool_member \<Rightarrow> string" where
  "poolMemberKey m =
     (let addr = (if pm_Address m \<noteq> [] then ip_string (pm_Address m) else []) in
      addr @ '':'' @ show_int (pm_ProtocolPort m) @ ''|'' @ pm_SubnetID m)"

definition poolMemberCreateKey :: "pool_member_create_request \<Rightarrow> string" where
  "poolMemberCreateKey m =
     (let addr = (if pmc_Address m \<noteq> [] then ip_string (pmc_Address m) else []) in
      addr @ '':'' @ show_int (pmc_ProtocolPort m) @ ''|'' @ pmc_SubnetID m)"

definition servicePortKey :: "service_port \<Rightarrow> string" where
  "servicePortKey sp =
     (if sp_Name sp \<noteq> [] then
        sp_Name sp @ ''-'' @ to_lower (sp_Protocol sp) @ ''-'' @ show_int (sp_Port sp)
      else to_lower (sp_Protocol sp) @ ''-'' @ show_int (sp_Port sp))"

definition buildListenerName :: "string \<Rightarrow> service_port \<Rightarrow> string" where
  "buildListenerName lbName sp =
     trim_suffix (cutString (''listener_'' @ servicePortKey sp @ ''_'' @ lbName)) ''-''"

definition buildPoolName :: "string \<Rightarrow> service_port \<Rightarrow> string" where
  "buildPoolName lbName sp =
     trim_suffix (cutString (''pool_'' @ servicePortKey sp @ ''_'' @ lbName)) ''-''"

definition intPtrEqual :: "int option \<Rightarrow> int option \<Rightarrow> bool" where
  "intPtrEqual a b = (case (a, b) of
     (None, None) \<Rightarrow> True
   | (None, Some _) \<Rightarrow> False
   | (Some _, None) \<Rightarrow> False
   | (Some x, Some y) \<Rightarrow> x = y)"

text \<open>The receiver's only field that is read is \<^verbatim>\<open>l.edgecenter.ClusterID\<close>.\<close>

definition GetLoadBalancerName :: "string \<Rightarrow> service \<Rightarrow> string" where
  "GetLoadBalancerName clusterID svc =
     trim_suffix (cutString (''svc_'' @ clusterID @ ''_'' @ svc_Namespace svc @ ''_'' @ svc_Name svc)) ''-''"

definition GetLoadBalancerLegacyName :: "'w client \<Rightarrow> service \<Rightarrow> string" where
  "GetLoadBalancerLegacyName c svc = DefaultLoadBalancerName c svc"

definition getSecurityGroupName :: "service \<Rightarrow> string" where
  "getSecurityGroupName svc =
     (let securityGroupName = ''lb-sg-'' @ svc_UID svc @ ''-'' @ svc_Namespace svc @ ''-'' @ svc_Name svc;
          cut = (if length securityGroupName > maxNameLength then take maxNameLength securityGroupName
                 else securityGroupName)
      in trim_suffix cut ''-'')"

definition isLoadBalancerImmutableError :: "error option \<Rightarrow> bool" where
  "isLoadBalancerImmutableError err = (case err of
     None \<Rightarrow> False
   | Some e \<Rightarrow> contains (error_msg e) ''immutable state'' \<or>
       contains (error_msg e) ''is not allowed to process'')"

section \<open>Bounds\<close>

lemma cutString_take: "cutString s = take maxNameLength s"
  by (simp add: cutString_def)

lemma length_cutString: "length (cutString s) \<le> maxNameLength"
  by (simp add: cutString_take)

lemma length_trim_cut: "length (trim_suffix (cutString s) p) \<le> maxNameLength"
  using length_trim_suffix [of "cutString s" p] length_cutString [of s] by simp

lemma has_prefix_trim_cut:
  assumes "length p \<le> 62" "last p \<noteq> CHR ''-''" "p \<noteq> []"
  shows "has_prefix (trim_suffix (cutString (p @ s)) ''-'') p"
proof -
  have cut: "cutString (p @ s) = p @ take (63 - length p) s"
    using assms(1) by (simp add: cutString_take maxNameLength_def)
  show ?thesis
  proof (cases "has_suffix (cutString (p @ s)) ''-''")
    case True
    then obtain t where t: "p @ take (63 - length p) s = t @ ''-''"
      unfolding has_suffix_iff cut by blast
    with assms(2,3) have "take (63 - length p) s \<noteq> []" by (metis append_Nil2 last_snoc)
    then have "take (63 - length p) s = butlast (take (63 - length p) s) @ ''-''"
      using t by (metis append_butlast_last_id last_appendR last_snoc)
    then have "trim_suffix (cutString (p @ s)) ''-'' = p @ butlast (take (63 - length p) s)"
      using cut by (metis append.assoc trim_suffix_append)
    then show ?thesis by simp
  next
    case False
    then show ?thesis by (simp add: trim_suffix_id cut)
  qed
qed

section \<open>Keys identify their parts\<close>

lemma split_append_sep: "split c (a @ c # b) = split c a @ split c b"
proof (induction a)
  case Nil
  then show ?case by simp
next
  case (Cons x a)
  obtain w ws where "split c a = w # ws" by (meson neq_Nil_conv split_not_Nil)
  with Cons show ?case by auto
qed

text \<open>The parts of a key: the text between dashes, with the name's own parts in front.\<close>

lemma split_servicePortKey:
  assumes "CHR ''-'' \<notin> set (to_lower (sp_Protocol sp))" "0 \<le> sp_Port sp"
  shows "split CHR ''-'' (servicePortKey sp) =
    (if sp_Name sp = [] then [] else split CHR ''-'' (sp_Name sp)) @
      [to_lower (sp_Protocol sp), show_int (sp_Port sp)]"
proof -
  have "CHR ''-'' \<notin> set (show_int (sp_Port sp))"
    using assms(2) by (simp add: show_int_def)
  with assms(1) show ?thesis
    by (simp add: servicePortKey_def split_append_sep split_single)
qed

lemma servicePortKey_eq_iff:
  assumes "CHR ''-'' \<notin> set (to_lower (sp_Protocol a))" "0 \<le> sp_Port a"
    and "CHR ''-'' \<notin> set (to_lower (sp_Protocol b))" "0 \<le> sp_Port b"
  shows "servicePortKey a = servicePortKey b \<longleftrightarrow>
    sp_Name a = sp_Name b \<and> to_lower (sp_Protocol a) = to_lower (sp_Protocol b) \<and> sp_Port a = sp_Port b"
proof
  assume "servicePortKey a = servicePortKey b"
  then have "split CHR ''-'' (servicePortKey a) = split CHR ''-'' (servicePortKey b)" by simp
  then have parts: "(if sp_Name a = [] then [] else split CHR ''-'' (sp_Name a)) =
      (if sp_Name b = [] then [] else split CHR ''-'' (sp_Name b))"
    and rest: "to_lower (sp_Protocol a) = to_lower (sp_Protocol b)" "sp_Port a = sp_Port b"
    by (simp_all add: split_servicePortKey assms)
  from parts have "sp_Name a = sp_Name b"
    by (metis join_split split_not_Nil)
  with rest show "sp_Name a = sp_Name b \<and> to_lower (sp_Protocol a) = to_lower (sp_Protocol b) \<and> sp_Port a = sp_Port b"
    by simp
next
  assume "sp_Name a = sp_Name b \<and> to_lower (sp_Protocol a) = to_lower (sp_Protocol b) \<and> sp_Port a = sp_Port b"
  then show "servicePortKey a = servicePortKey b" by (simp add: servicePortKey_def)
qed

text \<open>Member keys: a bar never occurs in a printed address, a colon never in a port.\<close>

lemma hex_char_cases: "d < 16 \<Longrightarrow> hex_char d \<in> set ''0123456789abcdef''"
proof -
  have "\<forall>d \<in> set [0..<16]. hex_char d \<in> set ''0123456789abcdef''" by code_simp
  then show "d < 16 \<Longrightarrow> hex_char d \<in> set ''0123456789abcdef''" by simp
qed

lemma set_show_hex: "set (show_hex n) \<subseteq> set ''0123456789abcdef''"
proof (induction n rule: show_hex.induct)
  case (1 n)
  show ?case
  proof (cases "n < 16")
    case True
    then show ?thesis using hex_char_cases [of n] by (subst show_hex.simps) simp
  next
    case False
    with 1 show ?thesis using hex_char_cases [of "n mod 16"] by (subst show_hex.simps) simp
  qed
qed

lemma set_join: "set (join sep ws) \<subseteq> set sep \<union> \<Union> (set (map set ws))"
  by (induction sep ws rule: join.induct) auto

lemma bar_show_ipv6: "CHR ''|'' \<notin> set (show_ipv6 p)"
proof -
  have hex: "CHR ''|'' \<notin> set (join '':'' (map show_hex gs))" for gs
    using set_join [of "'':''" "map show_hex gs"] set_show_hex by fastforce
  show ?thesis using hex by (auto simp: show_ipv6_def Let_def split: option.splits)
qed

lemma bar_show_ipv4: "CHR ''|'' \<notin> set (show_ipv4 p)"
  using set_join [of "''.''" "map (\<lambda>b. show_nat (unat b)) p"] not_digit_show_nat [OF minus_not_digit(6)]
  unfolding show_ipv4_def by fastforce

lemma unat_byte: "unat b < 256" for b :: byte
  using unsigned_less [of b, where ?'a = nat] by simp

lemma bar_ip_string: "CHR ''|'' \<notin> set (ip_string p)"
proof -
  have no_bar: "d < 16 \<Longrightarrow> hex_char d \<noteq> CHR ''|''" for d
    using hex_char_cases [of d] by auto
  have "hex_char (unat b div 16) \<noteq> CHR ''|''" "hex_char (unat b mod 16) \<noteq> CHR ''|''" for b :: byte
    using unat_byte [of b] by (auto intro!: no_bar)
  then show ?thesis
    by (auto simp: ip_string_def bar_show_ipv4 bar_show_ipv6 dest!: sym [of "CHR ''|''"])
qed

lemma bar_show_int: "CHR ''|'' \<notin> set (show_int i)"
  using not_digit_show_nat [OF minus_not_digit(6)] by (simp add: show_int_def)

lemma colon_show_int: "CHR '':'' \<notin> set (show_int i)"
  using not_digit_show_nat [OF minus_not_digit(4)] by (simp add: show_int_def)

lemma first_sep_eq:
  "c \<notin> set a \<Longrightarrow> c \<notin> set a' \<Longrightarrow> a @ c # b = a' @ c # b' \<longleftrightarrow> a = a' \<and> b = b'"
proof (induction a arbitrary: a')
  case Nil
  then show ?case by (cases a') auto
next
  case (Cons x a)
  then show ?case by (cases a') auto
qed

lemma last_sep_eq:
  assumes "c \<notin> set b" "c \<notin> set b'"
  shows "a @ c # b = a' @ c # b' \<longleftrightarrow> a = a' \<and> b = b'"
proof -
  have "rev b @ c # rev a = rev b' @ c # rev a' \<longleftrightarrow> rev b = rev b' \<and> rev a = rev a'"
    using assms by (intro first_sep_eq) auto
  moreover have "a @ c # b = a' @ c # b' \<longleftrightarrow> rev b @ c # rev a = rev b' @ c # rev a'"
    by (metis append_Cons append_Nil append_assoc rev.simps(2) rev_append rev_rev_ident)
  ultimately show ?thesis by auto
qed

definition addr_text :: "ip \<Rightarrow> string" where
  "addr_text p = (if p \<noteq> [] then ip_string p else [])"

lemma member_key_eq_iff:
  "addr_text p @ '':'' @ show_int i @ ''|'' @ s = addr_text q @ '':'' @ show_int j @ ''|'' @ t \<longleftrightarrow>
   addr_text p = addr_text q \<and> i = j \<and> s = t"
proof -
  have bar: "CHR ''|'' \<notin> set (addr_text r @ CHR '':'' # show_int k)" for r k
    by (simp add: addr_text_def bar_ip_string bar_show_int)
  have "(addr_text p @ CHR '':'' # show_int i) @ CHR ''|'' # s =
        (addr_text q @ CHR '':'' # show_int j) @ CHR ''|'' # t \<longleftrightarrow>
      addr_text p @ CHR '':'' # show_int i = addr_text q @ CHR '':'' # show_int j \<and> s = t"
    by (rule first_sep_eq [OF bar bar])
  also have "\<dots> \<longleftrightarrow> (addr_text p = addr_text q \<and> show_int i = show_int j) \<and> s = t"
    using last_sep_eq [OF colon_show_int colon_show_int] by simp
  finally show ?thesis by simp
qed

text \<open>The key of an existing member equals the key of a desired one iff their parts agree.\<close>

lemma poolMemberKey_eq_iff:
  "poolMemberKey m = poolMemberCreateKey d \<longleftrightarrow>
     addr_text (pm_Address m) = addr_text (pmc_Address d) \<and>
     pm_ProtocolPort m = pmc_ProtocolPort d \<and> pm_SubnetID m = pmc_SubnetID d"
  using member_key_eq_iff [of "pm_Address m" "pm_ProtocolPort m" "pm_SubnetID m"
      "pmc_Address d" "pmc_ProtocolPort d" "pmc_SubnetID d"]
  by (simp add: poolMemberKey_def poolMemberCreateKey_def addr_text_def Let_def)

section \<open>Error classification\<close>

lemma immutable_wrapped:
  "isLoadBalancerImmutableError (Some e) \<Longrightarrow> isLoadBalancerImmutableError (Some (Wrapf p e))"
  using contains_appendI [of "error_msg e" _ p "[]"]
  by (auto simp: isLoadBalancerImmutableError_def)

lemma intPtrEqual_iff: "intPtrEqual a b \<longleftrightarrow> a = b"
  by (auto simp: intPtrEqual_def split: option.splits)

section \<open>Properties\<close>

lemma listener_pool_prefix:
  "has_prefix (buildListenerName lb sp) ''listener_''"
  "has_prefix (buildPoolName lb sp) ''pool_''"
  unfolding buildListenerName_def buildPoolName_def by (rule has_prefix_trim_cut; simp)+

lemma prefix_disjoint: "has_prefix a ''listener_'' \<Longrightarrow> has_prefix b ''pool_'' \<Longrightarrow> a \<noteq> b"
  by (cases b) (auto simp: has_prefix_def)

text \<open>every generated name fits the limit of 63 bytes of the API, and the name of a listener is never
  the name of a pool, whatever the load balancer and the ports are.\<close>

theorem generated_names:
  "length (buildListenerName lb sp) \<le> maxNameLength \<and> length (buildPoolName lb sp) \<le> maxNameLength \<and>
   length (GetLoadBalancerName clusterID svc) \<le> maxNameLength \<and>
   length (getSecurityGroupName svc) \<le> maxNameLength \<and>
   buildListenerName lb sp \<noteq> buildPoolName lb' sp'"
  using prefix_disjoint [OF listener_pool_prefix]
  by (auto simp: buildListenerName_def buildPoolName_def GetLoadBalancerName_def length_trim_cut
      getSecurityGroupName_def Let_def simp flip: cutString_def)

text \<open>The key of a service port identifies its name, its protocol (up to case) and its number, for
  protocols without a dash and ports that are not negative.\<close>

theorem servicePortKey_identifies:
  assumes "CHR ''-'' \<notin> set (to_lower (sp_Protocol a))" "0 \<le> sp_Port a"
    and "CHR ''-'' \<notin> set (to_lower (sp_Protocol b))" "0 \<le> sp_Port b"
  shows "servicePortKey a = servicePortKey b \<longleftrightarrow>
    sp_Name a = sp_Name b \<and> to_lower (sp_Protocol a) = to_lower (sp_Protocol b) \<and> sp_Port a = sp_Port b"
  by (rule servicePortKey_eq_iff [OF assms])

lemma servicePortKey_identifies_witness:
  "servicePortKey \<lparr>sp_Name = ''web'', sp_Protocol = ''TCP'', sp_Port = 80, sp_NodePort = 30080\<rparr> \<noteq>
   servicePortKey \<lparr>sp_Name = ''web'', sp_Protocol = ''UDP'', sp_Port = 80, sp_NodePort = 30080\<rparr>"
  by (subst servicePortKey_identifies) code_simp+

lemma take_trim_cut:
  assumes "n < length s" "n < maxNameLength"
  shows "take n (trim_suffix (cutString s) ''-'') = take n s"
proof (cases "has_suffix (cutString s) ''-''")
  case True
  then obtain t where t: "cutString s = t @ ''-''" unfolding has_suffix_iff by blast
  moreover have "length (cutString s) > n" using assms by (simp add: cutString_take)
  ultimately have "n \<le> length t" by simp
  with t have "take n t = take n (cutString s)" by simp
  also have "\<dots> = take n s" using assms by (simp add: cutString_take min_def)
  finally show ?thesis using t by (simp add: trim_suffix_append)
next
  case False
  with assms show ?thesis by (simp add: trim_suffix_id cutString_take min_def)
qed

text \<open>Services whose UIDs (of 36 characters, as Kubernetes assigns them) differ never share the name
  of their security group: truncation keeps the whole UID.\<close>

theorem security_group_names_distinct:
  assumes "length (svc_UID a) = 36" "length (svc_UID b) = 36" "svc_UID a \<noteq> svc_UID b"
  shows "getSecurityGroupName a \<noteq> getSecurityGroupName b"
proof
  assume eq: "getSecurityGroupName a = getSecurityGroupName b"
  have name: "getSecurityGroupName svc = trim_suffix (cutString (''lb-sg-'' @ svc_UID svc @ ''-'' @
      svc_Namespace svc @ ''-'' @ svc_Name svc)) ''-''" for svc
    by (simp add: getSecurityGroupName_def cutString_def Let_def)
  have "take 42 (getSecurityGroupName svc) = ''lb-sg-'' @ svc_UID svc" if "length (svc_UID svc) = 36" for svc
    unfolding name by (subst take_trim_cut) (simp_all add: maxNameLength_def that)
  from this [OF assms(1)] this [OF assms(2)] have "''lb-sg-'' @ svc_UID a = ''lb-sg-'' @ svc_UID b"
    unfolding eq by simp
  with assms(3) show False by simp
qed

definition example_service :: service where
  "example_service = \<lparr>svc_Namespace = ''default'', svc_Name = ''web'',
     svc_UID = ''0b5e8f2c-7c11-4f8e-9a59-3f5b8f0b6a11'', svc_Annotations = Map.empty,
     svc_Ports = [\<lparr>sp_Name = ''http'', sp_Protocol = ProtocolTCP, sp_Port = 80, sp_NodePort = 30080\<rparr>],
     svc_SessionAffinity = ServiceAffinityNone, svc_LoadBalancerSourceRanges = [],
     svc_HealthCheckNodePort = 0, svc_ExternalTrafficPolicy = ''Cluster'', svc_Ingress = []\<rparr>"

lemma security_group_names_distinct_witness:
  "getSecurityGroupName example_service \<noteq>
   getSecurityGroupName (example_service\<lparr>svc_UID := ''7d1c2a55-0f06-4f2b-8f7e-53a6f9e2f6c4''\<rparr>)"
  by (rule security_group_names_distinct) (simp_all add: example_service_def)

text \<open>C40: the name of a load balancer does not identify its service: with a cluster ID of 36 characters,
  two services whose namespace and name agree in the first 22 characters get the same name.\<close>

theorem load_balancer_names_collide:
  assumes "length clusterID = 36"
    and "take 22 (svc_Namespace a @ ''_'' @ svc_Name a) = take 22 (svc_Namespace b @ ''_'' @ svc_Name b)"
  shows "GetLoadBalancerName clusterID a = GetLoadBalancerName clusterID b"
proof -
  have "cutString (''svc_'' @ clusterID @ ''_'' @ svc_Namespace svc @ ''_'' @ svc_Name svc) =
      ''svc_'' @ clusterID @ ''_'' @ take 22 (svc_Namespace svc @ ''_'' @ svc_Name svc)" for svc
    using assms(1) by (simp add: cutString_take maxNameLength_def)
  then show ?thesis unfolding GetLoadBalancerName_def by (metis assms(2))
qed

lemma load_balancer_names_collide_witness:
  "GetLoadBalancerName ''3f0c6a1e-97f4-4a52-b1d3-6a2f0e4d9c77''
     (example_service\<lparr>svc_Namespace := ''production-payments'', svc_Name := ''api-blue''\<rparr>) =
   GetLoadBalancerName ''3f0c6a1e-97f4-4a52-b1d3-6a2f0e4d9c77''
     (example_service\<lparr>svc_Namespace := ''production-payments'', svc_Name := ''api-green''\<rparr>)"
  by (rule load_balancer_names_collide) (simp_all add: example_service_def)

end
