(* ===== verification/Options.thy ===== *)
theory Options
  imports Naming
begin

text \<open>
  Configuration and annotations: the option structs of \<^verbatim>\<open>edgecenter.go\<close>, the receiver \<^verbatim>\<open>LbaasV2\<close>, the
  annotation readers of \<^verbatim>\<open>loadbalancer_annotations.go\<close>, \<^verbatim>\<open>parseListenerTimeouts\<close>
  (\<^verbatim>\<open>loadbalancer_listeners.go\<close>), \<^verbatim>\<open>ServiceOptions\<close> (\<^verbatim>\<open>loadbalancer.go\<close>) and the secret lookup of
  \<^verbatim>\<open>loadbalancer_secrets.go\<close>. Durations are nanoseconds; a nil map is \<open>None\<close>.
\<close>

section \<open>Configuration\<close>

record lb_class =
  lbcl_FloatingNetworkID :: string
  lbcl_FloatingSubnetID :: string
  lbcl_SubnetID :: string
  lbcl_NetworkID :: string

record lb_opts =
  lbo_LBVersion :: string
  lbo_UseOctavia :: bool
  lbo_SubnetID :: string
  lbo_NetworkID :: string
  lbo_FloatingNetworkID :: string
  lbo_FloatingSubnetID :: string
  lbo_LBClasses :: "(string \<rightharpoonup> lb_class) option"
  lbo_LBMethod :: string
  lbo_LBProvider :: string
  lbo_CreateMonitor :: bool
  lbo_MonitorDelay :: int
  lbo_MonitorTimeout :: int
  lbo_MonitorMaxRetries :: "64 word"
  lbo_ManageSecurityGroups :: bool
  lbo_NodeSecurityGroupIDs :: "string list"
  lbo_InternalLB :: bool

record edgecenter_opts =
  eo_ApiURL :: string
  eo_ProjectID :: int
  eo_RegionID :: int
  eo_ApiToken :: string
  eo_ClusterID :: string
  eo_NoBillingTag :: bool
  eo_Region :: string
  eo_CAFile :: string
  eo_TLSInsecure :: string
  eo_CAFileContents :: string

record 'w lbaas =
  l_client :: "'w client"
  l_opts :: lb_opts
  l_edgecenter :: edgecenter_opts

section \<open>Annotations\<close>

abbreviation AnnotationFloatingNetworkID :: string where
  "AnnotationFloatingNetworkID \<equiv> ''loadbalancer.edgecenter.com/floating-network-id''"
abbreviation AnnotationInternal :: string where
  "AnnotationInternal \<equiv> ''service.beta.kubernetes.io/edgecenter-internal-load-balancer''"
abbreviation AnnotationSaveFloating :: string where
  "AnnotationSaveFloating \<equiv> ''loadbalancer.edgecenter.com/save-floating''"
abbreviation AnnotationClass :: string where
  "AnnotationClass \<equiv> ''loadbalancer.edgecenter.com/class''"
abbreviation AnnotationProxyEnabled :: string where
  "AnnotationProxyEnabled \<equiv> ''loadbalancer.edgecenter.com/proxy-protocol''"
abbreviation AnnotationSubnetID :: string where
  "AnnotationSubnetID \<equiv> ''loadbalancer.edgecenter.com/subnet-id''"
abbreviation AnnotationNetworkID :: string where
  "AnnotationNetworkID \<equiv> ''loadbalancer.edgecenter.com/network-id''"
abbreviation AnnotationTimeoutClientData :: string where
  "AnnotationTimeoutClientData \<equiv> ''loadbalancer.edgecenter.com/timeout-client-data''"
abbreviation AnnotationTimeoutMemberConnect :: string where
  "AnnotationTimeoutMemberConnect \<equiv> ''loadbalancer.edgecenter.com/timeout-member-connect''"
abbreviation AnnotationTimeoutMemberData :: string where
  "AnnotationTimeoutMemberData \<equiv> ''loadbalancer.edgecenter.com/timeout-member-data''"
abbreviation AnnotationXForwardedFor :: string where
  "AnnotationXForwardedFor \<equiv> ''loadbalancer.edgecenter.com/x-forwarded-for''"
abbreviation AnnotationDefaultTLSContainerRef :: string where
  "AnnotationDefaultTLSContainerRef \<equiv> ''loadbalancer.edgecenter.com/default-tls-container-ref''"
abbreviation AnnotationFlavorID :: string where
  "AnnotationFlavorID \<equiv> ''loadbalancer.edgecenter.com/flavor-id''"

definition getStringFromServiceAnnotation :: "service \<Rightarrow> string \<Rightarrow> string \<Rightarrow> string" where
  "getStringFromServiceAnnotation svc annotationKey defaultSetting =
     (case svc_Annotations svc annotationKey of
        Some annotationValue \<Rightarrow> annotationValue
      | None \<Rightarrow> defaultSetting)"

definition getBoolFromServiceAnnotation :: "service \<Rightarrow> string \<Rightarrow> bool \<Rightarrow> bool outcome" where
  "getBoolFromServiceAnnotation svc annotationKey defaultSetting =
     (case svc_Annotations svc annotationKey of
        Some annotationValue \<Rightarrow>
          if annotationValue = ''true'' then Ok True
          else if annotationValue = ''false'' then Ok False
          else Err (Errorf (''unknown '' @ annotationKey @ '' annotation: '' @ annotationValue @
            '', specify '' @ quoted ''true'' @ '' or '' @ quoted ''false'' @ '' ''))
      | None \<Rightarrow> Ok defaultSetting)"

section \<open>Listener timeouts\<close>

record listener_timeouts =
  lt_TimeoutClientData :: "int option"
  lt_TimeoutMemberData :: "int option"
  lt_TimeoutMemberConnect :: "int option"

text \<open>The closure \<^verbatim>\<open>getTimeout\<close> with the wrapping of its callers.\<close>

definition getTimeout :: "service \<Rightarrow> string \<Rightarrow> int option outcome" where
  "getTimeout svc key = (case svc_Annotations svc key of
     None \<Rightarrow> Ok None
   | Some val \<Rightarrow> (case atoi val of
       Ok v \<Rightarrow> Ok (Some v)
     | Err e \<Rightarrow> Err (Wrapf (''parsing '' @ key @ '': '')
         (Wrapf (''invalid value for annotation '' @ quoted key @ '': '') e))
     | Panic p \<Rightarrow> Panic p))"

definition parseListenerTimeouts :: "service \<Rightarrow> listener_timeouts outcome" where
  "parseListenerTimeouts svc = fst (
     bindM (liftM (getTimeout svc AnnotationTimeoutClientData)) (\<lambda>timeoutClientData.
     bindM (liftM (getTimeout svc AnnotationTimeoutMemberData)) (\<lambda>timeoutMemberData.
     bindM (liftM (getTimeout svc AnnotationTimeoutMemberConnect)) (\<lambda>timeoutMemberConnect.
       retM \<lparr>lt_TimeoutClientData = timeoutClientData, lt_TimeoutMemberData = timeoutMemberData,
         lt_TimeoutMemberConnect = timeoutMemberConnect\<rparr>))) ())"

section \<open>Options of a service\<close>

record service_options =
  so_FlavorID :: string
  so_NetworkID :: string
  so_SubnetID :: string
  so_FloatingNetworkID :: string
  so_Internal :: bool
  so_KeepClientIP :: bool
  so_UseProxyProtocol :: bool
  so_SecretID :: string
  so_Timeouts :: "listener_timeouts option"
  so_LBMethod :: string
  so_SessionPersistence :: "string option"
  so_CreateMonitor :: bool
  so_ManageSecurityGroups :: bool
  so_LBClass :: "lb_class option"
  so_NodeSecurityGroupIDs :: "string list"

section \<open>Secrets\<close>

definition techSecretsPath :: "'w lbaas \<Rightarrow> string" where
  "techSecretsPath l = ''/internal'' @ MKaaSClustersBasePathV2 (l_client l) @ ''/'' @
     show_int (eo_ProjectID (l_edgecenter l)) @ ''/'' @ show_int (eo_RegionID (l_edgecenter l)) @ ''/'' @
     eo_ClusterID (l_edgecenter l) @ ''/secrets''"

definition resolveTechSecretID :: "'w lbaas \<Rightarrow> string \<Rightarrow> ('w st, string) prog" where
  "resolveTechSecretID l secretID =
     (case NewRequest_error (l_client l) (techSecretsPath l) secretID of
        Some e \<Rightarrow> failM (Wrapf ''creating tech secret request: '' e)
      | None \<Rightarrow> wrapM (Wrapf ''resolving tech secret: '')
          (call (\<lambda>_. PL (Secret_Post (techSecretsPath l) secretID))
            (api_secret_post (Pools (l_client l)) (techSecretsPath l) secretID)))"

definition getSecretID :: "'w lbaas \<Rightarrow> service \<Rightarrow> ('w st, string) prog" where
  "getSecretID l svc =
     (let clientSecretID = getStringFromServiceAnnotation svc AnnotationDefaultTLSContainerRef [] in
      if clientSecretID = [] then retM []
      else wrapM (Wrapf (''failed to get tech secret for service '' @ svc_Namespace svc @ ''/'' @
          svc_Name svc @ '': ''))
        (resolveTechSecretID l clientSecretID))"

section \<open>Lemmas\<close>

lemma getSecretID_emits:
  "emits calls (getSecretID l svc) (\<lambda>r es.
     list_all (\<lambda>e. \<exists>i. e = PL (Secret_Post (techSecretsPath l) i)) es \<and> length es \<le> 1 \<and>
     (es = [] \<longrightarrow> r = Ok [] \<or> (\<exists>e. r = Err e)))"
  unfolding getSecretID_def resolveTechSecretID_def Let_def by (intro wp) auto

lemma getSecretID_only: "only calls (\<lambda>e. \<exists>p i. e = PL (Secret_Post p i)) (getSecretID l svc)"
  by (rule always_emits [OF getSecretID_emits]) (auto simp: list_all_iff)

lemma getBool_no_panic: "getBoolFromServiceAnnotation svc k d \<noteq> Panic p"
  by (auto simp: getBoolFromServiceAnnotation_def split: option.splits)

lemma getBool_value:
  "getBoolFromServiceAnnotation svc k d = Ok b \<longleftrightarrow>
     (case svc_Annotations svc k of None \<Rightarrow> b = d | Some v \<Rightarrow> v = (if b then ''true'' else ''false''))"
  by (auto simp: getBoolFromServiceAnnotation_def split: option.splits)

lemma atoi_no_panic: "atoi s \<noteq> Panic p"
  by (simp add: atoi_def Let_def split: prod.splits)

lemma getTimeout_Ok:
  "getTimeout svc k = Ok t \<longleftrightarrow>
     (case svc_Annotations svc k of None \<Rightarrow> t = None | Some v \<Rightarrow> \<exists>n. atoi v = Ok n \<and> t = Some n)"
  by (auto simp: getTimeout_def split: option.splits outcome.splits)

lemma parseListenerTimeouts_Ok:
  "parseListenerTimeouts svc = Ok t \<longleftrightarrow>
     getTimeout svc AnnotationTimeoutClientData = Ok (lt_TimeoutClientData t) \<and>
     getTimeout svc AnnotationTimeoutMemberData = Ok (lt_TimeoutMemberData t) \<and>
     getTimeout svc AnnotationTimeoutMemberConnect = Ok (lt_TimeoutMemberConnect t)"
  unfolding parseListenerTimeouts_def
  by (cases t) (auto simp: prog_defs split: outcome.splits)

section \<open>Properties\<close>

text \<open>The timeouts of a listener are read all or none: the result is a struct exactly when each of the
  three annotations is absent or a decimal number in the range of \<^verbatim>\<open>int\<close>, and it holds these numbers.\<close>

theorem listener_timeouts_parsed:
  "parseListenerTimeouts svc = Ok t \<longleftrightarrow>
     (\<forall>(k, field) \<in> {(AnnotationTimeoutClientData, lt_TimeoutClientData t),
        (AnnotationTimeoutMemberData, lt_TimeoutMemberData t),
        (AnnotationTimeoutMemberConnect, lt_TimeoutMemberConnect t)}.
      case svc_Annotations svc k of None \<Rightarrow> field = None | Some v \<Rightarrow> \<exists>n. atoi v = Ok n \<and> field = Some n)"
  unfolding parseListenerTimeouts_Ok getTimeout_Ok by simp

lemma listener_timeouts_parsed_witness:
  "parseListenerTimeouts (example_service\<lparr>svc_Annotations := [AnnotationTimeoutClientData \<mapsto> ''50'']\<rparr>) =
     Ok \<lparr>lt_TimeoutClientData = Some 50, lt_TimeoutMemberData = None, lt_TimeoutMemberConnect = None\<rparr>"
proof -
  have "atoi ''50'' = Ok 50" by code_simp
  then show ?thesis
    by (subst listener_timeouts_parsed) simp
qed

end
