(* ===== verification/SourceRanges.thy ===== *)
theory SourceRanges
  imports Options "HOL-Library.AList"
begin

text \<open>
  Sets of IP networks (\<^verbatim>\<open>internal/util/net/sets/ipnet.go\<close>) and the source ranges of a service
  (\<^verbatim>\<open>internal/api/v1/service/util.go\<close>). The Go map from strings to networks is an association list
  without repeated keys, in the order of one iteration. The locale \<open>keyed_set\<close> is the contract of such
  a set; its laws are discharged for the model of \<^verbatim>\<open>IPNet\<close>, and \<open>GetLoadBalancerSourceRanges\<close> and
  \<open>IsAllowAll\<close> are its clients.
\<close>

section \<open>Sets of networks\<close>

type_synonym ipnet_set = "(string \<times> ipnet) list"

definition Insert :: "ipnet_set \<Rightarrow> ipnet list \<Rightarrow> ipnet_set" where
  "Insert s items = foldl (\<lambda>s item. AList.update (ipnet_string item) item s) s items"

definition Delete :: "ipnet_set \<Rightarrow> ipnet list \<Rightarrow> ipnet_set" where
  "Delete s items = foldl (\<lambda>s item. AList.delete (ipnet_string item) s) s items"

definition Has :: "ipnet_set \<Rightarrow> ipnet \<Rightarrow> bool" where
  "Has s item = (map_of s (ipnet_string item) \<noteq> None)"

fun HasAll :: "ipnet_set \<Rightarrow> ipnet list \<Rightarrow> bool" where
  "HasAll s [] = True"
| "HasAll s (item # items) = (if \<not> Has s item then False else HasAll s items)"

fun Difference :: "ipnet_set \<Rightarrow> ipnet_set \<Rightarrow> ipnet_set" where
  "Difference [] s2 = []"
| "Difference ((k, i) # s) s2 =
     (if map_of s2 k \<noteq> None then Difference s s2 else (k, i) # Difference s s2)"

definition StringSlice :: "ipnet_set \<Rightarrow> string list" where
  "StringSlice s = map fst s"

fun IsSuperset :: "ipnet_set \<Rightarrow> ipnet_set \<Rightarrow> bool" where
  "IsSuperset s [] = True"
| "IsSuperset s ((k, _) # s2) = (if map_of s k = None then False else IsSuperset s s2)"

definition Len :: "ipnet_set \<Rightarrow> nat" where
  "Len s = length s"

definition Equal :: "ipnet_set \<Rightarrow> ipnet_set \<Rightarrow> bool" where
  "Equal s s2 = (length s = length s2 \<and> IsSuperset s s2)"

text \<open>The loop of \<^verbatim>\<open>ParseIPNets\<close> over the remaining specs, with the set built so far.\<close>

fun parse_specs :: "string list \<Rightarrow> ipnet_set \<Rightarrow> ipnet_set outcome" where
  "parse_specs [] ipnetset = Ok ipnetset"
| "parse_specs (spec # specs) ipnetset = (case parse_cidr (trim_space spec) of
     Ok n \<Rightarrow> parse_specs specs (AList.update (ipnet_string n) n ipnetset)
   | Err e \<Rightarrow> Err e
   | Panic p \<Rightarrow> Panic p)"

definition ParseIPNets :: "string list \<Rightarrow> ipnet_set outcome" where
  "ParseIPNets specs = parse_specs specs []"

section \<open>Source ranges of a service\<close>

definition defaultLoadBalancerSourceRanges :: string where
  "defaultLoadBalancerSourceRanges = ''0.0.0.0/0''"

abbreviation AnnotationLoadBalancerSourceRangesKey :: string where
  "AnnotationLoadBalancerSourceRangesKey \<equiv> ''service.beta.kubernetes.io/load-balancer-source-ranges''"

fun any_allow_all :: "string list \<Rightarrow> bool" where
  "any_allow_all [] = False"
| "any_allow_all (s # ss) = (if s = ''0.0.0.0/0'' then True else any_allow_all ss)"

definition IsAllowAll :: "ipnet_set \<Rightarrow> bool" where
  "IsAllowAll ipnets = any_allow_all (StringSlice ipnets)"

definition annotation_ranges :: "service \<Rightarrow> string" where
  "annotation_ranges svc =
     (let val = trim_space (getStringFromServiceAnnotation svc AnnotationLoadBalancerSourceRangesKey [])
      in if val = [] then defaultLoadBalancerSourceRanges else val)"

definition GetLoadBalancerSourceRanges :: "service \<Rightarrow> ipnet_set outcome" where
  "GetLoadBalancerSourceRanges svc =
     (if svc_LoadBalancerSourceRanges svc \<noteq> [] then
        (case ParseIPNets (svc_LoadBalancerSourceRanges svc) of
           Err e \<Rightarrow> Err (Errorf (''service.Spec.LoadBalancerSourceRanges: ['' @
             join '' '' (svc_LoadBalancerSourceRanges svc) @
             ''] is not valid. Expecting a list of IP ranges. For example, 10.0.0.0/24. Error msg: '' @ error_msg e))
         | r \<Rightarrow> r)
      else
        (case ParseIPNets (split CHR '','' (annotation_ranges svc)) of
           Err e \<Rightarrow> Err (Errorf (AnnotationLoadBalancerSourceRangesKey @ '': '' @ annotation_ranges svc @
             '' is not valid. Expecting a comma-separated list of source IP ranges. For example, 10.0.0.0/24,192.168.2.0/24''))
         | r \<Rightarrow> r))"

section \<open>The contract of a keyed set\<close>

text \<open>
  \<open>elems s\<close> are the keys in \<open>s\<close>, \<open>valid\<close> the representation invariant. The client lemmas compare
  sets only by what they contain.
\<close>

locale keyed_set =
  fixes key :: "'a \<Rightarrow> 'k"
    and valid :: "'s \<Rightarrow> bool"
    and elems :: "'s \<Rightarrow> 'k set"
    and empty :: 's
    and insert_all :: "'s \<Rightarrow> 'a list \<Rightarrow> 's"
    and delete_all :: "'s \<Rightarrow> 'a list \<Rightarrow> 's"
    and has :: "'s \<Rightarrow> 'a \<Rightarrow> bool"
    and difference :: "'s \<Rightarrow> 's \<Rightarrow> 's"
    and superset :: "'s \<Rightarrow> 's \<Rightarrow> bool"
    and size_of :: "'s \<Rightarrow> nat"
  assumes valid_empty: "valid empty" "elems empty = {}"
    and valid_insert: "valid s \<Longrightarrow> valid (insert_all s xs)"
    and elems_insert: "valid s \<Longrightarrow> elems (insert_all s xs) = elems s \<union> key ` set xs"
    and valid_delete: "valid s \<Longrightarrow> valid (delete_all s xs)"
    and elems_delete: "valid s \<Longrightarrow> elems (delete_all s xs) = elems s - key ` set xs"
    and has_iff: "has s x \<longleftrightarrow> key x \<in> elems s"
    and valid_difference: "valid s \<Longrightarrow> valid (difference s t)"
    and elems_difference: "elems (difference s t) = elems s - elems t"
    and superset_iff: "superset s t \<longleftrightarrow> elems t \<subseteq> elems s"
    and size_card: "valid s \<Longrightarrow> size_of s = card (elems s)"
    and finite_elems: "finite (elems s)"
begin

lemma has_insert: "valid s \<Longrightarrow> has (insert_all s xs) x \<longleftrightarrow> key x \<in> key ` set xs \<or> has s x"
  by (auto simp: has_iff elems_insert)

lemma has_delete: "valid s \<Longrightarrow> has (delete_all s xs) x \<longleftrightarrow> key x \<notin> key ` set xs \<and> has s x"
  by (auto simp: has_iff elems_delete)

lemma has_difference: "has (difference s t) x \<longleftrightarrow> has s x \<and> \<not> has t x"
  by (auto simp: has_iff elems_difference)

text \<open>The test on sizes and inclusion decides equality of the elements.\<close>

lemma equal_iff:
  assumes "valid s" "valid t"
  shows "size_of s = size_of t \<and> superset s t \<longleftrightarrow> elems s = elems t"
  using assms card_subset_eq [OF finite_elems [of s], of "elems t"] by (auto simp: size_card superset_iff)

lemma superset_difference: "superset t s \<longleftrightarrow> elems (difference s t) = {}"
  by (auto simp: superset_iff elems_difference)

end

section \<open>The model implements the contract\<close>

definition keys_of :: "ipnet_set \<Rightarrow> string set" where
  "keys_of s = fst ` set s"

definition valid_set :: "ipnet_set \<Rightarrow> bool" where
  "valid_set s \<longleftrightarrow> distinct (map fst s) \<and> list_all (\<lambda>(k, i). k = ipnet_string i) s"

lemma valid_update: "valid_set s \<Longrightarrow> valid_set (AList.update (ipnet_string n) n s)"
  by (induction s) (auto simp: valid_set_def dom_update [unfolded dom_def] image_iff update_keys)

lemma keys_update: "keys_of (AList.update k n s) = insert k (keys_of s)"
  by (induction s) (auto simp: keys_of_def)

lemma valid_Insert: "valid_set s \<Longrightarrow> valid_set (Insert s ns)"
  unfolding Insert_def by (induction ns arbitrary: s) (auto intro: valid_update)

lemma keys_Insert: "keys_of (Insert s ns) = keys_of s \<union> ipnet_string ` set ns"
  unfolding Insert_def by (induction ns arbitrary: s) (auto simp: keys_update)

lemma set_delete: "set (AList.delete k s) = {p \<in> set s. fst p \<noteq> k}"
  by (auto simp: AList.delete_eq)

lemma valid_delete1: "valid_set s \<Longrightarrow> valid_set (AList.delete k s)"
  by (auto simp: valid_set_def distinct_delete list_all_iff set_delete)

lemma valid_Delete: "valid_set s \<Longrightarrow> valid_set (Delete s ns)"
  unfolding Delete_def by (induction ns arbitrary: s) (auto intro: valid_delete1)

lemma keys_Delete: "keys_of (Delete s ns) = keys_of s - ipnet_string ` set ns"
  unfolding Delete_def by (induction ns arbitrary: s) (auto simp: keys_of_def set_delete)

lemma map_of_keys: "map_of s k = None \<longleftrightarrow> k \<notin> keys_of s"
  by (simp add: keys_of_def map_of_eq_None_iff)

lemma Difference_filter: "Difference s t = filter (\<lambda>p. fst p \<notin> keys_of t) s"
  by (induction s t rule: Difference.induct) (simp_all add: map_of_keys)

lemma set_Difference: "set (Difference s t) = {p \<in> set s. fst p \<notin> keys_of t}"
  by (simp add: Difference_filter)

lemma valid_Difference: "valid_set s \<Longrightarrow> valid_set (Difference s t)"
  by (auto simp: valid_set_def Difference_filter list_all_iff distinct_map_filter)

lemma IsSuperset_iff: "IsSuperset s t \<longleftrightarrow> keys_of t \<subseteq> keys_of s"
proof -
  have "IsSuperset s t \<longleftrightarrow> list_all (\<lambda>p. fst p \<in> keys_of s) t"
    by (induction s t rule: IsSuperset.induct) (simp_all add: map_of_keys)
  then show ?thesis by (auto simp: list_all_iff keys_of_def [of t])
qed

interpretation ipnets: keyed_set ipnet_string valid_set keys_of "[]" Insert Delete Has Difference IsSuperset Len
proof unfold_locales
  show "Len s = card (keys_of s)" if "valid_set s" for s
    using that distinct_card [of "map fst s"] by (simp add: Len_def keys_of_def valid_set_def)
qed (auto simp: valid_set_def keys_of_def valid_Insert [unfolded valid_set_def] keys_Insert [unfolded keys_of_def]
    valid_Delete [unfolded valid_set_def] keys_Delete [unfolded keys_of_def] Has_def
    map_of_keys [unfolded keys_of_def] valid_Difference [unfolded valid_set_def]
    set_Difference [unfolded keys_of_def] IsSuperset_iff [unfolded keys_of_def])

lemma Equal_iff: "valid_set s \<Longrightarrow> valid_set t \<Longrightarrow> Equal s t \<longleftrightarrow> keys_of s = keys_of t"
  using ipnets.equal_iff [of s t] by (simp add: Equal_def Len_def)

lemma HasAll_iff: "HasAll s items \<longleftrightarrow> list_all (Has s) items"
  by (induction s items rule: HasAll.induct) simp_all

section \<open>Parsing source ranges\<close>

lemma parse_specs_Ok:
  "parse_specs specs s = Ok t \<longleftrightarrow>
    (\<exists>ns. map (\<lambda>spec. parse_cidr (trim_space spec)) specs = map Ok ns \<and> t = Insert s ns)"
proof (induction specs s rule: parse_specs.induct)
  case (1 s)
  then show ?case by (auto simp: Insert_def)
next
  case (2 spec specs s)
  show ?case
  proof (cases "parse_cidr (trim_space spec)")
    case (Ok n)
    have "(\<exists>ns. Ok n # map (\<lambda>spec. parse_cidr (trim_space spec)) specs = map Ok ns \<and> t = Insert s ns) \<longleftrightarrow>
        (\<exists>ns. map (\<lambda>spec. parse_cidr (trim_space spec)) specs = map Ok ns \<and> t = Insert s (n # ns))"
      by (auto simp: Cons_eq_map_conv)
    with 2 Ok show ?thesis by (simp add: Insert_def)
  qed (auto simp: Cons_eq_map_conv)
qed

lemma ParseIPNets_Ok:
  "ParseIPNets specs = Ok s \<Longrightarrow>
    \<exists>ns. map (\<lambda>spec. parse_cidr (trim_space spec)) specs = map Ok ns \<and> valid_set s \<and> keys_of s = ipnet_string ` set ns"
  by (auto simp: ParseIPNets_def parse_specs_Ok ipnets.valid_empty keys_Insert intro!: valid_Insert)

lemma parse_specs_no_panic: "parse_specs specs s \<noteq> Panic p"
  by (induction specs s rule: parse_specs.induct)
    (auto split: outcome.splits simp: parse_cidr_def Let_def split: option.splits prod.splits if_splits)

lemma any_allow_all_iff: "any_allow_all ss \<longleftrightarrow> ''0.0.0.0/0'' \<in> set ss"
  by (induction ss) auto

lemma IsAllowAll_iff: "IsAllowAll s \<longleftrightarrow> ''0.0.0.0/0'' \<in> keys_of s"
  by (auto simp: IsAllowAll_def any_allow_all_iff StringSlice_def keys_of_def)

text \<open>The ranges that are parsed: the field of the specification, else the annotation, else everything.\<close>

definition range_specs :: "service \<Rightarrow> string list" where
  "range_specs svc = (if svc_LoadBalancerSourceRanges svc \<noteq> [] then svc_LoadBalancerSourceRanges svc
     else split CHR '','' (annotation_ranges svc))"

lemma GetLoadBalancerSourceRanges_Ok:
  "GetLoadBalancerSourceRanges svc = Ok s \<longleftrightarrow> ParseIPNets (range_specs svc) = Ok s"
  by (auto simp: GetLoadBalancerSourceRanges_def range_specs_def split: outcome.splits)

lemma map_Ok_eq: "map f xs = map Ok ns \<Longrightarrow> set ns = {n. \<exists>x \<in> set xs. f x = Ok n}"
proof (induction xs arbitrary: ns)
  case Nil
  then show ?case by simp
next
  case (Cons x xs)
  then obtain n ns' where "ns = n # ns'" "f x = Ok n" "map f xs = map Ok ns'" by (auto simp: Cons_eq_map_conv)
  with Cons.IH show ?case by auto
qed

section \<open>Normal forms\<close>

text \<open>The key of a parsed IPv4 network parses to the network itself, so keys are canonical.\<close>

lemma mask_length_cidr: "k \<le> 32 \<Longrightarrow> mask_length (cidr_mask k 32) = Some k"
proof -
  have "\<forall>k \<in> set [0..<33]. mask_length (cidr_mask k 32) = Some k" by code_simp
  then show "k \<le> 32 \<Longrightarrow> ?thesis" by simp
qed

lemma cut_append: "c \<notin> set a \<Longrightarrow> cut c (a @ c # b) = Some (a, b)"
  unfolding cut_def by (subst dropWhile_append2, blast) (subst takeWhile_append2, blast, simp)

lemma map2_and_idem: "length p = length m \<Longrightarrow> map2 (\<lambda>a b. a AND b) (map2 (\<lambda>a b. a AND b) p m) m = map2 (\<lambda>a b. a AND b) p m"
  for p m :: "byte list"
  by (induction p m rule: list_induct2) (simp_all add: and.assoc)

lemma parse_cidr_ipnet_string:
  assumes "length bs = 4" "k \<le> 32"
    and n: "n = \<lparr>net_ip = ip_mask (v4_in_v6_prefix @ bs) (cidr_mask k 32), net_mask = cidr_mask k 32\<rparr>"
  shows "parse_cidr (ipnet_string n) = Ok n"
proof -
  have len: "length (cidr_mask k 32) = 4" by (simp add: cidr_mask_def)
  have ip: "ip_mask (v4_in_v6_prefix @ cs) (cidr_mask k 32) = map2 (\<lambda>a b. a AND b) cs (cidr_mask k 32)"
    if "length cs = 4" for cs
    using that len by (simp add: ip_mask_def v4_in_v6_prefix_def)
  define p where "p = map2 (\<lambda>a b. a AND b) bs (cidr_mask k 32)"
  have p: "length p = 4" "net_ip n = p" using assms(1) len by (simp_all add: p_def n ip)
  then have "p \<noteq> []" by auto
  then have str: "ipnet_string n = show_ipv4 p @ CHR ''/'' # show_nat k"
    using p len mask_length_cidr [OF assms(2)]
    by (simp add: ipnet_string_def to4_def ip_string_def n Let_def)
  have slash: "CHR ''/'' \<notin> set (show_ipv4 p)"
    using set_show_ipv4 [OF p(1), of "CHR ''/''"] by (auto simp: is_digit_def)
  have "ip_mask (v4_in_v6_prefix @ p) (cidr_mask k 32) = p"
    using p(1) map2_and_idem [of bs "cidr_mask k 32"] assms(1) len by (simp add: ip p_def)
  then show ?thesis
    unfolding str parse_cidr_def cut_append [OF slash]
    using assms(2) p by (simp add: parse_addr_show_ipv4 [OF p(1)] show_nat_digits n Let_def)
qed

section \<open>Properties\<close>

lemma parse_addr_V4: "parse_addr a = Some (V4 bs) \<Longrightarrow> length bs = 4"
  by (auto simp: parse_addr_def length_parse_ipv4 split: if_splits list.splits)

text \<open>The text under which a parsed IPv4 network is stored in a set parses to that network again, so
  each network has one key, however its range was written.\<close>

theorem ipv4_network_key_canonical:
  assumes "parse_cidr spec = Ok n" "length (net_mask n) = 4"
  shows "parse_cidr (ipnet_string n) = Ok n"
proof -
  from assms(1) obtain a m q where q: "parse_addr a = Some q" "digits_value m \<le> bit_len q"
    and n: "n = \<lparr>net_ip = ip_mask (as16 q) (cidr_mask (digits_value m) (bit_len q)),
      net_mask = cidr_mask (digits_value m) (bit_len q)\<rparr>"
    by (auto simp: parse_cidr_def Let_def split: option.splits prod.splits if_splits)
      (metis not_less)
  have "length (cidr_mask (digits_value m) 128) = 16" by (simp add: cidr_mask_def)
  with assms(2) n obtain bs where "q = V4 bs" by (cases q) auto
  with q n show ?thesis by (intro parse_cidr_ipnet_string [of bs "digits_value m"]) (auto dest: parse_addr_V4)
qed

lemma ipv4_network_key_canonical_witness:
  "parse_cidr (ipnet_string \<lparr>net_ip = [10, 1, 0, 0], net_mask = [255, 255, 0, 0]\<rparr>) =
     Ok \<lparr>net_ip = [10, 1, 0, 0], net_mask = [255, 255, 0, 0]\<rparr>"
proof -
  have "parse_cidr ''10.1.2.3/16'' = Ok \<lparr>net_ip = [10, 1, 0, 0], net_mask = [255, 255, 0, 0]\<rparr>" by code_simp
  then show ?thesis by (rule ipv4_network_key_canonical) simp
qed



text \<open>C35: the source ranges of a service are its field, or else its annotation, or else everything: the
  result holds exactly the parsed networks of those texts, and the service is open to all exactly when
  one of them is the whole IPv4 space.\<close>

theorem source_ranges_resolved:
  assumes "GetLoadBalancerSourceRanges svc = Ok s"
  shows "\<exists>ns. map (\<lambda>spec. parse_cidr (trim_space spec)) (range_specs svc) = map Ok ns \<and> valid_set s \<and>
    keys_of s = ipnet_string ` set ns \<and> (IsAllowAll s \<longleftrightarrow> (\<exists>n \<in> set ns. ipnet_string n = ''0.0.0.0/0''))"
proof -
  obtain ns where "map (\<lambda>spec. parse_cidr (trim_space spec)) (range_specs svc) = map Ok ns" "valid_set s"
      "keys_of s = ipnet_string ` set ns"
    using assms ParseIPNets_Ok unfolding GetLoadBalancerSourceRanges_Ok by blast
  then show ?thesis by (intro exI [of _ ns]) (simp add: IsAllowAll_iff image_iff, metis)
qed

lemma source_ranges_resolved_witness:
  "\<exists>s. GetLoadBalancerSourceRanges example_service = Ok s \<and> IsAllowAll s"
proof -
  have g: "GetLoadBalancerSourceRanges example_service =
      Ok [(''0.0.0.0/0'', \<lparr>net_ip = [0, 0, 0, 0], net_mask = [0, 0, 0, 0]\<rparr>)]"
    unfolding example_service_def by code_simp
  have "parse_cidr (trim_space ''0.0.0.0/0'') = Ok \<lparr>net_ip = [0, 0, 0, 0], net_mask = [0, 0, 0, 0]\<rparr>"
      "range_specs example_service = [''0.0.0.0/0'']"
      "ipnet_string \<lparr>net_ip = [0, 0, 0, 0], net_mask = [0, 0, 0, 0]\<rparr> = ''0.0.0.0/0''"
    unfolding example_service_def by code_simp+
  with g source_ranges_resolved [OF g] show ?thesis by (auto simp: Cons_eq_map_conv)
qed

end
