(* ===== verification/Polling.thy ===== *)
theory Polling
  imports Cloud
begin

text \<open>
  Polling with \<^verbatim>\<open>k8s.io/apimachinery/pkg/util/wait\<close>, which is outside the repository. What the
  sources rely on is its documented behaviour: the condition is checked at most \<^verbatim>\<open>Steps\<close> times, with
  sleeps in between; the driver returns as soon as a check answers true or fails, and with an error
  when it stops for another reason. \<open>polling\<close> states this for a driver; \<open>exact_polling\<close> adds that
  all \<^verbatim>\<open>Steps\<close> checks are made before \<^verbatim>\<open>ErrWaitTimeout\<close> is returned, which holds for the driver
  without a context. \<open>poll\<close> is the loop itself, and the instance that shows that the contract can be met.

  A polling closure of the sources assigns variables of the enclosing function; it runs on pairs of
  the state and these \<open>captured\<close> variables. \<open>run_closure\<close> starts them at their zero values and hands
  both the error and the variables to the code behind the loop.
\<close>

section \<open>The loop\<close>

fun poll :: "nat \<Rightarrow> error \<Rightarrow> ('s, bool) prog \<Rightarrow> ('s, unit) prog" where
  "poll 0 e c s = (Err e, s)"
| "poll (Suc n) e c s = (case c s of
     (Ok True, s') \<Rightarrow> (Ok (), s')
   | (Ok False, s') \<Rightarrow> poll n e c s'
   | (Err x, s') \<Rightarrow> (Err x, s')
   | (Panic p, s') \<Rightarrow> (Panic p, s'))"

abbreviation wait_timeout :: error where
  "wait_timeout \<equiv> Lib ErrWaitTimeout ''timed out waiting for the condition''"

text \<open>The calls of a loop: those of the checks that answered false, then those of the last check.\<close>

definition polled :: "nat \<Rightarrow> (bool outcome \<Rightarrow> 'e list \<Rightarrow> bool) \<Rightarrow> unit outcome \<Rightarrow> 'e list \<Rightarrow> bool" where
  "polled n Q r es \<longleftrightarrow> (\<exists>ess x. es = concat ess @ x \<and> list_all (Q (Ok False)) ess \<and> length ess \<le> n \<and>
     (case r of
        Ok _ \<Rightarrow> length ess < n \<and> Q (Ok True) x
      | Err e \<Rightarrow> x = [] \<or> (length ess < n \<and> Q (Err e) x)
      | Panic p \<Rightarrow> length ess < n \<and> Q (Panic p) x))"

lemma polled_Nil: "polled n Q (Err e) []"
  unfolding polled_def by (rule exI [where x = "[]"], rule exI [where x = "[]"]) simp

lemma polled_last:
  "Q r es \<Longrightarrow> r \<noteq> Ok False \<Longrightarrow>
    polled (Suc n) Q (case r of Ok _ \<Rightarrow> Ok () | Err e \<Rightarrow> Err e | Panic p \<Rightarrow> Panic p) es"
  unfolding polled_def
  by (rule exI [where x = "[]"], rule exI [where x = es]) (cases r; auto)

lemma polled_Cons:
  assumes "Q (Ok False) es" "polled n Q r es'"
  shows "polled (Suc n) Q r (es @ es')"
proof -
  from assms(2) obtain ess x where "es' = concat ess @ x" "list_all (Q (Ok False)) ess" "length ess \<le> n"
    "case r of Ok _ \<Rightarrow> length ess < n \<and> Q (Ok True) x
      | Err e \<Rightarrow> x = [] \<or> (length ess < n \<and> Q (Err e) x)
      | Panic p \<Rightarrow> length ess < n \<and> Q (Panic p) x"
    unfolding polled_def by blast
  with assms(1) show ?thesis
    unfolding polled_def
    by (intro exI [where x = "es # ess"] exI [where x = x]) (auto split: outcome.splits)
qed

lemma polled_mono: "polled n Q r es \<Longrightarrow> n \<le> m \<Longrightarrow> polled m Q r es"
  unfolding polled_def by (elim exE, rule exI, rule exI) (auto split: outcome.splits)

lemma polled_weaken:
  assumes "polled n Q r es" "\<And>r es. Q r es \<Longrightarrow> Q' r es"
  shows "polled n Q' r es"
proof -
  from assms(1) obtain ess x where es: "es = concat ess @ x" "list_all (Q (Ok False)) ess" "length ess \<le> n"
    and x: "case r of Ok _ \<Rightarrow> length ess < n \<and> Q (Ok True) x
      | Err e \<Rightarrow> x = [] \<or> (length ess < n \<and> Q (Err e) x)
      | Panic p \<Rightarrow> length ess < n \<and> Q (Panic p) x"
    unfolding polled_def by blast
  have "list_all (Q' (Ok False)) ess"
    using es(2) assms(2) by (auto simp: list_all_iff)
  moreover have "case r of Ok _ \<Rightarrow> length ess < n \<and> Q' (Ok True) x
      | Err e \<Rightarrow> x = [] \<or> (length ess < n \<and> Q' (Err e) x)
      | Panic p \<Rightarrow> length ess < n \<and> Q' (Panic p) x"
    using x assms(2) by (cases r) auto
  ultimately show ?thesis using es unfolding polled_def by blast
qed

lemma polled_always:
  assumes "polled n (\<lambda>_. R) r es" "R []" "\<And>xs ys. R xs \<Longrightarrow> R ys \<Longrightarrow> R (xs @ ys)"
  shows "R es"
proof -
  from assms(1) obtain ess x where es: "es = concat ess @ x" "list_all R ess"
    and x: "case r of Ok _ \<Rightarrow> length ess < n \<and> R x
      | Err e \<Rightarrow> x = [] \<or> (length ess < n \<and> R x)
      | Panic p \<Rightarrow> length ess < n \<and> R x"
    unfolding polled_def by blast
  from x assms(2) have "R x" by (cases r) auto
  moreover have "R (concat ess)"
    using es(2) by (induction ess) (simp_all add: assms(2,3))
  ultimately show ?thesis using es(1) assms(3) by blast
qed

lemma emits_poll:
  assumes "emits tr c Q"
  shows "emits tr (poll n e c) (polled n Q)"
proof (induction n)
  case 0
  show ?case by (rule emitsI) (simp add: polled_Nil)
next
  case (Suc n)
  show ?case
  proof (rule emitsI)
    fix s
    obtain r s' where cs: "c s = (r, s')" by fastforce
    from assms cs obtain es where es: "tr s' = tr s @ es" "Q r es" by (rule emitsE)
    show "\<exists>es. tr (snd (poll (Suc n) e c s)) = tr s @ es \<and> polled (Suc n) Q (fst (poll (Suc n) e c s)) es"
    proof (cases "r = Ok False")
      case True
      obtain r2 s2 where p: "poll n e c s' = (r2, s2)" by fastforce
      with Suc obtain es2 where "tr s2 = tr s' @ es2" "polled n Q r2 es2" by (rule emitsE)
      with es cs True p show ?thesis by (auto intro: polled_Cons)
    next
      case False
      with es(2) have "polled (Suc n) Q (case r of Ok _ \<Rightarrow> Ok () | Err e \<Rightarrow> Err e | Panic p \<Rightarrow> Panic p) es"
        by (rule polled_last)
      with es cs False show ?thesis by (cases r) (auto split: bool.splits)
    qed
  qed
qed

lemma poll_ok: "poll n e c s = (Ok (), s') \<Longrightarrow> \<exists>s1. c s1 = (Ok True, s')"
  by (induction n arbitrary: s) (auto split: prod.splits outcome.splits bool.splits)

lemma poll_reaches:
  assumes "\<And>k. k < n \<Longrightarrow> c (s k) = (Ok False, s (Suc k))" "c (s n) = (Ok True, s')" "n < N"
  shows "poll N e c (s 0) = (Ok (), s')"
  using assms
proof (induction n arbitrary: s N)
  case 0
  then show ?case by (cases N) simp_all
next
  case (Suc n)
  then obtain M where N: "N = Suc M" "n < M" by (cases N) auto
  have "poll M e c (s (Suc 0)) = (Ok (), s')"
    by (rule Suc.IH [where s = "\<lambda>k. s (Suc k)"]) (use Suc.prems N in auto)
  with N Suc.prems(1) [of 0] show ?case by simp
qed

lemma poll_inv: "(\<And>s. I s \<Longrightarrow> I (snd (c s))) \<Longrightarrow> I s \<Longrightarrow> I (snd (poll n e c s))"
proof (induction n arbitrary: s)
  case 0
  then show ?case by simp
next
  case (Suc n)
  obtain r s' where cs: "c s = (r, s')" by fastforce
  with Suc.prems have "I s'" by (metis snd_conv)
  with Suc cs show ?case by (auto split: outcome.splits bool.splits)
qed

section \<open>The contract of a driver\<close>

locale polling =
  fixes drive :: "backoff \<Rightarrow> ('s, bool) prog \<Rightarrow> ('s, unit) prog"
  assumes drive_polls: "\<exists>n e. n \<le> bo_Steps b \<and> drive b c s = poll n e c s"
begin

lemma drive_emits:
  assumes "emits tr c Q"
  shows "emits tr (drive b c) (polled (bo_Steps b) Q)"
proof (rule emitsI)
  fix s
  obtain n e where n: "n \<le> bo_Steps b" "drive b c s = poll n e c s" using drive_polls by blast
  have "emits tr (poll n e c) (polled n Q)" using assms by (rule emits_poll)
  then obtain es where "tr (snd (poll n e c s)) = tr s @ es" "polled n Q (fst (poll n e c s)) es"
    unfolding emits_def by blast
  with n show "\<exists>es. tr (snd (drive b c s)) = tr s @ es \<and> polled (bo_Steps b) Q (fst (drive b c s)) es"
    by (auto intro: polled_mono)
qed

lemma drive_always:
  assumes "trace_property R" "always tr R c"
  shows "always tr R (drive b c)"
proof -
  have "emits tr (drive b c) (polled (bo_Steps b) (\<lambda>_. R))"
    using assms(2) unfolding always_def by (rule drive_emits)
  then show ?thesis
    by (rule always_emits) (erule polled_always, rule trace_property.R_Nil [OF assms(1)],
      rule trace_property.R_append [OF assms(1)])
qed

lemma drive_ok: "drive b c s = (Ok (), s') \<Longrightarrow> \<exists>s1. c s1 = (Ok True, s')"
  using drive_polls [of b c s] poll_ok by metis

lemma drive_inv: "(\<And>s. I s \<Longrightarrow> I (snd (c s))) \<Longrightarrow> I s \<Longrightarrow> I (snd (drive b c s))"
  using drive_polls [of b c s] poll_inv by metis

end

locale exact_polling =
  fixes drive :: "backoff \<Rightarrow> ('s, bool) prog \<Rightarrow> ('s, unit) prog"
  assumes drive_exact: "drive b c s = poll (bo_Steps b) wait_timeout c s"

sublocale exact_polling \<subseteq> polling drive
  by unfold_locales (use drive_exact in blast)

definition poll_driver :: "backoff \<Rightarrow> ('s, bool) prog \<Rightarrow> ('s, unit) prog" where
  "poll_driver b = poll (bo_Steps b) wait_timeout"

interpretation poll_driver: exact_polling poll_driver
  by unfold_locales (simp add: poll_driver_def)

lemma run_poll [run]:
  "poll_driver b c s = poll (bo_Steps b) wait_timeout c s"
  "poll (numeral n) e c s = (case c s of
     (Ok True, s') \<Rightarrow> (Ok (), s')
   | (Ok False, s') \<Rightarrow> poll (pred_numeral n) e c s'
   | (Err x, s') \<Rightarrow> (Err x, s')
   | (Panic p, s') \<Rightarrow> (Panic p, s'))"
  by (simp_all add: poll_driver_def numeral_eq_Suc)

section \<open>Closures\<close>

definition lift_st :: "('w st, 'a) prog \<Rightarrow> ('w st \<times> captured, 'a) prog" where
  "lift_st m = (\<lambda>(s, v). case m s of (r, s') \<Rightarrow> (r, (s', v)))"

definition assign :: "(captured \<Rightarrow> captured) \<Rightarrow> ('w st \<times> captured, unit) prog" where
  "assign f = (\<lambda>(s, v). (Ok (), (s, f v)))"

definition run_closure :: "('w st \<times> captured, unit) prog \<Rightarrow> ('w st, error option \<times> captured) prog" where
  "run_closure m s = (case m (s, no_vars) of
     (Ok _, (s', v)) \<Rightarrow> (Ok (None, v), s')
   | (Err e, (s', v)) \<Rightarrow> (Ok (Some e, v), s')
   | (Panic p, (s', v)) \<Rightarrow> (Panic p, s'))"

abbreviation closure_calls :: "'w st \<times> captured \<Rightarrow> api_call list" where
  "closure_calls \<equiv> calls \<circ> fst"

lemma emits_lift_st [wp]: "emits calls m Q \<Longrightarrow> emits closure_calls (lift_st m) Q"
  by (auto simp: emits_def lift_st_def split: prod.splits) (metis fst_conv snd_conv)

lemma emits_assign [wp]: "Q (Ok ()) [] \<Longrightarrow> emits closure_calls (assign f) Q"
  by (auto simp: emits_def assign_def)

lemma always_lift_st [emits_intros]: "always calls R m \<Longrightarrow> always closure_calls R (lift_st m)"
  unfolding always_def by (rule emits_lift_st)

lemma always_assign [emits_intros]: "R [] \<Longrightarrow> always closure_calls R (assign f)"
  unfolding always_def by (rule emits_assign)

lemma emits_run_closure:
  assumes "emits closure_calls m Q"
    and "\<And>v es. Q (Ok ()) es \<Longrightarrow> Q' (Ok (None, v)) es"
    and "\<And>e v es. Q (Err e) es \<Longrightarrow> Q' (Ok (Some e, v)) es"
    and "\<And>p es. Q (Panic p) es \<Longrightarrow> Q' (Panic p) es"
  shows "emits calls (run_closure m) Q'"
proof (rule emitsI)
  fix s
  obtain r s' v where m: "m (s, no_vars) = (r, (s', v))" by (metis prod.exhaust)
  from assms(1) m obtain es where "closure_calls (s', v) = closure_calls (s, no_vars) @ es" "Q r es"
    by (rule emitsE)
  with m assms(2-4) show "\<exists>es. calls (snd (run_closure m s)) = calls s @ es \<and> Q' (fst (run_closure m s)) es"
    by (cases r) (auto simp: run_closure_def)
qed

lemma wp_run_closure [wp]:
  "emits closure_calls m (\<lambda>r es. case r of
      Ok _ \<Rightarrow> \<forall>v. Q (Ok (None, v)) es
    | Err e \<Rightarrow> \<forall>v. Q (Ok (Some e, v)) es
    | Panic p \<Rightarrow> Q (Panic p) es) \<Longrightarrow> emits calls (run_closure m) Q"
  by (erule emits_run_closure) auto

lemma always_run_closure [emits_intros]: "always closure_calls R m \<Longrightarrow> always calls R (run_closure m)"
  unfolding always_def by (erule emits_run_closure) auto

section \<open>A cloud without resources\<close>

text \<open>
  The client of an account in which nothing exists: every request is answered with an API error and
  the state does not change. Concrete runs start from it and replace the calls they need.
\<close>

definition not_found :: "('w, 'a) ext" where
  "not_found w = (Err (Api ''404''), w)"

definition idle_client :: "'w client" where
  "idle_client = \<lparr>
     Loadbalancers = \<lparr>api_lb_list = not_found, api_lb_get = (\<lambda>_. not_found), api_lb_create = (\<lambda>_. not_found),
       api_lb_delete = (\<lambda>_. not_found), api_lb_exists = (\<lambda>_. not_found), api_listener_list = (\<lambda>_. not_found),
       api_listener_get = (\<lambda>_. not_found), api_listener_create = (\<lambda>_. not_found),
       api_listener_update = (\<lambda>_ _. not_found), api_listener_delete = (\<lambda>_. not_found),
       api_listener_exists = (\<lambda>_. not_found)\<rparr>,
     Pools = \<lparr>api_pool_list = (\<lambda>_. not_found), api_pool_get = (\<lambda>_. not_found),
       api_pool_create = (\<lambda>_. not_found), api_pool_update = (\<lambda>_ _. not_found),
       api_pool_delete = (\<lambda>_. not_found), api_pool_exists = (\<lambda>_. not_found),
       api_member_create = (\<lambda>_ _. not_found), api_member_delete = (\<lambda>_ _. not_found),
       api_task_wait = (\<lambda>_. not_found), api_secret_post = (\<lambda>_ _. not_found)\<rparr>,
     Networks = \<lparr>api_networks_list = not_found, api_subnet_get = (\<lambda>_. not_found), api_fip_list = not_found,
       api_fip_by_port = (\<lambda>_. not_found), api_fip_get = (\<lambda>_. not_found), api_fip_create = (\<lambda>_. not_found),
       api_fip_assign = (\<lambda>_ _. not_found), api_fip_delete = (\<lambda>_. not_found), api_sg_list = not_found,
       api_sg_get = (\<lambda>_. not_found), api_sg_create = (\<lambda>_ _. not_found), api_sg_delete = (\<lambda>_. not_found),
       api_rule_create = (\<lambda>_ _. not_found)\<rparr>,
     Instances = \<lparr>api_inst_get = (\<lambda>_. not_found), api_inst_list = (\<lambda>_. not_found),
       api_inst_exists = (\<lambda>_. not_found), api_inst_interfaces = (\<lambda>_. not_found),
       api_inst_sg_list = (\<lambda>_. not_found), api_inst_by_sg = (\<lambda>_. not_found),
       api_inst_sg_assign = (\<lambda>_ _. not_found), api_inst_sg_unassign = (\<lambda>_ _. not_found)\<rparr>,
     Volumes = \<lparr>api_vol_get = (\<lambda>_. not_found), api_vol_create = (\<lambda>_. not_found),
       api_vol_delete = (\<lambda>_. not_found), api_vol_extend = (\<lambda>_ _. not_found),
       api_vol_attach = (\<lambda>_ _. not_found), api_vol_detach = (\<lambda>_ _. not_found)\<rparr>,
     ExponentialBackoff = poll_driver,
     ExponentialBackoffWithContext = poll_driver,
     SecurityGroupRuleProtocol_IsValid = (\<lambda>p. p \<in> {''tcp'', ''udp'', ''icmp'', ''any''}),
     VolumeType_IsValid = (\<lambda>t. t \<in> {''standard'', ''ssd_hiiops''}),
     DefaultLoadBalancerName = (\<lambda>svc. CHR ''a'' # remove_char CHR ''-'' (svc_UID svc)),
     Sprint_member_request = (\<lambda>_. ''&{member}''),
     Sprint_fip_request = (\<lambda>portID. ''&{PortID:'' @ portID @ ''}''),
     Sprint_sg_request = (\<lambda>name _. ''&{Name:'' @ name @ ''}''),
     Sprint_volume_request = (\<lambda>req. ''&{'' @ vc_Name req @ ''}''),
     Sprint_volume = (\<lambda>v. ''&{'' @ cv_ID v @ ''}''),
     NewRequest_error = (\<lambda>_ _. None),
     MKaaSClustersBasePathV2 = ''/v2/mkaas/clusters''\<rparr>"

lemma idle_client_polling [simp]:
  "polling (ExponentialBackoff idle_client)" "polling (ExponentialBackoffWithContext idle_client)"
  "exact_polling (ExponentialBackoffWithContext idle_client)"
  by (simp_all add: idle_client_def poll_driver.polling_axioms poll_driver.exact_polling_axioms)

text \<open>A state with no calls made yet, and an answer that does not change the cloud.\<close>

definition start :: "'w \<Rightarrow> 'w st" where
  "start w = \<lparr>world = w, calls = []\<rparr>"

definition answer :: "'a outcome \<Rightarrow> ('w, 'a) ext" where
  "answer r w = (r, w)"

end
