(* ===== verification/Retry.thy ===== *)
theory Retry
  imports Polling Naming
begin

text \<open>
  Waiting for the load balancer and retrying mutations: \<^verbatim>\<open>waitLoadbalancerActiveProvisioningStatus\<close>
  and \<^verbatim>\<open>waitLoadbalancerDeleted\<close> (\<^verbatim>\<open>loadbalancer.go\<close>), \<^verbatim>\<open>runLBOperationWithRetry\<close>
  (\<^verbatim>\<open>loadbalancer_utils.go\<close>), each with the closure it polls. A closure's captured variables are those
  of \<open>captured\<close>. The lemmas bound the calls, say what a successful wait has observed, and describe
  the rounds of a retried operation; \<open>guarded\<close> is the resulting safety property of a trace: certain
  mutations happen only right after the load balancer was seen ACTIVE.
\<close>

section \<open>Definitions\<close>

definition active_backoff :: backoff where
  "active_backoff = \<lparr>bo_Duration = 1000, bo_Factor = 12, bo_Steps = 19\<rparr>"

definition delete_backoff :: backoff where
  "delete_backoff = \<lparr>bo_Duration = 1000, bo_Factor = 12, bo_Steps = 13\<rparr>"

definition retry_backoff :: backoff where
  "retry_backoff = \<lparr>bo_Duration = 2000, bo_Factor = 15, bo_Steps = 6\<rparr>"

definition lb_get :: "'w client \<Rightarrow> string \<Rightarrow> ('w st, loadbalancer) prog" where
  "lb_get c lbID = call (\<lambda>r. LB (Loadbalancers_Get lbID r)) (api_lb_get (Loadbalancers c) lbID)"

definition wait_active_cond :: "'w client \<Rightarrow> string \<Rightarrow> ('w st \<times> captured, bool) prog" where
  "wait_active_cond c lbID =
     bindM (lift_st (lb_get c lbID)) (\<lambda>lb.
     bindM (assign (\<lambda>v. v\<lparr>v_provisioningStatus := lb_ProvisioningStatus lb\<rparr>)) (\<lambda>_.
       if lb_ProvisioningStatus lb = ProvisioningStatusActive then retM True
       else if lb_ProvisioningStatus lb = ProvisioningStatusError
       then failM (Errorf ''loadbalancer has gone into ERROR state'')
       else retM False))"

text \<open>The pair of the last observed status and the error.\<close>

definition waitLoadbalancerActiveProvisioningStatus ::
    "'w client \<Rightarrow> string \<Rightarrow> ('w st, string \<times> error option) prog" where
  "waitLoadbalancerActiveProvisioningStatus c lbID =
     bindM (run_closure (ExponentialBackoff c active_backoff (wait_active_cond c lbID))) (\<lambda>(err, v).
       retM (v_provisioningStatus v,
         (case err of None \<Rightarrow> None
          | Some e \<Rightarrow> Some (if errors_Is_lib e ErrWaitTimeout
              then Errorf ''loadbalancer failed to go into ACTIVE provisioning status within allotted time''
              else e))))"

text \<open>The callers that drop the status: \<^verbatim>\<open>if _, err := wait...(...); err != nil\<close>.\<close>

definition wait_active :: "'w client \<Rightarrow> string \<Rightarrow> ('w st, unit) prog" where
  "wait_active c lbID = bindM (waitLoadbalancerActiveProvisioningStatus c lbID) (\<lambda>(_, err).
     case err of None \<Rightarrow> retM () | Some e \<Rightarrow> failM e)"

definition lb_exists :: "'w client \<Rightarrow> string \<Rightarrow> ('w st, bool) prog" where
  "lb_exists c lbID = call (\<lambda>r. LB (Loadbalancers_Exists lbID r)) (api_lb_exists (Loadbalancers c) lbID)"

definition waitLoadbalancerDeleted :: "'w client \<Rightarrow> string \<Rightarrow> ('w st, unit) prog" where
  "waitLoadbalancerDeleted c lbID =
     bindM (run_closure (ExponentialBackoff c delete_backoff
       (bindM (lift_st (lb_exists c lbID)) (\<lambda>isExist. retM (\<not> isExist))))) (\<lambda>(err, _).
       case err of None \<Rightarrow> retM ()
       | Some e \<Rightarrow> failM (if errors_Is_lib e ErrWaitTimeout
           then Errorf ''loadbalancer failed to delete within the allotted time'' else e))"

definition set_lastErr :: "error \<Rightarrow> ('w st \<times> captured, bool) prog" where
  "set_lastErr e = bindM (assign (\<lambda>v. v\<lparr>v_lastErr := Some e\<rparr>)) (\<lambda>_. retM False)"

definition retry_cond ::
    "'w client \<Rightarrow> string \<Rightarrow> string \<Rightarrow> string \<Rightarrow> ('w st, unit) prog \<Rightarrow> ('w st \<times> captured, bool) prog" where
  "retry_cond c lbID opName resourceID op =
     tryM (lift_st (wait_active c lbID))
       (\<lambda>e. set_lastErr (Wrapf (''LB not ACTIVE before '' @ opName @ '' for '' @ resourceID @ '': '') e))
       (\<lambda>_. tryM (lift_st op)
         (\<lambda>e. if isLoadBalancerImmutableError (Some e) then set_lastErr e else failM e)
         (\<lambda>_. tryM (lift_st (wait_active c lbID))
           (\<lambda>e. set_lastErr (Wrapf (''LB not ACTIVE after '' @ opName @ '' for '' @ resourceID @ '': '') e))
           (\<lambda>_. retM True)))"

definition runLBOperationWithRetry ::
    "'w client \<Rightarrow> string \<Rightarrow> string \<Rightarrow> string \<Rightarrow> ('w st, unit) prog \<Rightarrow> ('w st, unit) prog" where
  "runLBOperationWithRetry c lbID opName resourceID op =
     bindM (run_closure (ExponentialBackoffWithContext c retry_backoff
       (retry_cond c lbID opName resourceID op))) (\<lambda>(err, v).
       case err of None \<Rightarrow> retM ()
       | Some e \<Rightarrow> (case v_lastErr v of Some lastErr \<Rightarrow> failM lastErr | None \<Rightarrow> failM e))"

section \<open>Observations of the load balancer\<close>

fun is_get :: "string \<Rightarrow> api_call \<Rightarrow> bool" where
  "is_get i (LB (Loadbalancers_Get j _)) = (i = j)"
| "is_get i _ = False"

fun saw_active :: "string \<Rightarrow> api_call \<Rightarrow> bool" where
  "saw_active i (LB (Loadbalancers_Get j (Ok lb))) =
     (i = j \<and> lb_ProvisioningStatus lb = ProvisioningStatusActive)"
| "saw_active i _ = False"

text \<open>The calls of one wait: status reads, ending in ACTIVE when it succeeds.\<close>

definition active_wait :: "string \<Rightarrow> 'a outcome \<Rightarrow> api_call list \<Rightarrow> bool" where
  "active_wait lbID r es \<longleftrightarrow> list_all (is_get lbID) es \<and> length es \<le> 19 \<and>
     ((\<exists>x. r = Ok x) \<longrightarrow> es \<noteq> [] \<and> saw_active lbID (last es))"

lemma wait_active_cond_emits:
  "emits closure_calls (wait_active_cond c lbID)
     (\<lambda>r es. length es = 1 \<and> list_all (is_get lbID) es \<and> (r = Ok True \<longrightarrow> saw_active lbID (last es)))"
  unfolding wait_active_cond_def lb_get_def
  by (intro wp) auto

lemma active_wait_polled:
  assumes "polled 19 (\<lambda>r es. length es = 1 \<and> list_all (is_get lbID) es \<and> (r = Ok True \<longrightarrow> saw_active lbID (last es))) r es"
  shows "active_wait lbID r es"
proof -
  let ?Q = "\<lambda>(r :: bool outcome) es. length es = 1 \<and> list_all (is_get lbID) es \<and> (r = Ok True \<longrightarrow> saw_active lbID (last es))"
  from assms obtain ess x where es: "es = concat ess @ x" "list_all (?Q (Ok False)) ess" "length ess \<le> 19"
    and x: "case r of Ok _ \<Rightarrow> length ess < 19 \<and> ?Q (Ok True) x
      | Err e \<Rightarrow> x = [] \<or> (length ess < 19 \<and> ?Q (Err e) x)
      | Panic p \<Rightarrow> length ess < 19 \<and> ?Q (Panic p) x"
    unfolding polled_def by blast
  have "list_all (is_get lbID) (concat ess) \<and> length (concat ess) = length ess"
    using es(2) by (induction ess) auto
  with es x show ?thesis
    by (cases r) (auto simp: active_wait_def last_append)
qed

lemma wait_active_polled:
  assumes "polling (ExponentialBackoff c)"
  shows "emits closure_calls (ExponentialBackoff c active_backoff (wait_active_cond c lbID)) (active_wait lbID)"
proof -
  have "emits closure_calls (ExponentialBackoff c active_backoff (wait_active_cond c lbID))
      (polled (bo_Steps active_backoff)
        (\<lambda>r es. length es = 1 \<and> list_all (is_get lbID) es \<and> (r = Ok True \<longrightarrow> saw_active lbID (last es))))"
    by (rule polling.drive_emits [OF assms wait_active_cond_emits])
  then show ?thesis
    by (rule emits_weaken) (simp add: active_backoff_def active_wait_polled)
qed

text \<open>The same for the function: a status read per check, and success only when ACTIVE was seen.\<close>

lemma waitLoadbalancerActive_emits:
  assumes "polling (ExponentialBackoff c)"
  shows "emits calls (waitLoadbalancerActiveProvisioningStatus c lbID)
    (\<lambda>r es. active_wait lbID (case r of Ok (_, None) \<Rightarrow> Ok () | Ok (_, Some e) \<Rightarrow> Err e | _ \<Rightarrow> Panic []) es)"
  unfolding waitLoadbalancerActiveProvisioningStatus_def
  by (intro wp, rule emits_weaken [OF wait_active_polled [OF assms]])
    (auto simp: active_wait_def emits_retM split: outcome.splits)

lemma wait_active_emits:
  assumes "polling (ExponentialBackoff c)"
  shows "emits calls (wait_active c lbID) (active_wait lbID)"
  unfolding wait_active_def
  by (intro wp, rule emits_weaken [OF waitLoadbalancerActive_emits [OF assms]])
    (auto simp: active_wait_def emits_retM emits_failM split: outcome.splits option.splits)

section \<open>Mutations only right after ACTIVE was observed\<close>

text \<open>
  \<open>guarded i G b es\<close>: in \<open>es\<close>, every call in \<open>G\<close> comes directly after a read that saw load balancer
  \<open>i\<close> ACTIVE; \<open>b\<close> says whether the call before \<open>es\<close> was such a read.
\<close>

fun guarded :: "string \<Rightarrow> (api_call \<Rightarrow> bool) \<Rightarrow> bool \<Rightarrow> api_call list \<Rightarrow> bool" where
  "guarded i G b [] = True"
| "guarded i G b (e # es) = ((G e \<longrightarrow> b) \<and> guarded i G (saw_active i e) es)"

lemma guarded_append:
  "guarded i G b (xs @ ys) \<longleftrightarrow>
     guarded i G b xs \<and> guarded i G (if xs = [] then b else saw_active i (last xs)) ys"
  by (induction xs arbitrary: b) auto

lemma guarded_mono: "guarded i G False es \<Longrightarrow> guarded i G b es"
  by (cases es) auto

lemma guarded_free: "list_all (\<lambda>e. \<not> G e) es \<Longrightarrow> guarded i G b es"
  by (induction es arbitrary: b) auto

interpretation guarded: trace_property "guarded i G False" for i G
  by unfold_locales (auto simp: guarded_append guarded_mono)

text \<open>Reading the definition: the call before a guarded call is a read that saw ACTIVE.\<close>

lemma guardedD:
  assumes "guarded i G False (pre @ e # post)" "G e"
  shows "pre \<noteq> [] \<and> saw_active i (last pre)"
  using assms by (auto simp: guarded_append split: if_splits)

section \<open>Rounds of a retried operation\<close>

text \<open>
  One check of the retry loop: a wait that fails, or a wait that saw ACTIVE, the operation, and the
  wait behind it. \<open>Qo\<close> relates the operation's outcome and its calls.
\<close>

definition retry_round ::
    "string \<Rightarrow> (unit outcome \<Rightarrow> api_call list \<Rightarrow> bool) \<Rightarrow> bool outcome \<Rightarrow> api_call list \<Rightarrow> bool" where
  "retry_round i Qo r es \<longleftrightarrow>
     (list_all (is_get i) es \<and> length es \<le> 19 \<and> r \<noteq> Ok True \<and> (\<forall>e. r \<noteq> Err e)) \<or>
     (\<exists>g ro os h. es = g @ os @ h \<and> active_wait i (Ok ()) g \<and> Qo ro os \<and>
        list_all (is_get i) h \<and> length h \<le> 19 \<and>
        (r = Ok True \<longrightarrow> ro = Ok () \<and> active_wait i (Ok ()) h) \<and>
        (\<forall>e. r = Err e \<longrightarrow> ro = Err e \<and> \<not> isLoadBalancerImmutableError (Some e) \<and> h = []) \<and>
        (r = Ok False \<longrightarrow> ro = Ok () \<or> (\<exists>e. ro = Err e \<and> isLoadBalancerImmutableError (Some e))))"

lemma retry_roundI:
  assumes "active_wait i (Ok ()) g" "Qo ro os" "list_all (is_get i) h" "length h \<le> 19"
    and "r = Ok True \<Longrightarrow> ro = Ok () \<and> active_wait i (Ok ()) h"
    and "\<And>e. r = Err e \<Longrightarrow> ro = Err e \<and> \<not> isLoadBalancerImmutableError (Some e) \<and> h = []"
    and "r = Ok False \<Longrightarrow> ro = Ok () \<or> (\<exists>e. ro = Err e \<and> isLoadBalancerImmutableError (Some e))"
  shows "retry_round i Qo r (g @ os @ h)"
  using assms unfolding retry_round_def by blast

lemma active_wait_gets: "active_wait i r es \<Longrightarrow> list_all (is_get i) es \<and> length es \<le> 19"
  by (simp add: active_wait_def)

lemma active_wait_Ok: "active_wait i (Ok x) es \<Longrightarrow> active_wait i (Ok y) es"
  by (simp add: active_wait_def)

lemma set_lastErr_emits [wp]: "Q (Ok False) [] \<Longrightarrow> emits closure_calls (set_lastErr e) Q"
  unfolding set_lastErr_def by (intro wp) auto

lemma retry_cond_emits:
  assumes "polling (ExponentialBackoff c)" "emits calls op Qo"
  shows "emits closure_calls (retry_cond c i opName rid op) (retry_round i Qo)"
proof -
  have inner: "emits closure_calls
      (tryM (lift_st (wait_active c i))
        (\<lambda>e. set_lastErr (Wrapf (''LB not ACTIVE after '' @ opName @ '' for '' @ rid @ '': '') e))
        (\<lambda>_. retM True))
      (\<lambda>r es. list_all (is_get i) es \<and> length es \<le> 19 \<and> (r = Ok True \<longrightarrow> active_wait i (Ok ()) es) \<and>
        (\<forall>e. r \<noteq> Err e))"
    by (intro wp, rule emits_weaken [OF wait_active_emits [OF assms(1)]])
      (auto split: outcome.splits intro!: wp dest: active_wait_gets)
  show ?thesis
    unfolding retry_cond_def
  proof (rule wp_tryM, rule wp, rule emits_weaken [OF wait_active_emits [OF assms(1)]], rule wp, goal_cases)
    case (1 r g x)
    then have g: "active_wait i (Ok ()) g" by simp
    show ?case
    proof (rule wp_tryM, rule wp, rule emits_weaken [OF assms(2)], rule wp, goal_cases)
      case (1 ro os x)
      then show ?case
        by (intro emits_weaken [OF inner]) (use g in \<open>auto intro!: retry_roundI [of i g Qo ro os]\<close>)
    next
      case (2 ro os e)
      then show ?case
        using g retry_roundI [of i g Qo ro os "[]" "Ok False"] retry_roundI [of i g Qo ro os "[]" "Err e"]
        by (intro wp) simp_all
    next
      case (3 ro os p)
      then show ?case using g retry_roundI [of i g Qo ro os "[]"] by auto
    qed
  next
    case (2 r g e)
    then show ?case by (intro wp) (auto simp: retry_round_def dest: active_wait_gets)
  next
    case (3 r g p)
    then show ?case by (auto simp: retry_round_def dest: active_wait_gets)
  qed
qed

text \<open>All rounds of a run, at most six.\<close>

lemma retry_emits:
  assumes "polling (ExponentialBackoff c)" "polling (ExponentialBackoffWithContext c)" "emits calls op Qo"
  shows "emits calls (runLBOperationWithRetry c i opName rid op)
    (\<lambda>r es. \<exists>r'. polled 6 (retry_round i Qo) r' es \<and> (r = Ok () \<longleftrightarrow> r' = Ok ()))"
proof -
  have "emits closure_calls (ExponentialBackoffWithContext c retry_backoff (retry_cond c i opName rid op))
      (polled 6 (retry_round i Qo))"
    using polling.drive_emits [OF assms(2) retry_cond_emits [OF assms(1,3)], of retry_backoff]
    by (simp add: retry_backoff_def)
  then show ?thesis
    unfolding runLBOperationWithRetry_def
    by (intro wp, elim emits_weaken) (auto intro!: wp split: outcome.splits option.splits)
qed

text \<open>What follows for a caller: guarded mutations, a bound on them, and the last observation.\<close>

lemma retry_round_guarded:
  assumes "retry_round i Qo r es" "\<And>r es. Qo r es \<Longrightarrow> guarded i G True es" "\<And>e. is_get i e \<Longrightarrow> \<not> G e"
  shows "guarded i G False es"
proof -
  have free: "guarded i G b h" if "list_all (is_get i) h" for b h
    by (rule guarded_free) (use that assms(3) in \<open>auto simp: list_all_iff\<close>)
  from assms(1) show ?thesis
    unfolding retry_round_def
  proof (elim disjE exE conjE)
    assume "list_all (is_get i) es"
    then show ?thesis by (rule free)
  next
    fix g ro os h
    assume es: "es = g @ os @ h" and g: "active_wait i (Ok ()) g" and os: "Qo ro os" and h: "list_all (is_get i) h"
    from g have "g \<noteq> []" "saw_active i (last g)" "list_all (is_get i) g"
      by (auto simp: active_wait_def)
    with es free [of g] free [OF h] assms(2) [OF os] show ?thesis
      by (simp add: guarded_append)
  qed
qed

lemma retry_guarded:
  assumes "polling (ExponentialBackoff c)" "polling (ExponentialBackoffWithContext c)"
    and "emits calls op (\<lambda>_. guarded i G True)" "\<And>e. is_get i e \<Longrightarrow> \<not> G e"
  shows "always calls (guarded i G False) (runLBOperationWithRetry c i opName rid op)"
proof (rule always_emits [OF retry_emits [OF assms(1,2,3)]], elim exE conjE)
  fix r r' es
  assume "polled 6 (retry_round i (\<lambda>_. guarded i G True)) r' es"
  then have "polled 6 (\<lambda>_. guarded i G False) r' es"
    by (rule polled_weaken) (erule retry_round_guarded, use assms(4) in auto)
  then show "guarded i G False es"
    by (rule polled_always) (auto intro: guarded.R_append)
qed

lemma retry_only:
  assumes "polling (ExponentialBackoff c)" "polling (ExponentialBackoffWithContext c)"
    and "only calls P op" "\<And>e. is_get i e \<Longrightarrow> P e"
  shows "only calls P (runLBOperationWithRetry c i opName rid op)"
proof (rule always_emits [OF retry_emits [OF assms(1,2) assms(3) [unfolded always_def]]], elim exE conjE)
  fix r r' es
  assume "polled 6 (retry_round i (\<lambda>_. list_all P)) r' es"
  then have "polled 6 (\<lambda>_. list_all P) r' es"
    by (rule polled_weaken) (use assms(4) in \<open>auto simp: retry_round_def active_wait_def list_all_iff\<close>)
  then show "list_all P es" by (rule polled_always) auto
qed

text \<open>A successful run ends with the load balancer seen ACTIVE, and its operation succeeded.\<close>

lemma retry_success:
  assumes "polling (ExponentialBackoff c)" "polling (ExponentialBackoffWithContext c)" "emits calls op Qo"
  shows "emits calls (runLBOperationWithRetry c i opName rid op)
    (\<lambda>r es. r = Ok () \<longrightarrow> es \<noteq> [] \<and> saw_active i (last es) \<and>
      (\<exists>pre os post. es = pre @ os @ post \<and> Qo (Ok ()) os))"
proof (rule emits_weaken [OF retry_emits [OF assms]], elim exE conjE, rule impI)
  fix r r' es
  assume p: "polled 6 (retry_round i Qo) r' es" and "r = Ok () \<longleftrightarrow> r' = Ok ()" "r = Ok ()"
  then obtain ess x where es: "es = concat ess @ x" and x: "retry_round i Qo (Ok True) x"
    unfolding polled_def by auto
  from x obtain g os h where g: "x = g @ os @ h" "Qo (Ok ()) os" "active_wait i (Ok ()) h"
    unfolding retry_round_def by auto
  then have "h \<noteq> []" "saw_active i (last h)" by (auto simp: active_wait_def)
  moreover have "es = (concat ess @ g) @ os @ h" using es g by simp
  ultimately show "es \<noteq> [] \<and> saw_active i (last es) \<and> (\<exists>pre os post. es = pre @ os @ post \<and> Qo (Ok ()) os)"
    using g(2) by (metis append_is_Nil_conv last_appendR)
qed

text \<open>At most six executions of the operation.\<close>

lemma retry_count:
  assumes "polling (ExponentialBackoff c)" "polling (ExponentialBackoffWithContext c)"
    and "emits calls op (\<lambda>_ es. length (filter P es) \<le> k)" "\<And>e. is_get i e \<Longrightarrow> \<not> P e"
  shows "always calls (\<lambda>es. length (filter P es) \<le> 6 * k) (runLBOperationWithRetry c i opName rid op)"
proof (rule always_emits [OF retry_emits [OF assms(1,2,3)]], elim exE conjE)
  fix r r' es
  let ?Q = "\<lambda>(_ :: bool outcome) es. length (filter P es) \<le> k"
  have gets: "filter P h = []" if "list_all (is_get i) h" for h
    using that assms(4) by (auto simp: filter_empty_conv list_all_iff)
  assume "polled 6 (retry_round i (\<lambda>_ es. length (filter P es) \<le> k)) r' es"
  then have "polled 6 ?Q r' es"
    by (rule polled_weaken) (auto simp: retry_round_def active_wait_def gets)
  then obtain ess x where es: "es = concat ess @ x" "list_all (?Q (Ok False)) ess" "length ess \<le> 6"
    and x: "case r' of Ok _ \<Rightarrow> length ess < 6 \<and> ?Q (Ok True) x
      | Err e \<Rightarrow> x = [] \<or> (length ess < 6 \<and> ?Q (Err e) x)
      | Panic p \<Rightarrow> length ess < 6 \<and> ?Q (Panic p) x"
    unfolding polled_def by blast
  have head: "length (filter P (concat ess)) \<le> length ess * k"
    using es(2) by (induction ess) auto
  have step: "length (filter P x) \<le> (6 - length ess) * k"
    if "length ess < 6" "length (filter P x) \<le> k"
  proof -
    have "k \<le> (6 - length ess) * k" using that(1) by (cases "6 - length ess") auto
    with that(2) show ?thesis by linarith
  qed
  have "length (filter P x) \<le> (6 - length ess) * k"
    using x by (cases r') (auto intro: step)
  moreover note head
  moreover have "length ess * k + (6 - length ess) * k = 6 * k"
    using es(3) by (simp flip: add_mult_distrib)
  ultimately show "length (filter P es) \<le> 6 * k" using es(1) by simp
qed

section \<open>Which error a run returns\<close>

lemma retry_fatal:
  assumes "exact_polling (ExponentialBackoffWithContext c)"
    and "wait_active c i s = (Ok (), s1)" "op s1 = (Err e, s2)" "\<not> isLoadBalancerImmutableError (Some e)"
  shows "runLBOperationWithRetry c i n r op s = (Err e, s2)"
proof -
  have "retry_cond c i n r op (s, no_vars) = (Err e, (s2, no_vars))"
    using assms(2-4) by (simp add: retry_cond_def tryM_def lift_st_def failM_def)
  then show ?thesis
    by (simp add: runLBOperationWithRetry_def exact_polling.drive_exact [OF assms(1)] retry_backoff_def
        bindM_def run_closure_def numeral_eq_Suc failM_def no_vars_def)
qed

lemma retry_stale_error:
  assumes "exact_polling (ExponentialBackoffWithContext c)"
    and "wait_active c i s = (Ok (), s1)" "op s1 = (Err e1, s2)" "isLoadBalancerImmutableError (Some e1)"
    and "wait_active c i s2 = (Ok (), s3)" "op s3 = (Err e2, s4)" "\<not> isLoadBalancerImmutableError (Some e2)"
  shows "runLBOperationWithRetry c i n r op s = (Err e1, s4)"
proof -
  have "retry_cond c i n r op (s, no_vars) = (Ok False, (s2, no_vars\<lparr>v_lastErr := Some e1\<rparr>))"
    using assms(2-4)
    by (simp add: retry_cond_def tryM_def lift_st_def set_lastErr_def assign_def bindM_def retM_def)
  moreover have "retry_cond c i n r op (s2, v) = (Err e2, (s4, v))" for v
    using assms(5-7) by (simp add: retry_cond_def tryM_def lift_st_def failM_def)
  ultimately show ?thesis
    by (simp add: runLBOperationWithRetry_def exact_polling.drive_exact [OF assms(1)] retry_backoff_def
        bindM_def run_closure_def numeral_eq_Suc failM_def no_vars_def)
qed

section \<open>Rules for callers\<close>

text \<open>Both drivers poll; the hypothesis of the properties of everything that waits.\<close>

definition drivers :: "'w client \<Rightarrow> bool" where
  "drivers c \<longleftrightarrow> polling (ExponentialBackoff c) \<and> polling (ExponentialBackoffWithContext c)"

text \<open>The mutations that are retried, and must directly follow an observation of ACTIVE.\<close>

fun retried :: "api_call \<Rightarrow> bool" where
  "retried (PL (Pool_Update _ _)) = True"
| "retried (PL (Pool_Delete _)) = True"
| "retried (LB (Listener_Delete _)) = True"
| "retried _ = False"

lemma is_get_not_retried: "is_get i e \<Longrightarrow> \<not> retried e"
  by (cases "(i, e)" rule: is_get.cases) auto

lemma wait_active_only: "drivers c \<Longrightarrow> only calls (is_get i) (wait_active c i)"
  by (rule always_emits [OF wait_active_emits]) (auto simp: drivers_def active_wait_def)

lemma wait_status_only:
  "drivers c \<Longrightarrow> only calls (is_get i) (waitLoadbalancerActiveProvisioningStatus c i)"
  by (rule always_emits [OF waitLoadbalancerActive_emits]) (auto simp: drivers_def active_wait_def)

lemma runLB_only:
  assumes "drivers c" "only calls P op" "\<And>e. is_get i e \<Longrightarrow> P e"
  shows "only calls P (runLBOperationWithRetry c i opName rid op)"
  using assms(1) by (intro retry_only assms(2,3)) (auto simp: drivers_def)

lemma runLB_guarded:
  assumes "drivers c" "emits calls op (\<lambda>_. guarded i retried True)"
  shows "always calls (guarded i retried False) (runLBOperationWithRetry c i opName rid op)"
  using assms(1) by (intro retry_guarded assms(2)) (auto simp: drivers_def is_get_not_retried)

lemma only_guarded: "only calls (\<lambda>e. \<not> retried e) m \<Longrightarrow> always calls (guarded i retried False) m"
  by (erule always_mono) (rule guarded_free)

lemma waitLoadbalancerDeleted_only:
  assumes "drivers c"
  shows "only calls (\<lambda>e. \<exists>r. e = LB (Loadbalancers_Exists i r)) (waitLoadbalancerDeleted c i)"
proof -
  have "polling (ExponentialBackoff c)" using assms by (simp add: drivers_def)
  then show ?thesis
    unfolding waitLoadbalancerDeleted_def lb_exists_def
    by (intro emits_intros polling.drive_always) (auto intro: only.trace_property_axioms)
qed

section \<open>Properties\<close>

text \<open>A cloud with one load balancer whose status is the state; an operation on it is counted.\<close>

definition example_lb :: "string \<Rightarrow> loadbalancer" where
  "example_lb status = \<lparr>lb_ID = ''lb1'', lb_Name = ''web'', lb_ProvisioningStatus = status,
     lb_VipAddress = [10, 0, 0, 5], lb_VipPortID = ''port1''\<rparr>"

text \<open>The state counts the reads until the load balancer is ACTIVE.\<close>

definition example_get :: "string \<Rightarrow> (nat, loadbalancer) ext" where
  "example_get i n = (Ok (example_lb (if n = 0 then ''ACTIVE'' else ''PENDING_UPDATE'')), n - 1)"

definition example_client :: "nat client" where
  "example_client = idle_client\<lparr>Loadbalancers := (Loadbalancers idle_client)\<lparr>api_lb_get := example_get\<rparr>\<rparr>"

lemma example_client_polling [simp]:
  "drivers example_client"
  "polling (ExponentialBackoff example_client)" "polling (ExponentialBackoffWithContext example_client)"
  "exact_polling (ExponentialBackoff example_client)"
  "exact_polling (ExponentialBackoffWithContext example_client)"
  by (simp_all add: drivers_def example_client_def idle_client_def poll_driver.polling_axioms poll_driver.exact_polling_axioms)

text \<open>C27: waiting for ACTIVE reads the load balancer at most 19 times and does nothing else, and it
  succeeds only when its last read saw the load balancer ACTIVE.\<close>

theorem wait_active_observes:
  assumes "polling (ExponentialBackoff c)"
  shows "emits calls (waitLoadbalancerActiveProvisioningStatus c lbID)
    (\<lambda>r es. list_all (is_get lbID) es \<and> length es \<le> 19 \<and>
      (\<forall>status. r = Ok (status, None) \<longrightarrow> es \<noteq> [] \<and> saw_active lbID (last es)))"
  by (rule emits_weaken [OF waitLoadbalancerActive_emits [OF assms]]) (auto simp: active_wait_def)

lemma wait_active_observes_witness:
  "emits calls (waitLoadbalancerActiveProvisioningStatus example_client ''lb1'')
    (\<lambda>r es. list_all (is_get ''lb1'') es \<and> length es \<le> 19 \<and>
      (\<forall>status. r = Ok (status, None) \<longrightarrow> es \<noteq> [] \<and> saw_active ''lb1'' (last es)))"
  by (rule wait_active_observes) simp

lemma wait_active_cond_step:
  "lb_get c i s = (Ok lb, s') \<Longrightarrow> lb_ProvisioningStatus lb \<notin> {''ERROR''} \<Longrightarrow>
    wait_active_cond c i (s, v) =
      (Ok (lb_ProvisioningStatus lb = ''ACTIVE''), (s', v\<lparr>v_provisioningStatus := lb_ProvisioningStatus lb\<rparr>))"
  by (simp add: wait_active_cond_def bindM_def lift_st_def assign_def retM_def)

text \<open>If the load balancer becomes ACTIVE within 19 reads, without an error in between, the wait succeeds with the
  status ACTIVE after the read that saw it.\<close>

lemma wait_active_converges:
  assumes "exact_polling (ExponentialBackoff c)" "n < 19"
    and "\<And>k. k \<le> n \<Longrightarrow> lb_get c i (s k) = (Ok (lb k), s (Suc k))"
    and "\<And>k. k < n \<Longrightarrow> lb_ProvisioningStatus (lb k) \<notin> {''ACTIVE'', ''ERROR''}"
    and "lb_ProvisioningStatus (lb n) = ''ACTIVE''"
  shows "waitLoadbalancerActiveProvisioningStatus c i (s 0) = (Ok (''ACTIVE'', None), s (Suc n))"
proof -
  define v where "v = (\<lambda>k. if k = 0 then no_vars else no_vars\<lparr>v_provisioningStatus := lb_ProvisioningStatus (lb (k - 1))\<rparr>)"
  have "poll 19 wait_timeout (wait_active_cond c i) (s 0, v 0) = (Ok (), (s (Suc n), v (Suc n)))"
  proof (rule poll_reaches [where s = "\<lambda>k. (s k, v k)" and n = n])
    fix k assume "k < n"
    then show "wait_active_cond c i (s k, v k) = (Ok False, (s (Suc k), v (Suc k)))"
      using assms(3,4) [of k] by (auto simp: wait_active_cond_step v_def)
  next
    show "wait_active_cond c i (s n, v n) = (Ok True, (s (Suc n), v (Suc n)))"
      using assms(3) [of n] assms(5) by (auto simp: wait_active_cond_step v_def)
  qed (rule assms(2))
  then show ?thesis
    using assms(5)
    by (simp add: waitLoadbalancerActiveProvisioningStatus_def exact_polling.drive_exact [OF assms(1)]
        active_backoff_def bindM_def run_closure_def retM_def v_def)
qed

definition example_state :: "nat \<Rightarrow> nat \<Rightarrow> nat st" where
  "example_state n k = \<lparr>world = n - k, calls = map (\<lambda>j. LB (Loadbalancers_Get ''lb1''
     (Ok (example_lb (if n - j = 0 then ''ACTIVE'' else ''PENDING_UPDATE''))))) [0..<k]\<rparr>"

lemma example_reads:
  "lb_get example_client ''lb1'' (example_state n k) =
    (Ok (example_lb (if n - k = 0 then ''ACTIVE'' else ''PENDING_UPDATE'')), example_state n (Suc k))"
  by (simp add: lb_get_def example_state_def call_def example_client_def example_get_def)

lemma wait_active_converges_witness:
  "waitLoadbalancerActiveProvisioningStatus example_client ''lb1'' (example_state 2 0) =
    (Ok (''ACTIVE'', None), example_state 2 3)"
proof -
  have "waitLoadbalancerActiveProvisioningStatus example_client ''lb1'' (example_state 2 0) =
      (Ok (''ACTIVE'', None), example_state 2 (Suc 2))"
    by (rule wait_active_converges [where lb = "\<lambda>k. example_lb (if 2 - k = 0 then ''ACTIVE'' else ''PENDING_UPDATE'')"])
      (simp_all add: example_reads example_lb_def)
  then show ?thesis by simp
qed

text \<open>C7: a retried operation is executed at most six times, each time right after the load balancer was
  seen ACTIVE, and a successful run ends with a read that saw it ACTIVE again. (\<open>G\<close> marks the operation's
  mutation, \<open>op\<close> makes at most one such call, as its first.)\<close>

theorem retry_is_guarded:
  assumes "polling (ExponentialBackoff c)" "polling (ExponentialBackoffWithContext c)"
    and "emits calls op (\<lambda>r es. \<exists>e. G e \<and> es = [e])" "\<And>e. is_get i e \<Longrightarrow> \<not> G e"
  shows "emits calls (runLBOperationWithRetry c i opName rid op) (\<lambda>r es.
    guarded i G False es \<and> length (filter G es) \<le> 6 \<and>
    (r = Ok () \<longrightarrow> filter G es \<noteq> [] \<and> saw_active i (last es)))"
proof -
  have one: "emits calls op (\<lambda>_. guarded i G True)" "emits calls op (\<lambda>_ es. length (filter G es) \<le> 1)"
    using assms(3) by (auto elim!: emits_weaken)
  have "emits calls (runLBOperationWithRetry c i opName rid op) (\<lambda>r es. guarded i G False es)"
    using retry_guarded [OF assms(1,2) one(1) assms(4)] by (simp add: always_def)
  moreover have "emits calls (runLBOperationWithRetry c i opName rid op) (\<lambda>r es. length (filter G es) \<le> 6)"
    using retry_count [OF assms(1,2) one(2) assms(4)] by (simp add: always_def)
  moreover have "emits calls (runLBOperationWithRetry c i opName rid op)
      (\<lambda>r es. r = Ok () \<longrightarrow> filter G es \<noteq> [] \<and> saw_active i (last es))"
    by (rule emits_weaken [OF retry_success [OF assms(1-3)]]) auto
  ultimately show ?thesis by (simp add: emits_def) (metis same_append_eq)
qed

lemma retry_is_guarded_witness:
  "emits calls (runLBOperationWithRetry example_client ''lb1'' ''PoolDelete'' ''p''
      (bindM (call (\<lambda>_. PL (Pool_Delete ''p'')) (answer (Ok ()))) retM)) (\<lambda>r es.
    guarded ''lb1'' (\<lambda>e. e = PL (Pool_Delete ''p'')) False es \<and> length (filter (\<lambda>e. e = PL (Pool_Delete ''p'')) es) \<le> 6 \<and>
    (r = Ok () \<longrightarrow> filter (\<lambda>e. e = PL (Pool_Delete ''p'')) es \<noteq> [] \<and> saw_active ''lb1'' (last es)))"
  by (rule retry_is_guarded) (auto intro!: wp)

lemma retry_reaches:
  assumes "exact_polling (ExponentialBackoffWithContext c)" "n < 6"
    and "\<And>k. k \<le> n \<Longrightarrow> wait_active c i (s k) = (Ok (), t k)"
    and "\<And>k. k < n \<Longrightarrow> op (t k) = (Err (e k), s (Suc k))"
    and "\<And>k. k < n \<Longrightarrow> isLoadBalancerImmutableError (Some (e k))"
    and "op (t n) = (Ok (), u)" "wait_active c i u = (Ok (), u')"
  shows "runLBOperationWithRetry c i opName rid op (s 0) = (Ok (), u')"
proof -
  define v where "v = (\<lambda>k. if k = 0 then no_vars else no_vars\<lparr>v_lastErr := Some (e (k - 1))\<rparr>)"
  have "poll 6 wait_timeout (retry_cond c i opName rid op) (s 0, v 0) = (Ok (), (u', v n))"
  proof (rule poll_reaches [where s = "\<lambda>k. (s k, v k)" and n = n])
    fix k assume "k < n"
    then show "retry_cond c i opName rid op (s k, v k) = (Ok False, (s (Suc k), v (Suc k)))"
      using assms(3-5) [of k]
      by (auto simp: retry_cond_def tryM_def lift_st_def set_lastErr_def assign_def bindM_def retM_def v_def)
  next
    show "retry_cond c i opName rid op (s n, v n) = (Ok True, (u', v n))"
      using assms(3) [of n] assms(6,7) by (simp add: retry_cond_def tryM_def lift_st_def retM_def)
  qed (rule assms(2))
  then show ?thesis
    by (simp add: runLBOperationWithRetry_def exact_polling.drive_exact [OF assms(1)] retry_backoff_def
        bindM_def run_closure_def retM_def v_def)
qed

text \<open>C26: an operation that is rejected fewer than six times because the load balancer is immutable, and
  succeeds after that, makes the whole run succeed, provided that the load balancer gets ACTIVE each time.\<close>

theorem retry_converges:
  assumes "exact_polling (ExponentialBackoffWithContext c)" "n < 6"
    and "\<And>k. k \<le> n \<Longrightarrow> wait_active c i (s k) = (Ok (), t k)"
    and "\<And>k. k < n \<Longrightarrow> op (t k) = (Err (e k), s (Suc k))"
    and "\<And>k. k < n \<Longrightarrow> isLoadBalancerImmutableError (Some (e k))"
    and "op (t n) = (Ok (), u)" "wait_active c i u = (Ok (), u')"
  shows "runLBOperationWithRetry c i opName rid op (s 0) = (Ok (), u')"
  using assms by (rule retry_reaches)

text \<open>The witness: an update that is rejected while a second counter is positive.\<close>

definition example_ready :: "nat client" where
  "example_ready = idle_client\<lparr>Loadbalancers := (Loadbalancers idle_client)
     \<lparr>api_lb_get := (\<lambda>i n. (Ok (example_lb ''ACTIVE''), n))\<rparr>\<rparr>"

definition example_update :: "(nat st, unit) prog" where
  "example_update s = (if world s = 0 then (Ok (), s)
     else (Err (Api ''409: Load Balancer is in immutable state''), s\<lparr>world := world s - 1\<rparr>))"

lemma example_ready_exact [simp]:
  "exact_polling (ExponentialBackoff example_ready)" "exact_polling (ExponentialBackoffWithContext example_ready)"
  by (simp_all add: example_ready_def idle_client_def poll_driver.exact_polling_axioms)

abbreviation active_read :: api_call where
  "active_read \<equiv> LB (Loadbalancers_Get ''lb1'' (Ok (example_lb ''ACTIVE'')))"

lemma example_ready_wait:
  "wait_active example_ready ''lb1'' s = (Ok (), s\<lparr>calls := calls s @ [active_read]\<rparr>)"
proof -
  have "lb_get example_ready ''lb1'' s = (Ok (example_lb ''ACTIVE''), s\<lparr>calls := calls s @ [active_read]\<rparr>)"
    by (simp add: lb_get_def call_def example_ready_def)
  then show ?thesis
    by (simp add: wait_active_def waitLoadbalancerActiveProvisioningStatus_def bindM_def run_closure_def retM_def
        exact_polling.drive_exact [OF example_ready_exact(1)] active_backoff_def numeral_eq_Suc wait_active_cond_step
        example_lb_def)
qed

lemma retry_converges_witness:
  "runLBOperationWithRetry example_ready ''lb1'' ''PoolUpdate'' ''p'' example_update \<lparr>world = 2, calls = []\<rparr> =
    (Ok (), \<lparr>world = 0, calls = replicate 4 active_read\<rparr>)"
  by (rule retry_converges [where s = "\<lambda>k. \<lparr>world = 2 - k, calls = replicate k active_read\<rparr>" and n = 2
        and t = "\<lambda>k. \<lparr>world = 2 - k, calls = replicate (Suc k) active_read\<rparr>"
        and e = "\<lambda>_. Api ''409: Load Balancer is in immutable state''"
        and u = "\<lparr>world = 0, calls = replicate 3 active_read\<rparr>", simplified])
    (auto simp: example_ready_wait example_update_def replicate_append_same numeral_eq_Suc
      isLoadBalancerImmutableError_def contains_def has_prefix_def)

text \<open>C31: an error that is not of the immutable kind ends the run at once, and the caller gets it, unless an
  earlier attempt had failed: then the caller gets the error of the earlier attempt instead.\<close>

theorem retry_reports_first_error:
  assumes "exact_polling (ExponentialBackoffWithContext c)" "wait_active c i s = (Ok (), s1)"
    and "op s1 = (Err e1, s2)" "\<not> isLoadBalancerImmutableError (Some e1) \<or>
      wait_active c i s2 = (Ok (), s3) \<and> op s3 = (Err e2, s4) \<and> \<not> isLoadBalancerImmutableError (Some e2)"
  shows "runLBOperationWithRetry c i opName rid op s =
    (Err e1, if isLoadBalancerImmutableError (Some e1) then s4 else s2)"
  using assms(4) retry_fatal [where op = op, OF assms(1-3)] retry_stale_error [where op = op, OF assms(1-3)] by auto

definition example_failing :: "(nat st, unit) prog" where
  "example_failing s = (Err (Api (if world s = 0 then ''404'' else ''409: Load Balancer is in immutable state'')),
     s\<lparr>world := world s - 1\<rparr>)"

lemma retry_reports_first_error_witness:
  "runLBOperationWithRetry example_ready ''lb1'' ''PoolUpdate'' ''p'' example_failing \<lparr>world = 1, calls = []\<rparr> =
    (Err (Api ''409: Load Balancer is in immutable state''), \<lparr>world = 0, calls = [active_read, active_read]\<rparr>)"
  using retry_reports_first_error [of example_ready "''lb1''" "\<lparr>world = 1, calls = []\<rparr>"
      "\<lparr>world = 1, calls = [active_read]\<rparr>" example_failing "Api ''409: Load Balancer is in immutable state''"
      "\<lparr>world = 0, calls = [active_read]\<rparr>" "\<lparr>world = 0, calls = [active_read, active_read]\<rparr>"
      "Api ''404''" "\<lparr>world = 0, calls = [active_read, active_read]\<rparr>" "''PoolUpdate''" "''p''"]
  by (simp add: example_ready_wait example_failing_def isLoadBalancerImmutableError_def contains_def has_prefix_def)

end
