(* ===== verification/Pools.thy ===== *)
theory Pools
  imports Retry Options "HOL-Library.Multiset"
begin

text \<open>
  Pools and their members: \<^verbatim>\<open>loadbalancer_pools.go\<close>, with the health monitor options of
  \<^verbatim>\<open>loadbalancer.go\<close>. The phases \<open>ensureLoadBalancerPools\<close> and \<open>reconcilePoolMembers\<close> are loops over the
  service ports; the Go maps keyed by \<^verbatim>\<open>servicePortKey\<close> are HOL maps. The client's \<^verbatim>\<open>PoolGet\<close> may
  answer with a nil pool (the sources test for it), so its value is an option. Removing a member in
  place is compared with filtering, and \<open>membersChanged\<close> with equality of the multisets of keys.
\<close>

section \<open>Pure operations\<close>

text \<open>\<^verbatim>\<open>resolveHealthMonitorType\<close>, \<^verbatim>\<open>prepareHealthMonitorOpts\<close>: whole seconds of a duration, truncated.\<close>

definition resolveHealthMonitorType :: "string \<Rightarrow> string" where
  "resolveHealthMonitorType protocol =
     (if protocol = ProtocolUDP then ''UDP-CONNECT''
      else if protocol = ProtocolTCP then ''TCP''
      else ''TCP'')"

definition seconds :: "int \<Rightarrow> int" where
  "seconds d = (if d < 0 then - ((- d) div 10 ^ 9) else d div 10 ^ 9)"

definition prepareHealthMonitorOpts :: "'w lbaas \<Rightarrow> service_port \<Rightarrow> health_monitor_create_request" where
  "prepareHealthMonitorOpts l port = \<lparr>
     hm_Type = resolveHealthMonitorType (sp_Protocol port),
     hm_Delay = seconds (lbo_MonitorDelay (l_opts l)),
     hm_Timeout = seconds (lbo_MonitorTimeout (l_opts l)),
     hm_MaxRetries = sint (lbo_MonitorMaxRetries (l_opts l))\<rparr>"

definition buildPoolCreateRequest ::
    "'w lbaas \<Rightarrow> listener \<Rightarrow> string \<Rightarrow> service_port \<Rightarrow> service_options \<Rightarrow> pool_create_request" where
  "buildPoolCreateRequest l ln lbName sp opts = \<lparr>
     pc_Name = buildPoolName lbName sp,
     pc_Protocol = (if so_KeepClientIP opts \<or> so_SecretID opts \<noteq> [] then ListenerProtocolHTTP else ln_Protocol ln),
     pc_LoadbalancerAlgorithm = so_LBMethod opts,
     pc_ListenerID = ln_ID ln,
     pc_HealthMonitor = (if so_CreateMonitor opts then Some (prepareHealthMonitorOpts l sp) else None),
     pc_SessionPersistence = so_SessionPersistence opts\<rparr>"

fun memberExists :: "pool_member list \<Rightarrow> string \<Rightarrow> int \<Rightarrow> bool" where
  "memberExists [] addr port = False"
| "memberExists (m # ms) addr port =
     (if ip_string (pm_Address m) = addr \<and> pm_ProtocolPort m = port then True else memberExists ms addr port)"

fun any_missing :: "string set \<Rightarrow> pool_member_create_request list \<Rightarrow> bool" where
  "any_missing curSet [] = False"
| "any_missing curSet (d # ds) = (if poolMemberCreateKey d \<notin> curSet then True else any_missing curSet ds)"

definition membersChanged :: "pool_member list \<Rightarrow> pool_member_create_request list \<Rightarrow> bool" where
  "membersChanged current desired =
     (if length current \<noteq> length desired then True
      else any_missing (set (map poolMemberKey current)) desired)"

text \<open>The loop of \<^verbatim>\<open>popMember\<close>, with \<open>n = j + 1\<close> members still in play.\<close>

function pop_members :: "string \<Rightarrow> int \<Rightarrow> pool_member list \<Rightarrow> nat \<Rightarrow> nat \<Rightarrow> pool_member list" where
  "pop_members addr port members i n =
     (if i < n then
        (let m = members ! i in
         if ip_string (pm_Address m) = addr \<and> pm_ProtocolPort m = port
         then pop_members addr port (members[i := members ! (n - 1)]) i (n - 1)
         else pop_members addr port members (i + 1) n)
      else take n members)"
  by pat_completeness auto

termination by (relation "measure (\<lambda>(addr, port, members, i, n). n - i)") auto

definition popMember :: "pool_member list \<Rightarrow> string \<Rightarrow> int \<Rightarrow> pool_member list" where
  "popMember members addr port = pop_members addr port members 0 (length members)"

definition nodeAddressForLB :: "node \<Rightarrow> string outcome" where
  "nodeAddressForLB node =
     (if node_Addresses node = [] then Err (Sent ErrNoAddressFound)
      else case find (\<lambda>a. na_Type a = NodeInternalIP) (node_Addresses node) of
        Some a \<Rightarrow> Ok (na_Address a)
      | None \<Rightarrow> (case find (\<lambda>a. na_Type a = NodeExternalIP) (node_Addresses node) of
          Some a \<Rightarrow> Ok (na_Address a)
        | None \<Rightarrow> Err (Sent ErrNoAddressFound)))"

section \<open>API operations\<close>

definition pool_list :: "'w client \<Rightarrow> pool_list_options \<Rightarrow> ('w st, pool list) prog" where
  "pool_list c o' = call (\<lambda>_. PL (Pool_List o')) (api_pool_list (Pools c) o')"

definition pool_get :: "'w client \<Rightarrow> string \<Rightarrow> ('w st, pool option) prog" where
  "pool_get c poolID = call (\<lambda>_. PL (Pool_Get poolID)) (api_pool_get (Pools c) poolID)"

definition listPoolsByLoadBalancerID :: "'w lbaas \<Rightarrow> string \<Rightarrow> bool \<Rightarrow> ('w st, pool list) prog" where
  "listPoolsByLoadBalancerID l loadbalancerID details =
     pool_list (l_client l) \<lparr>pl_LoadbalancerID = loadbalancerID, pl_ListenerID = [], pl_Details = details\<rparr>"

definition createPool :: "'w lbaas \<Rightarrow> pool_create_request \<Rightarrow> ('w st, pool option) prog" where
  "createPool l opts =
     bindM (wrapM (Wrapf (''failed to create pool for listener '' @ pc_ListenerID opts @ '': ''))
       (call (\<lambda>_. PL (Pool_Create opts)) (api_pool_create (Pools (l_client l)) opts))) (\<lambda>task.
     bindM (firstM (task_Pools task)) (\<lambda>poolID.
       wrapM (Wrapf (''cannot get loadbalancer pool with ID: '' @ poolID @ ''. Error: ''))
         (pool_get (l_client l) poolID)))"

definition deletePool :: "'w lbaas \<Rightarrow> string \<Rightarrow> ('w st, unit) prog" where
  "deletePool l poolID =
     bindM (wrapM (Wrapf (''failed to delete pool '' @ poolID @ '': ''))
       (call (\<lambda>_. PL (Pool_Delete poolID)) (api_pool_delete (Pools (l_client l)) poolID))) (\<lambda>_.
     bindM (wrapM (Wrapf (''failed to check if pool '' @ poolID @ '' exists: ''))
       (call (\<lambda>r. PL (Pool_Exists poolID r)) (api_pool_exists (Pools (l_client l)) poolID))) (\<lambda>isExist.
       if \<not> isExist then retM ()
       else failM (Errorf (''cannot delete lbpool with ID: '' @ poolID))))"

definition createPoolMember :: "'w lbaas \<Rightarrow> string \<Rightarrow> pool_member_create_request \<Rightarrow> ('w st, unit) prog" where
  "createPoolMember l poolID opts =
     bindM (wrapM (Wrapf (''failed to create pool member for pool '' @ poolID @ '': ''))
       (call (\<lambda>_. PL (PoolMember_Create poolID opts)) (api_member_create (Pools (l_client l)) poolID opts))) (\<lambda>tasks.
     bindM (firstM tasks) (\<lambda>task.
       wrapM (Wrapf (''error creating loadbalancer pool member '' @ Sprint_member_request (l_client l) opts @ '': ''))
         (call (\<lambda>_. PL (Task_Wait task)) (api_task_wait (Pools (l_client l)) task))))"

definition deletePoolMember :: "'w lbaas \<Rightarrow> string \<Rightarrow> string \<Rightarrow> ('w st, unit) prog" where
  "deletePoolMember l poolID memberID =
     bindM (wrapM (Wrapf (''failed to delete loadbalancer pool member '' @ memberID @ '' for pool '' @ poolID @ '': ''))
       (call (\<lambda>_. PL (PoolMember_Delete poolID memberID))
         (api_member_delete (Pools (l_client l)) poolID memberID))) (\<lambda>tasks.
     bindM (firstM tasks) (\<lambda>task.
     bindM (wrapM (Wrapf (''error deleting loadbalancer pool member '' @ memberID @ '' for pool '' @ poolID @ '': ''))
         (call (\<lambda>_. PL (Task_Wait task)) (api_task_wait (Pools (l_client l)) task))) (\<lambda>_.
     bindM (wrapM (Wrapf (''cannot get loadbalancer pool with ID: '' @ poolID @ ''. Error: ''))
         (pool_get (l_client l) poolID)) (\<lambda>p.
     bindM (derefM p) (\<lambda>lbp.
       if list_ex (\<lambda>m. pm_ID m = memberID) (pool_Members lbp)
       then failM (Errorf (''cannot delete loadbalancer pool member '' @ memberID @ '' for pool '' @ poolID))
       else retM ())))))"

definition getPoolByListenerID :: "'w client \<Rightarrow> string \<Rightarrow> string \<Rightarrow> bool \<Rightarrow> ('w st, pool) prog" where
  "getPoolByListenerID c loadbalancerID listenerID details =
     bindM (pool_list c \<lparr>pl_LoadbalancerID = loadbalancerID, pl_ListenerID = listenerID, pl_Details = details\<rparr>)
       (\<lambda>list. if length list = 0 then failM (Sent ErrNotFound)
         else if length list > 1 then failM (Sent ErrMultipleResults)
         else firstM list)"

definition updatePoolMembersWithRetry ::
    "'w lbaas \<Rightarrow> string \<Rightarrow> string \<Rightarrow> pool_update_request \<Rightarrow> ('w st, unit) prog" where
  "updatePoolMembersWithRetry l lbID poolID updateReq =
     runLBOperationWithRetry (l_client l) lbID ''PoolUpdate'' poolID
       (call (\<lambda>_. PL (Pool_Update poolID updateReq)) (api_pool_update (Pools (l_client l)) poolID updateReq))"

definition deletePoolWithRetry :: "'w lbaas \<Rightarrow> string \<Rightarrow> string \<Rightarrow> ('w st, unit) prog" where
  "deletePoolWithRetry l lbID poolID =
     runLBOperationWithRetry (l_client l) lbID ''PoolDelete'' poolID (deletePool l poolID)"

section \<open>Waiting for members\<close>

definition applied_cond ::
    "'w client \<Rightarrow> string \<Rightarrow> string \<Rightarrow> pool_member_create_request list \<Rightarrow> ('w st \<times> captured, bool) prog" where
  "applied_cond c lbID poolID desired =
     tryM (lift_st (wait_active c lbID))
       (\<lambda>e. set_lastErr (Wrapf (''LB not ACTIVE while waiting for pool '' @ poolID @ '' members to apply: '') e))
       (\<lambda>_. tryM (lift_st (pool_get c poolID))
         (\<lambda>e. set_lastErr (Wrapf (''PoolGet failed for pool '' @ poolID @ '': '') e))
         (\<lambda>p. case p of
           None \<Rightarrow> set_lastErr (Errorf (''pool '' @ poolID @ '' not found after update''))
         | Some pool \<Rightarrow>
             bindM (assign (\<lambda>v. v\<lparr>v_lastPool := Some pool\<rparr>)) (\<lambda>_.
               if membersChanged (pool_Members pool) desired then retM False else retM True)))"

text \<open>The pair of the last pool that was read and the error.\<close>

definition waitPoolMembersApplied ::
    "'w lbaas \<Rightarrow> string \<Rightarrow> string \<Rightarrow> pool_member_create_request list \<Rightarrow> ('w st, pool option \<times> error option) prog" where
  "waitPoolMembersApplied l lbID poolID desired =
     bindM (run_closure (ExponentialBackoffWithContext (l_client l) retry_backoff
       (applied_cond (l_client l) lbID poolID desired))) (\<lambda>(err, v).
       case err of
         Some e \<Rightarrow> (case v_lastErr v of
             Some lastErr \<Rightarrow> retM (v_lastPool v, Some lastErr)
           | None \<Rightarrow> retM (v_lastPool v, Some e))
       | None \<Rightarrow> (case v_lastPool v of
             None \<Rightarrow> retM (None, Some (Errorf (''pool '' @ poolID @ '' returned nil after update'')))
           | Some p \<Rightarrow> retM (Some p, None)))"

section \<open>The pools phase\<close>

definition pools_by_listener :: "pool list \<Rightarrow> string \<rightharpoonup> pool" where
  "pools_by_listener allPools =
     foldl (\<lambda>m p. foldl (\<lambda>m ref. if ref = [] then m else m(ref \<mapsto> p)) m (pool_Listeners p)) Map.empty allPools"

definition ensure_pool ::
    "'w lbaas \<Rightarrow> loadbalancer \<Rightarrow> (string \<rightharpoonup> listener) \<Rightarrow> service_options \<Rightarrow> (string \<rightharpoonup> pool) \<Rightarrow>
     service_port \<Rightarrow> (string \<rightharpoonup> pool) \<times> string list \<Rightarrow> ('w st, (string \<rightharpoonup> pool) \<times> string list) prog" where
  "ensure_pool l lb listeners opts poolsByListenerID sp = (\<lambda>(result, usedPoolIDs).
     (let key = servicePortKey sp in
      case listeners key of
        None \<Rightarrow> failM (Errorf (''listener for port key '' @ key @ '' not found during pools phase''))
      | Some ln \<Rightarrow>
          bindM (case poolsByListenerID (ln_ID ln) of
              Some pool \<Rightarrow> retM (Some pool)
            | None \<Rightarrow>
                bindM (wrapM (flatten (''error creating pool for listener '' @ ln_ID ln @ '': ''))
                  (createPool l (buildPoolCreateRequest l ln (lb_Name lb) sp opts))) (\<lambda>pool.
                bindM (wrapM (flatten (''LB not ACTIVE after creating pool for listener '' @ ln_ID ln @ '': ''))
                  (wait_active (l_client l) (lb_ID lb))) (\<lambda>_.
                  retM pool))) (\<lambda>p.
          bindM (derefM p) (\<lambda>pool.
            retM (result(key \<mapsto> pool), pool_ID pool # usedPoolIDs)))))"

definition ensureLoadBalancerPools ::
    "'w lbaas \<Rightarrow> loadbalancer \<Rightarrow> service \<Rightarrow> (string \<rightharpoonup> listener) \<Rightarrow> service_options \<Rightarrow>
     ('w st, (string \<rightharpoonup> pool) \<times> pool list) prog" where
  "ensureLoadBalancerPools l lb svc listeners opts =
     bindM (wrapM (Wrapf (''failed listing pools for LB '' @ lb_ID lb @ '': ''))
       (listPoolsByLoadBalancerID l (lb_ID lb) True)) (\<lambda>allPools.
     bindM (foldM (ensure_pool l lb listeners opts (pools_by_listener allPools)) (svc_Ports svc) (Map.empty, []))
       (\<lambda>(result, usedPoolIDs).
         retM (result, filter (\<lambda>pool. pool_ID pool \<notin> set usedPoolIDs) allPools)))"

section \<open>The members phase\<close>

definition desired_members :: "service_options \<Rightarrow> service_port \<Rightarrow> string list \<Rightarrow> pool_member_create_request list" where
  "desired_members opts sp ips =
     map (\<lambda>addr. \<lparr>pmc_Address = parse_ip addr, pmc_ProtocolPort = sp_NodePort sp,
       pmc_SubnetID = so_SubnetID opts\<rparr>) ips"

definition update_request :: "pool \<Rightarrow> pool_member_create_request list \<Rightarrow> pool_update_request" where
  "update_request pool desiredMembers = \<lparr>pu_ID = pool_ID pool, pu_Name = pool_Name pool, pu_Members = desiredMembers,
     pu_SessionPersistence = pool_SessionPersistence pool,
     pu_LoadbalancerAlgorithm = pool_LoadbalancerAlgorithm pool\<rparr>"

definition reconcile_port ::
    "'w lbaas \<Rightarrow> loadbalancer \<Rightarrow> service_options \<Rightarrow> string list \<Rightarrow> service_port \<Rightarrow>
     (string \<rightharpoonup> pool) \<Rightarrow> ('w st, string \<rightharpoonup> pool) prog" where
  "reconcile_port l lb opts desiredNodeIPs sp pools =
     (let key = servicePortKey sp in
      case pools key of
        None \<Rightarrow> failM (Errorf (''pool for port key '' @ key @ '' not found''))
      | Some pool \<Rightarrow>
          if sp_NodePort sp = 0
          then failM (Errorf (''service port '' @ show_int (sp_Port sp) @ '' has nodePort=0''))
          else
            (let desiredMembers = desired_members opts sp desiredNodeIPs in
             if \<not> membersChanged (pool_Members pool) desiredMembers then retM pools
             else
               bindM (wrapM (flatten (''PoolUpdate failed for pool '' @ pool_ID pool @ '': ''))
                 (updatePoolMembersWithRetry l (lb_ID lb) (pool_ID pool) (update_request pool desiredMembers))) (\<lambda>_.
               bindM (waitPoolMembersApplied l (lb_ID lb) (pool_ID pool) desiredMembers) (\<lambda>(refreshed, err).
                 case err of
                   Some e \<Rightarrow> failM (Wrapf (''pool '' @ pool_ID pool @ '' members were not observed after update: '') e)
                 | None \<Rightarrow> retM (pools(key := refreshed))))))"

fun node_addresses :: "node list \<Rightarrow> string list outcome" where
  "node_addresses [] = Ok []"
| "node_addresses (n # ns) = (case nodeAddressForLB n of
     Ok addr \<Rightarrow> (case node_addresses ns of Ok addrs \<Rightarrow> Ok (addr # addrs) | r \<Rightarrow> r)
   | Err e \<Rightarrow> Err (flatten ''nodeAddressForLB: '' e)
   | Panic p \<Rightarrow> Panic p)"

definition reconcilePoolMembers ::
    "'w lbaas \<Rightarrow> loadbalancer \<Rightarrow> service \<Rightarrow> (string \<rightharpoonup> pool) \<Rightarrow> service_options \<Rightarrow> node list \<Rightarrow>
     ('w st, string \<rightharpoonup> pool) prog" where
  "reconcilePoolMembers l lb svc pools opts nodes =
     bindM (liftM (node_addresses nodes)) (\<lambda>desiredNodeIPs.
       foldM (reconcile_port l lb opts desiredNodeIPs) (svc_Ports svc) pools)"

section \<open>Removing members in place\<close>

declare pop_members.simps [simp del]

abbreviation matches :: "string \<Rightarrow> int \<Rightarrow> pool_member \<Rightarrow> bool" where
  "matches addr port m \<equiv> ip_string (pm_Address m) = addr \<and> pm_ProtocolPort m = port"

lemma drop_take_Suc: "i < n \<Longrightarrow> n \<le> length xs \<Longrightarrow> drop i (take n xs) = xs ! i # drop (Suc i) (take n xs)"
  by (metis Cons_nth_drop_Suc length_take min.absorb2 nth_take)

lemma drop_take_pred: "i < n \<Longrightarrow> n \<le> length xs \<Longrightarrow> drop i (take n xs) = drop i (take (n - 1) xs) @ [xs ! (n - 1)]"
  by (cases n) (auto simp: take_Suc_conv_app_nth)

lemma mset_swap_out:
  assumes "i < n" "n \<le> length xs"
  shows "add_mset (xs ! i) (mset (drop i (take (n - 1) (xs[i := xs ! (n - 1)])))) = mset (drop i (take n xs))"
proof (cases "i = n - 1")
  case True
  with assms show ?thesis by (simp add: drop_take_Suc)
next
  case False
  with assms have i: "i < n - 1" by simp
  have upd: "drop (Suc i) (take (n - 1) (xs[i := xs ! (n - 1)])) = drop (Suc i) (take (n - 1) xs)"
    by (simp add: take_update_swap)
  have "drop (Suc i) (take n xs) = drop (Suc i) (take (n - 1) xs) @ [xs ! (n - 1)]"
    by (rule drop_take_pred) (use i assms in auto)
  moreover have "drop i (take (n - 1) (xs[i := xs ! (n - 1)])) = xs ! (n - 1) # drop (Suc i) (take (n - 1) xs)"
    using drop_take_Suc [of i "n - 1" "xs[i := xs ! (n - 1)]"] i assms upd by simp
  ultimately show ?thesis
    unfolding drop_take_Suc [OF assms] by (metis add_mset_commute mset.simps(2) mset_append union_mset_add_mset_right mset_single_iff_right add_mset_add_single)
qed

lemma mset_pop_members:
  "i \<le> n \<Longrightarrow> n \<le> length ms \<Longrightarrow>
    mset (pop_members addr port ms i n) =
      mset (take i ms) + filter_mset (\<lambda>m. \<not> matches addr port m) (mset (drop i (take n ms)))"
proof (induction addr port ms i n rule: pop_members.induct)
  case (1 addr port ms i n)
  show ?case
  proof (cases "i < n")
    case False
    with "1.prems" show ?thesis by (subst pop_members.simps) simp
  next
    case lt: True
    show ?thesis
    proof (cases "matches addr port (ms ! i)")
      case True
      with lt have "mset (pop_members addr port ms i n) = mset (pop_members addr port (ms[i := ms ! (n - 1)]) i (n - 1))"
        by (simp add: pop_members.simps [of _ _ _ i n])
      also have "\<dots> = mset (take i ms) + filter_mset (\<lambda>m. \<not> matches addr port m)
          (mset (drop i (take (n - 1) (ms[i := ms ! (n - 1)]))))"
        using "1.IH"(1) [OF lt refl True] "1.prems" lt by simp
      finally show ?thesis
        using mset_swap_out [OF lt "1.prems"(2), symmetric] True by simp
    next
      case False
      with lt have "mset (pop_members addr port ms i n) = mset (pop_members addr port ms (i + 1) n)"
        by (subst pop_members.simps) (auto simp: Let_def)
      then show ?thesis
        using "1.IH"(2) [OF lt refl False] "1.prems" lt False
        by (simp add: drop_take_Suc take_Suc_conv_app_nth)
    qed
  qed
qed

lemma mset_popMember: "mset (popMember ms addr port) = filter_mset (\<lambda>m. \<not> matches addr port m) (mset ms)"
  using mset_pop_members [of 0 "length ms" ms addr port] by (simp add: popMember_def)

lemma memberExists_iff: "memberExists ms addr port \<longleftrightarrow> (\<exists>m \<in> set ms. matches addr port m)"
  by (induction ms) auto

section \<open>Comparing members\<close>

lemma any_missing_iff: "any_missing S ds \<longleftrightarrow> (\<exists>d \<in> set ds. poolMemberCreateKey d \<notin> S)"
  by (induction ds) auto

lemma membersChanged_iff:
  "membersChanged cur des \<longleftrightarrow>
     length cur \<noteq> length des \<or> \<not> poolMemberCreateKey ` set des \<subseteq> poolMemberKey ` set cur"
  by (auto simp: membersChanged_def any_missing_iff)

lemma mset_eq_of_subset:
  assumes "length xs = length ys" "distinct ys" "set ys \<subseteq> set xs"
  shows "mset xs = mset ys"
proof -
  have "length ys = card (set ys)" using assms(2) by (simp add: distinct_card)
  then have "card (set xs) = length xs" "set xs = set ys"
    using assms(1,3) card_length [of xs] card_mono [OF _ assms(3)] card_subset_eq [OF _ assms(3)] by auto
  then show ?thesis
    using assms(2) card_distinct [of xs] set_eq_iff_mset_eq_distinct [of xs ys] by simp
qed

text \<open>Without repeated keys among the desired members the comparison is that of multisets.\<close>

lemma membersChanged_mset:
  assumes "distinct (map poolMemberCreateKey des)"
  shows "membersChanged cur des \<longleftrightarrow> mset (map poolMemberKey cur) \<noteq> mset (map poolMemberCreateKey des)"
proof
  assume "membersChanged cur des"
  then show "mset (map poolMemberKey cur) \<noteq> mset (map poolMemberCreateKey des)"
    unfolding membersChanged_iff by (metis length_map mset_eq_length mset_eq_setD set_map order_refl)
next
  assume "mset (map poolMemberKey cur) \<noteq> mset (map poolMemberCreateKey des)"
  then show "membersChanged cur des"
    using mset_eq_of_subset [of "map poolMemberKey cur" "map poolMemberCreateKey des"] assms
    by (auto simp: membersChanged_iff)
qed

section \<open>Calls of the operations\<close>

lemma pool_list_only [emits_intros]: "P (PL (Pool_List o')) \<Longrightarrow> only calls P (pool_list c o')"
  unfolding pool_list_def by (intro emits_intros) simp

lemma pool_get_only [emits_intros]: "P (PL (Pool_Get i)) \<Longrightarrow> only calls P (pool_get c i)"
  unfolding pool_get_def by (intro emits_intros) simp

lemma deletePool_emits:
  "emits calls (deletePool l pid) (\<lambda>r es. \<exists>xs. es = PL (Pool_Delete pid) # xs \<and>
     list_all (\<lambda>e. \<exists>x. e = PL (Pool_Exists pid x)) xs \<and> (r = Ok () \<longrightarrow> xs = [PL (Pool_Exists pid (Ok False))]))"
  unfolding deletePool_def by (intro wp) auto

lemma createPool_only:
  "only calls (\<lambda>e. e = PL (Pool_Create req) \<or> (\<exists>i. e = PL (Pool_Get i))) (createPool l req)"
  unfolding createPool_def by (intro emits_intros) auto

lemma getPoolByListenerID_only [emits_intros]:
  "P (PL (Pool_List \<lparr>pl_LoadbalancerID = lbID, pl_ListenerID = i, pl_Details = d\<rparr>)) \<Longrightarrow>
    only calls P (getPoolByListenerID c lbID i d)"
  unfolding getPoolByListenerID_def by (intro emits_intros) auto

lemma updatePool_only:
  assumes "drivers (l_client l)"
  shows "only calls (\<lambda>e. is_get i e \<or> e = PL (Pool_Update pid req)) (updatePoolMembersWithRetry l i pid req)"
  unfolding updatePoolMembersWithRetry_def by (rule runLB_only [OF assms]) (auto intro!: emits_intros)

lemma updatePool_guarded:
  assumes "drivers (l_client l)"
  shows "always calls (guarded i retried False) (updatePoolMembersWithRetry l i pid req)"
  unfolding updatePoolMembersWithRetry_def by (rule runLB_guarded [OF assms]) (auto intro!: wp)

definition deletes_pool :: "string \<Rightarrow> string \<Rightarrow> api_call \<Rightarrow> bool" where
  "deletes_pool lbID pid e \<longleftrightarrow> is_get lbID e \<or> e = PL (Pool_Delete pid) \<or> (\<exists>x. e = PL (Pool_Exists pid x))"

lemma deletePoolWithRetry_only:
  assumes "drivers (l_client l)"
  shows "only calls (deletes_pool i pid) (deletePoolWithRetry l i pid)"
  unfolding deletePoolWithRetry_def
  by (rule runLB_only [OF assms], rule always_emits [OF deletePool_emits])
    (auto simp: deletes_pool_def list_all_iff)

lemma deletePoolWithRetry_guarded:
  assumes "drivers (l_client l)"
  shows "always calls (guarded i retried False) (deletePoolWithRetry l i pid)"
  unfolding deletePoolWithRetry_def
proof (rule runLB_guarded [OF assms], rule emits_weaken [OF deletePool_emits], elim exE conjE)
  fix r es xs
  assume es: "es = PL (Pool_Delete pid) # xs" and "list_all (\<lambda>e. \<exists>x. e = PL (Pool_Exists pid x)) xs"
  from this(2) have "list_all (\<lambda>e. \<not> retried e) xs" by (rule list.pred_mono_strong) auto
  then show "guarded i retried True es" unfolding es by (simp add: guarded_free)
qed

lemma applied_cond_only:
  assumes "drivers c"
  shows "only closure_calls (\<lambda>e. is_get i e \<or> e = PL (Pool_Get pid)) (applied_cond c i pid des)"
  unfolding applied_cond_def set_lastErr_def
  by (intro emits_intros only_mono [OF wait_active_only [OF assms]]) auto

lemma waitPoolMembersApplied_only:
  assumes "drivers (l_client l)"
  shows "only calls (\<lambda>e. is_get i e \<or> e = PL (Pool_Get pid)) (waitPoolMembersApplied l i pid des)"
proof -
  have "polling (ExponentialBackoffWithContext (l_client l))" using assms by (simp add: drivers_def)
  then show ?thesis
    unfolding waitPoolMembersApplied_def
    by (intro emits_intros polling.drive_always applied_cond_only assms)
      (assumption | rule only.trace_property_axioms)+
qed

text \<open>A successful wait hands out a pool whose members match the desired ones.\<close>

lemma applied_cond_True:
  assumes "applied_cond c i pid des s = (Ok True, (s', v))"
  shows "\<exists>p. v_lastPool v = Some p \<and> \<not> membersChanged (pool_Members p) des"
proof -
  have no: "set_lastErr e t \<noteq> (Ok True, t')" for e and t t' :: "'a st \<times> captured"
    by (cases t) (simp add: set_lastErr_def bindM_def assign_def retM_def)
  show ?thesis
    using assms unfolding applied_cond_def
    by (elim tryM_OkE) (auto simp: no bindM_def assign_def retM_def split: option.splits prod.splits if_splits)
qed

lemma waitPoolMembersApplied_Ok:
  assumes "drivers (l_client l)" "waitPoolMembersApplied l i pid des s = (Ok (p, None), s')"
  shows "\<exists>q. p = Some q \<and> \<not> membersChanged (pool_Members q) des"
proof -
  let ?m = "ExponentialBackoffWithContext (l_client l) retry_backoff (applied_cond (l_client l) i pid des)"
  have pol: "polling (ExponentialBackoffWithContext (l_client l))" using assms by (simp add: drivers_def)
  obtain r s1 v where m: "?m (s, no_vars) = (r, (s1, v))" by (metis prod.exhaust)
  show ?thesis
  proof (cases r)
    case (Ok x)
    with m polling.drive_ok [OF pol] applied_cond_True obtain q
      where "v_lastPool v = Some q" "\<not> membersChanged (pool_Members q) des" by (metis (full_types) old.unit.exhaust)
    with Ok m assms(2) show ?thesis
      by (simp add: waitPoolMembersApplied_def bindM_def run_closure_def retM_def) blast
  qed (use m assms(2) in \<open>auto simp: waitPoolMembersApplied_def bindM_def run_closure_def retM_def split: option.splits\<close>)
qed

section \<open>The phases\<close>

definition ensures_pools :: "string \<Rightarrow> api_call \<Rightarrow> bool" where
  "ensures_pools lbID e \<longleftrightarrow> is_get lbID e \<or> (\<exists>o'. e = PL (Pool_List o')) \<or>
     (\<exists>req. e = PL (Pool_Create req)) \<or> (\<exists>i. e = PL (Pool_Get i))"

lemma ensure_pool_only:
  assumes "drivers (l_client l)"
  shows "only calls (ensures_pools (lb_ID lb)) (ensure_pool l lb listeners opts m sp acc)"
  unfolding ensure_pool_def Let_def
  by (cases acc, simp only: case_prod_conv)
    (intro emits_intros only_mono [OF createPool_only] only_mono [OF wait_active_only [OF assms]];
      auto simp: ensures_pools_def)

lemma ensureLoadBalancerPools_only:
  assumes "drivers (l_client l)"
  shows "only calls (ensures_pools (lb_ID lb)) (ensureLoadBalancerPools l lb svc listeners opts)"
  unfolding ensureLoadBalancerPools_def listPoolsByLoadBalancerID_def
  by (intro emits_intros ensure_pool_only assms) (auto simp: ensures_pools_def)

text \<open>The result of the phase, whatever the API answered.\<close>

lemma ensure_pool_Ok:
  assumes "ensure_pool l lb listeners opts m sp (result, used) s = (Ok (result', used'), s')"
  shows "\<exists>pool. result' = result(servicePortKey sp \<mapsto> pool) \<and> used' = pool_ID pool # used"
  using assms unfolding ensure_pool_def
  by (auto simp: Let_def retM_def failM_def derefM_def panicM_def split: option.splits elim!: bindM_OkE)

lemma foldM_Ok_induct:
  assumes "foldM f xs acc s = (Ok acc', s')" "I [] acc"
    and "\<And>done x rest a a' s s'. xs = done @ x # rest \<Longrightarrow> I done a \<Longrightarrow> f x a s = (Ok a', s') \<Longrightarrow> I (done @ [x]) a'"
  shows "I xs acc'"
proof -
  have "I xs acc'" if "xs = done @ rest" "I done a" "foldM f rest a s = (Ok acc', s')" for rest "done" a s
    using that
  proof (induction rest arbitrary: "done" a s)
    case Nil
    then show ?case by (simp add: retM_def)
  next
    case (Cons x rest)
    from Cons.prems(3) obtain a1 s1 where "f x a s = (Ok a1, s1)" "foldM f rest a1 s1 = (Ok acc', s')"
      by (auto elim: bindM_OkE)
    with Cons.IH [of "done @ [x]" a1 s1] Cons.prems assms(3) show ?case by simp
  qed
  from this [of "[]" xs acc s] assms(1,2) show ?thesis by simp
qed

lemma ran_update_subset: "ran (m(k \<mapsto> v)) \<subseteq> insert v (ran m)"
  by (auto simp: ran_def)

lemma ensureLoadBalancerPools_Ok:
  assumes "ensureLoadBalancerPools l lb svc listeners opts s = (Ok (result, obsolete), s')"
  shows "dom result = servicePortKey ` set (svc_Ports svc) \<and>
    (\<forall>p \<in> set obsolete. \<forall>q \<in> ran result. pool_ID p \<noteq> pool_ID q)"
proof -
  from assms obtain allPools s1 used s2 where
    fold: "foldM (ensure_pool l lb listeners opts (pools_by_listener allPools)) (svc_Ports svc) (Map.empty, []) s1 =
      (Ok (result, used), s2)" and ob: "obsolete = filter (\<lambda>pool. pool_ID pool \<notin> set used) allPools"
    unfolding ensureLoadBalancerPools_def by (auto simp: retM_def elim!: bindM_OkE)
  let ?I = "\<lambda>done (result, used). dom result = servicePortKey ` set done \<and> pool_ID ` ran result \<subseteq> set used"
  have "?I (svc_Ports svc) (result, used)"
  proof (rule foldM_Ok_induct [OF fold])
    fix "done" x rest a a' s s'
    assume I: "?I done a" and step: "ensure_pool l lb listeners opts (pools_by_listener allPools) x a s = (Ok a', s')"
    obtain res us where a: "a = (res, us)" by fastforce
    obtain pool where a': "a' = (res(servicePortKey x \<mapsto> pool), pool_ID pool # us)"
      using ensure_pool_Ok step unfolding a by (metis prod.exhaust)
    have "pool_ID ` ran (res(servicePortKey x \<mapsto> pool)) \<subseteq> pool_ID ` insert pool (ran res)"
      by (rule image_mono) (rule ran_update_subset)
    also have "\<dots> \<subseteq> set (pool_ID pool # us)" using I a by auto
    finally have "pool_ID ` ran (res(servicePortKey x \<mapsto> pool)) \<subseteq> set (pool_ID pool # us)" .
    with I a show "?I (done @ [x]) a'" by (simp add: a')
  qed simp
  with ob show ?thesis by force
qed

definition updates_members :: "loadbalancer \<Rightarrow> service \<Rightarrow> service_options \<Rightarrow> node list \<Rightarrow> api_call \<Rightarrow> bool" where
  "updates_members lb svc opts nodes e \<longleftrightarrow> is_get (lb_ID lb) e \<or> (\<exists>i. e = PL (Pool_Get i)) \<or>
     (\<exists>p ips. \<exists>sp \<in> set (svc_Ports svc). node_addresses nodes = Ok ips \<and>
        e = PL (Pool_Update (pool_ID p) (update_request p (desired_members opts sp ips))))"

lemma reconcile_port_only:
  assumes "drivers (l_client l)" "sp \<in> set (svc_Ports svc)" "node_addresses nodes = Ok ips"
  shows "only calls (updates_members lb svc opts nodes) (reconcile_port l lb opts ips sp pools)"
  unfolding reconcile_port_def Let_def
  by (intro emits_intros only_mono [OF updatePool_only [OF assms(1)]] only_mono [OF waitPoolMembersApplied_only [OF assms(1)]])
    (use assms(2,3) in \<open>auto simp: updates_members_def\<close>)

lemma always_liftM_bind:
  assumes "trace_property R" "\<And>x. r = Ok x \<Longrightarrow> always tr R (k x)"
  shows "always tr R (bindM (liftM r) k)"
proof (cases r)
  case (Ok x)
  then have "bindM (liftM r) k = k x" by (intro ext) (simp add: bindM_def liftM_def)
  with Ok assms(2) show ?thesis by simp
next
  case (Err e)
  then have "bindM (liftM r) k = failM e" by (intro ext) (simp add: bindM_def liftM_def failM_def)
  then show ?thesis using trace_property.always_failM [OF assms(1)] by simp
next
  case (Panic p)
  then have "bindM (liftM r) k = panicM p" by (intro ext) (simp add: bindM_def liftM_def panicM_def)
  then show ?thesis using trace_property.always_panicM [OF assms(1)] by simp
qed

lemma reconcilePoolMembers_only:
  assumes "drivers (l_client l)"
  shows "only calls (updates_members lb svc opts nodes) (reconcilePoolMembers l lb svc pools opts nodes)"
  unfolding reconcilePoolMembers_def
  by (rule always_liftM_bind [OF only.trace_property_axioms]) (intro emits_intros reconcile_port_only assms)

lemma reconcilePoolMembers_guarded:
  assumes "drivers (l_client l)"
  shows "always calls (guarded (lb_ID lb) retried False) (reconcilePoolMembers l lb svc pools opts nodes)"
  unfolding reconcilePoolMembers_def reconcile_port_def Let_def
  by (intro emits_intros updatePool_guarded only_guarded only_mono [OF waitPoolMembersApplied_only [OF assms]] assms)
    (auto simp: is_get_not_retried)

lemma reconcile_port_Ok:
  assumes "drivers (l_client l)" "reconcile_port l lb opts ips sp pools s = (Ok pools', s')"
  shows "(\<exists>p. pools' (servicePortKey sp) = Some p \<and> \<not> membersChanged (pool_Members p) (desired_members opts sp ips)) \<and>
    (\<forall>k. k \<noteq> servicePortKey sp \<longrightarrow> pools' k = pools k)"
  using assms(2) unfolding reconcile_port_def Let_def
  by (auto simp: retM_def failM_def split: option.splits if_splits elim!: bindM_OkE
      dest!: waitPoolMembersApplied_Ok [OF assms(1)])

lemma reconcilePoolMembers_Ok:
  assumes "drivers (l_client l)" "distinct (map servicePortKey (svc_Ports svc))"
    and "reconcilePoolMembers l lb svc pools opts nodes s = (Ok pools', s')"
  shows "\<exists>ips. node_addresses nodes = Ok ips \<and> (\<forall>sp \<in> set (svc_Ports svc). \<exists>p. pools' (servicePortKey sp) = Some p \<and>
    \<not> membersChanged (pool_Members p) (desired_members opts sp ips))"
proof -
  from assms(3) obtain ips s1 where ips: "node_addresses nodes = Ok ips"
    and fold: "foldM (reconcile_port l lb opts ips) (svc_Ports svc) pools s1 = (Ok pools', s')"
    unfolding reconcilePoolMembers_def by (auto simp: liftM_def elim!: bindM_OkE)
  have "\<forall>sp \<in> set (svc_Ports svc). \<exists>p. pools' (servicePortKey sp) = Some p \<and>
      \<not> membersChanged (pool_Members p) (desired_members opts sp ips)"
  proof (rule foldM_Ok_induct [OF fold])
    fix "done" x rest a a' s s'
    assume ports: "svc_Ports svc = done @ x # rest"
      and I: "\<forall>sp \<in> set done. \<exists>p. a (servicePortKey sp) = Some p \<and> \<not> membersChanged (pool_Members p) (desired_members opts sp ips)"
      and step: "reconcile_port l lb opts ips x a s = (Ok a', s')"
    have "servicePortKey sp \<noteq> servicePortKey x" if "sp \<in> set done" for sp
      using assms(2) that unfolding ports by (auto simp: image_iff)
    with I reconcile_port_Ok [OF assms(1) step]
    show "\<forall>sp \<in> set (done @ [x]). \<exists>p. a' (servicePortKey sp) = Some p \<and> \<not> membersChanged (pool_Members p) (desired_members opts sp ips)"
      by auto
  qed simp
  with ips show ?thesis by blast
qed

lemma reconcilePoolMembers_nodePort:
  assumes "reconcilePoolMembers l lb svc pools opts nodes s = (Ok pools', s')" "sp \<in> set (svc_Ports svc)"
  shows "sp_NodePort sp \<noteq> 0"
proof -
  from assms(1) obtain ips s1 where
    fold: "foldM (reconcile_port l lb opts ips) (svc_Ports svc) pools s1 = (Ok pools', s')"
    unfolding reconcilePoolMembers_def by (auto simp: liftM_def elim!: bindM_OkE)
  have "\<forall>sp \<in> set (svc_Ports svc). sp_NodePort sp \<noteq> 0"
    by (rule foldM_Ok_induct [OF fold, where I = "\<lambda>done _. \<forall>sp \<in> set done. sp_NodePort sp \<noteq> 0"])
      (auto simp: reconcile_port_def Let_def failM_def split: option.splits if_splits)
  with assms(2) show ?thesis by blast
qed

text \<open>When nothing differs, the phase makes no call.\<close>

lemma reconcilePoolMembers_noop:
  assumes "node_addresses nodes = Ok ips"
    and "\<And>sp. sp \<in> set (svc_Ports svc) \<Longrightarrow> sp_NodePort sp \<noteq> 0 \<and>
      (\<exists>p. pools (servicePortKey sp) = Some p \<and> \<not> membersChanged (pool_Members p) (desired_members opts sp ips))"
  shows "reconcilePoolMembers l lb svc pools opts nodes s = (Ok pools, s)"
proof -
  have "foldM (reconcile_port l lb opts ips) ports pools s = (Ok pools, s)" if "set ports \<subseteq> set (svc_Ports svc)" for ports
    using that
  proof (induction ports)
    case Nil
    then show ?case by (simp add: retM_def)
  next
    case (Cons sp ports)
    then show ?case using assms(2) [of sp] by (auto simp: reconcile_port_def bindM_def retM_def Let_def)
  qed
  then show ?thesis by (simp add: reconcilePoolMembers_def bindM_def liftM_def assms(1))
qed

section \<open>Properties\<close>

text \<open>C32: the members of a pool are reported as changed exactly when the multisets of the keys (address,
  port, subnet) differ, provided that no key is wanted twice.\<close>

theorem members_changed_is_multiset_inequality:
  assumes "distinct (map poolMemberCreateKey desired)"
  shows "membersChanged current desired \<longleftrightarrow>
    mset (map poolMemberKey current) \<noteq> mset (map poolMemberCreateKey desired)"
  using assms by (rule membersChanged_mset)

definition example_member :: "ip \<Rightarrow> pool_member" where
  "example_member a = \<lparr>pm_ID = ''m'', pm_Address = a, pm_ProtocolPort = 80, pm_SubnetID = ''subnet-1''\<rparr>"

definition example_request :: "ip \<Rightarrow> pool_member_create_request" where
  "example_request a = \<lparr>pmc_Address = a, pmc_ProtocolPort = 80, pmc_SubnetID = ''subnet-1''\<rparr>"

lemma members_changed_is_multiset_inequality_witness:
  "\<not> membersChanged [example_member [10, 0, 0, 2], example_member [10, 0, 0, 1]]
     [example_request [10, 0, 0, 1], example_request [10, 0, 0, 2]]"
proof -
  have "poolMemberCreateKey (example_request [10, 0, 0, 1]) \<noteq> poolMemberCreateKey (example_request [10, 0, 0, 2])"
    by code_simp
  moreover have "poolMemberKey (example_member a) = poolMemberCreateKey (example_request a)" for a
    by (simp add: example_member_def example_request_def poolMemberKey_def poolMemberCreateKey_def)
  ultimately show ?thesis
    by (subst members_changed_is_multiset_inequality) (simp_all add: add_mset_commute)
qed

text \<open>Removing a member in place, by swapping in the last one, removes exactly the members with the
  address and port, whatever their number, and \<open>memberExists\<close> does not find it afterwards.\<close>

theorem pop_member_removes:
  "mset (popMember ms addr port) =
     filter_mset (\<lambda>m. \<not> (ip_string (pm_Address m) = addr \<and> pm_ProtocolPort m = port)) (mset ms) \<and>
   \<not> memberExists (popMember ms addr port) addr port"
proof
  show *: "mset (popMember ms addr port) = filter_mset (\<lambda>m. \<not> matches addr port m) (mset ms)" by (rule mset_popMember)
  then have "set (popMember ms addr port) = {m \<in> set ms. \<not> matches addr port m}"
    by (metis mset_filter set_filter set_mset_mset)
  then show "\<not> memberExists (popMember ms addr port) addr port" by (auto simp: memberExists_iff)
qed

end
