(* ===== verification/Listeners.thy ===== *)
theory Listeners
  imports Pools
begin

text \<open>
  Listeners: \<^verbatim>\<open>loadbalancer_listeners.go\<close>. The phase \<open>ensureLoadBalancerListeners\<close> is a loop over the
  service ports that creates or updates one listener per port and collects those that are not used.
  When the listener cannot be read back, the source formats the error with the ID of the nil listener
  it has just been given, which panics; the model has that panic.
\<close>

section \<open>Pure operations\<close>

definition resolveListenerProtocol :: "string \<Rightarrow> bool \<Rightarrow> string \<Rightarrow> string" where
  "resolveListenerProtocol protocol keepClientIP secretID =
     (if secretID \<noteq> [] then ListenerProtocolTerminatedHTTPS
      else if keepClientIP then ListenerProtocolHTTP
      else if protocol = ProtocolTCP then ListenerProtocolTCP
      else if protocol = ProtocolUDP then ListenerProtocolUDP
      else ListenerProtocolTCP)"

fun find_listener :: "string \<Rightarrow> int \<Rightarrow> listener list \<Rightarrow> listener option" where
  "find_listener wantProtocol port [] = None"
| "find_listener wantProtocol port (ln # lns) =
     (if ln_Protocol ln = wantProtocol \<and> ln_ProtocolPort ln = port then Some ln
      else find_listener wantProtocol port lns)"

definition findListenerForServicePort ::
    "listener list \<Rightarrow> service_port \<Rightarrow> service_options \<Rightarrow> listener option" where
  "findListenerForServicePort existing sp opts =
     find_listener (resolveListenerProtocol (sp_Protocol sp) (so_KeepClientIP opts) (so_SecretID opts))
       (sp_Port sp) existing"

definition buildListenerCreateRequest ::
    "string \<Rightarrow> string \<Rightarrow> service_port \<Rightarrow> service_options \<Rightarrow> listener_create_request" where
  "buildListenerCreateRequest lbID lbName sp opts =
     (let timeout = (\<lambda>f. case so_Timeouts opts of None \<Rightarrow> None | Some t \<Rightarrow> f t) in
      \<lparr>lnc_Name = buildListenerName lbName sp,
       lnc_Protocol = resolveListenerProtocol (sp_Protocol sp) (so_KeepClientIP opts) (so_SecretID opts),
       lnc_ProtocolPort = sp_Port sp,
       lnc_LoadbalancerID = lbID,
       lnc_InsertXForwarded = so_KeepClientIP opts,
       lnc_SecretID = so_SecretID opts,
       lnc_TimeoutClientData = timeout lt_TimeoutClientData,
       lnc_TimeoutMemberData = timeout lt_TimeoutMemberData,
       lnc_TimeoutMemberConnect = timeout lt_TimeoutMemberConnect\<rparr>)"

text \<open>The first half of \<^verbatim>\<open>updateListenerIfNeeded\<close>: the request and whether it is needed.\<close>

definition listener_update :: "listener \<Rightarrow> service_options \<Rightarrow> listener_update_request \<times> bool" where
  "listener_update ln opts =
     (let req = \<lparr>lnu_Name = [], lnu_SecretID = [], lnu_TimeoutClientData = None,
            lnu_TimeoutMemberData = None, lnu_TimeoutMemberConnect = None\<rparr>;
          (req, need) = (case so_Timeouts opts of
            None \<Rightarrow> (req, False)
          | Some t \<Rightarrow>
              (let (req, need) = (if \<not> intPtrEqual (ln_TimeoutClientData ln) (lt_TimeoutClientData t)
                     then (req\<lparr>lnu_TimeoutClientData := lt_TimeoutClientData t\<rparr>, True) else (req, False));
                   (req, need) = (if \<not> intPtrEqual (ln_TimeoutMemberData ln) (lt_TimeoutMemberData t)
                     then (req\<lparr>lnu_TimeoutMemberData := lt_TimeoutMemberData t\<rparr>, True) else (req, need))
               in (if \<not> intPtrEqual (ln_TimeoutMemberConnect ln) (lt_TimeoutMemberConnect t)
                     then (req\<lparr>lnu_TimeoutMemberConnect := lt_TimeoutMemberConnect t\<rparr>, True) else (req, need))))
      in (if ln_SecretID ln \<noteq> so_SecretID opts then (req\<lparr>lnu_SecretID := so_SecretID opts\<rparr>, True)
          else (req, need)))"

fun pop_index :: "string \<Rightarrow> listener list \<Rightarrow> nat \<Rightarrow> nat option" where
  "pop_index i [] n = None"
| "pop_index i (ln # lns) n = (if ln_ID ln = i then Some n else pop_index i lns (n + 1))"

definition popListener :: "listener list \<Rightarrow> string \<Rightarrow> listener list" where
  "popListener existingListeners i = (case pop_index i existingListeners 0 of
     None \<Rightarrow> existingListeners
   | Some n \<Rightarrow> take (length existingListeners - 1)
       (existingListeners[n := existingListeners ! (length existingListeners - 1)]))"

section \<open>API operations\<close>

definition getListenersByLoadBalancerID :: "'w client \<Rightarrow> string \<Rightarrow> ('w st, listener list) prog" where
  "getListenersByLoadBalancerID c lbID =
     call (\<lambda>_. LB (Listener_List lbID)) (api_listener_list (Loadbalancers c) lbID)"

definition listener_get :: "'w client \<Rightarrow> string \<Rightarrow> ('w st, listener) prog" where
  "listener_get c i = call (\<lambda>_. LB (Listener_Get i)) (api_listener_get (Loadbalancers c) i)"

definition getListenerByID :: "'w lbaas \<Rightarrow> string \<Rightarrow> ('w st, listener) prog" where
  "getListenerByID l i = listener_get (l_client l) i"

definition createListener :: "'w lbaas \<Rightarrow> listener_create_request \<Rightarrow> ('w st, listener) prog" where
  "createListener l opts =
     bindM (wrapM (Wrapf (''failed to create listener for loadbalancer '' @ lnc_LoadbalancerID opts @ '': ''))
       (call (\<lambda>_. LB (Listener_Create opts)) (api_listener_create (Loadbalancers (l_client l)) opts))) (\<lambda>task.
     bindM (firstM (task_Listeners task)) (\<lambda>i.
       wrapM (Wrapf (''cannot get loadbalancer listener with ID: '' @ i @ ''. Error: ''))
         (listener_get (l_client l) i)))"

definition deleteListener :: "'w lbaas \<Rightarrow> string \<Rightarrow> ('w st, unit) prog" where
  "deleteListener l listenerID =
     bindM (wrapM (Wrapf (''deleteListener: failed to delete listener '' @ quoted listenerID @ '': ''))
       (call (\<lambda>_. LB (Listener_Delete listenerID)) (api_listener_delete (Loadbalancers (l_client l)) listenerID)))
     (\<lambda>task.
       case task_Listeners task of
         [] \<Rightarrow> retM ()
       | remaining # _ \<Rightarrow>
           bindM (wrapM (Wrapf (''deleteListener: failed to check existence of listener '' @ quoted remaining @ '': ''))
             (call (\<lambda>r. LB (Listener_Exists remaining r)) (api_listener_exists (Loadbalancers (l_client l)) remaining)))
           (\<lambda>isExist. if \<not> isExist then retM ()
             else failM (Errorf (''deleteListener: listener '' @ quoted remaining @ '' still exists after deletion attempt''))))"

definition deleteListenerWithRetry :: "'w lbaas \<Rightarrow> string \<Rightarrow> string \<Rightarrow> ('w st, unit) prog" where
  "deleteListenerWithRetry l lbID listenerID =
     runLBOperationWithRetry (l_client l) lbID ''ListenerDelete'' listenerID (deleteListener l listenerID)"

definition updateListenerIfNeeded ::
    "'w lbaas \<Rightarrow> string \<Rightarrow> listener \<Rightarrow> service_options \<Rightarrow> ('w st, unit) prog" where
  "updateListenerIfNeeded l lbID ln opts =
     (let (updateReq, needsUpdate) = listener_update ln opts in
      if \<not> needsUpdate then retM ()
      else (let updateReq = updateReq\<lparr>lnu_Name := ln_Name ln\<rparr> in
        bindM (wrapM (flatten (''failed updating listener '' @ ln_ID ln @ '': ''))
          (call (\<lambda>_. LB (Listener_Update (ln_ID ln) updateReq))
            (api_listener_update (Loadbalancers (l_client l)) (ln_ID ln) updateReq))) (\<lambda>_.
          wrapM (flatten ''LB not ACTIVE after listener update: '') (wait_active (l_client l) lbID))))"

definition ensureListenerDeleted :: "'w lbaas \<Rightarrow> loadbalancer \<Rightarrow> listener \<Rightarrow> ('w st, unit) prog" where
  "ensureListenerDeleted l lb ln =
     bindM (tryM (getPoolByListenerID (l_client l) (lb_ID lb) (ln_ID ln) False)
       (\<lambda>e. if \<not> errors_Is e ErrNotFound
         then failM (flatten (''error getting pool for obsolete listener '' @ ln_ID ln @ '': '') e)
         else retM None)
       (\<lambda>pool. retM (Some pool))) (\<lambda>p.
     bindM (case p of
         Some pool \<Rightarrow>
           wrapM (flatten (''error deleting obsolete pool '' @ pool_ID pool @ '' for listener '' @ ln_ID ln @ '': ''))
             (deletePoolWithRetry l (lb_ID lb) (pool_ID pool))
       | None \<Rightarrow> retM ()) (\<lambda>_.
       wrapM (flatten (''error deleting obsolete listener '' @ ln_ID ln @ '': ''))
         (deleteListenerWithRetry l (lb_ID lb) (ln_ID ln))))"

section \<open>The listeners phase\<close>

definition ensure_listener ::
    "'w lbaas \<Rightarrow> loadbalancer \<Rightarrow> listener list \<Rightarrow> service_options \<Rightarrow> service_port \<Rightarrow>
     (string \<rightharpoonup> listener) \<times> string list \<Rightarrow> ('w st, (string \<rightharpoonup> listener) \<times> string list) prog" where
  "ensure_listener l lb existing opts port = (\<lambda>(result, used).
     (let key = servicePortKey port in
      bindM (case findListenerForServicePort existing port opts of
          None \<Rightarrow>
            bindM (wrapM (Wrapf (''failed to create listener for key='' @ key @ '': ''))
              (createListener l (buildListenerCreateRequest (lb_ID lb) (lb_Name lb) port opts))) (\<lambda>ln.
            bindM (wrapM (flatten (''LB not ACTIVE after listener create for key='' @ key @ '': ''))
              (wait_active (l_client l) (lb_ID lb))) (\<lambda>_.
              tryM (getListenerByID l (ln_ID ln)) (\<lambda>_. panicM ''nil pointer dereference'') retM))
        | Some ln \<Rightarrow>
            bindM (wrapM (Wrapf (''failed updating listener for key='' @ key @ '': ''))
              (updateListenerIfNeeded l (lb_ID lb) ln opts)) (\<lambda>_.
              tryM (getListenerByID l (ln_ID ln)) (\<lambda>_. panicM ''nil pointer dereference'') retM)) (\<lambda>ln.
        retM (result(key \<mapsto> ln), ln_ID ln # used))))"

definition ensureLoadBalancerListeners ::
    "'w lbaas \<Rightarrow> loadbalancer \<Rightarrow> service_port list \<Rightarrow> service_options \<Rightarrow>
     ('w st, (string \<rightharpoonup> listener) \<times> listener list) prog" where
  "ensureLoadBalancerListeners l lb ports opts =
     bindM (wrapM (Wrapf (''error getting LB '' @ lb_Name lb @ '' listeners: ''))
       (getListenersByLoadBalancerID (l_client l) (lb_ID lb))) (\<lambda>existing.
     bindM (foldM (ensure_listener l lb existing opts) ports (Map.empty, [])) (\<lambda>(result, used).
       retM (result, filter (\<lambda>ln. ln_ID ln \<notin> set used) existing)))"

text \<open>The two cleanup loops.\<close>

definition deleteObsoleteListenersAndPools ::
    "'w lbaas \<Rightarrow> loadbalancer \<Rightarrow> listener list \<Rightarrow> pool list \<Rightarrow> ('w st, unit) prog" where
  "deleteObsoleteListenersAndPools l lb obsoleteListeners obsoletePools =
     bindM (foldM (\<lambda>pool _. wrapM (Wrapf (''failed to delete obsolete pool '' @ pool_ID pool @ '': ''))
         (deletePoolWithRetry l (lb_ID lb) (pool_ID pool))) obsoletePools ()) (\<lambda>_.
       foldM (\<lambda>ln _. wrapM (Wrapf (''failed to delete obsolete listener '' @ ln_ID ln @ '': ''))
         (deleteListenerWithRetry l (lb_ID lb) (ln_ID ln))) obsoleteListeners ())"

section \<open>Calls of the operations\<close>

lemma listener_get_only [emits_intros]: "P (LB (Listener_Get i)) \<Longrightarrow> only calls P (listener_get c i)"
  unfolding listener_get_def by (intro emits_intros) simp

lemma deleteListener_emits:
  "emits calls (deleteListener l i) (\<lambda>r es. \<exists>xs. es = LB (Listener_Delete i) # xs \<and>
     list_all (\<lambda>e. \<exists>j x. e = LB (Listener_Exists j x)) xs \<and>
     (r = Ok () \<longrightarrow> xs = [] \<or> (\<exists>j. xs = [LB (Listener_Exists j (Ok False))])))"
  unfolding deleteListener_def by (intro wp) auto

definition deletes_listener :: "string \<Rightarrow> string \<Rightarrow> api_call \<Rightarrow> bool" where
  "deletes_listener lbID i e \<longleftrightarrow> is_get lbID e \<or> e = LB (Listener_Delete i) \<or> (\<exists>j x. e = LB (Listener_Exists j x))"

lemma deleteListenerWithRetry_only:
  assumes "drivers (l_client l)"
  shows "only calls (deletes_listener lbID i) (deleteListenerWithRetry l lbID i)"
  unfolding deleteListenerWithRetry_def
  by (rule runLB_only [OF assms], rule always_emits [OF deleteListener_emits])
    (fastforce simp: deletes_listener_def list_all_iff)+

lemma deleteListenerWithRetry_guarded:
  assumes "drivers (l_client l)"
  shows "always calls (guarded lbID retried False) (deleteListenerWithRetry l lbID i)"
  unfolding deleteListenerWithRetry_def
proof (rule runLB_guarded [OF assms], rule emits_weaken [OF deleteListener_emits], elim exE conjE)
  fix r es xs
  assume es: "es = LB (Listener_Delete i) # xs" and "list_all (\<lambda>e. \<exists>j x. e = LB (Listener_Exists j x)) xs"
  from this(2) have "list_all (\<lambda>e. \<not> retried e) xs" by (rule list.pred_mono_strong) auto
  then show "guarded lbID retried True es" unfolding es by (simp add: guarded_free)
qed

definition updates_listener :: "string \<Rightarrow> listener \<Rightarrow> service_options \<Rightarrow> api_call \<Rightarrow> bool" where
  "updates_listener lbID ln opts e \<longleftrightarrow> is_get lbID e \<or>
     snd (listener_update ln opts) \<and>
     e = LB (Listener_Update (ln_ID ln) ((fst (listener_update ln opts))\<lparr>lnu_Name := ln_Name ln\<rparr>))"

lemma updateListenerIfNeeded_only:
  assumes "drivers (l_client l)"
  shows "only calls (updates_listener lbID ln opts) (updateListenerIfNeeded l lbID ln opts)"
  unfolding updateListenerIfNeeded_def Let_def
  by (cases "listener_update ln opts")
    (simp, intro impI conjI emits_intros only_mono [OF wait_active_only [OF assms]]; simp add: updates_listener_def)

lemma createListener_only:
  "only calls (\<lambda>e. e = LB (Listener_Create req) \<or> (\<exists>i. e = LB (Listener_Get i))) (createListener l req)"
  unfolding createListener_def by (intro emits_intros) auto

section \<open>The listeners phase\<close>

definition ensures_listeners ::
    "loadbalancer \<Rightarrow> service_port list \<Rightarrow> service_options \<Rightarrow> api_call \<Rightarrow> bool" where
  "ensures_listeners lb ports opts e \<longleftrightarrow> is_get (lb_ID lb) e \<or> e = LB (Listener_List (lb_ID lb)) \<or>
     (\<exists>i. e = LB (Listener_Get i)) \<or> (\<exists>i req. e = LB (Listener_Update i req)) \<or>
     (\<exists>sp \<in> set ports. e = LB (Listener_Create (buildListenerCreateRequest (lb_ID lb) (lb_Name lb) sp opts)))"

lemma ensure_listener_only:
  assumes "drivers (l_client l)" "sp \<in> set ports"
  shows "only calls (ensures_listeners lb ports opts) (ensure_listener l lb existing opts sp acc)"
  unfolding ensure_listener_def Let_def getListenerByID_def
  by (cases acc, simp only: case_prod_conv)
    (intro emits_intros only_mono [OF createListener_only] only_mono [OF wait_active_only [OF assms(1)]]
      only_mono [OF updateListenerIfNeeded_only [OF assms(1)]];
      use assms(2) in \<open>auto simp: ensures_listeners_def updates_listener_def\<close>)

lemma ensureLoadBalancerListeners_only:
  assumes "drivers (l_client l)"
  shows "only calls (ensures_listeners lb ports opts) (ensureLoadBalancerListeners l lb ports opts)"
  unfolding ensureLoadBalancerListeners_def getListenersByLoadBalancerID_def
  by (intro emits_intros ensure_listener_only assms) (auto simp: ensures_listeners_def)

lemma ensure_listener_Ok:
  assumes "ensure_listener l lb existing opts sp (result, used) s = (Ok (result', used'), s')"
  shows "\<exists>ln. result' = result(servicePortKey sp \<mapsto> ln) \<and> used' = ln_ID ln # used"
  using assms unfolding ensure_listener_def by (auto simp: Let_def retM_def elim!: bindM_OkE)

lemma ensureLoadBalancerListeners_Ok:
  assumes "ensureLoadBalancerListeners l lb ports opts s = (Ok (result, obsolete), s')"
  shows "dom result = servicePortKey ` set ports \<and> (\<forall>p \<in> set obsolete. \<forall>q \<in> ran result. ln_ID p \<noteq> ln_ID q)"
proof -
  from assms obtain existing s1 used s2 where
    fold: "foldM (ensure_listener l lb existing opts) ports (Map.empty, []) s1 = (Ok (result, used), s2)"
    and ob: "obsolete = filter (\<lambda>ln. ln_ID ln \<notin> set used) existing"
    unfolding ensureLoadBalancerListeners_def by (auto simp: retM_def elim!: bindM_OkE)
  let ?I = "\<lambda>done (result, used). dom result = servicePortKey ` set done \<and> ln_ID ` ran result \<subseteq> set used"
  have "?I ports (result, used)"
  proof (rule foldM_Ok_induct [OF fold])
    fix "done" x rest a a' s s'
    assume I: "?I done a" and step: "ensure_listener l lb existing opts x a s = (Ok a', s')"
    obtain res us where a: "a = (res, us)" by fastforce
    obtain ln where a': "a' = (res(servicePortKey x \<mapsto> ln), ln_ID ln # us)"
      using ensure_listener_Ok step unfolding a by (metis prod.exhaust)
    have "ln_ID ` ran (res(servicePortKey x \<mapsto> ln)) \<subseteq> ln_ID ` insert ln (ran res)"
      by (rule image_mono) (rule ran_update_subset)
    also have "\<dots> \<subseteq> set (ln_ID ln # us)" using I a by auto
    finally have "ln_ID ` ran (res(servicePortKey x \<mapsto> ln)) \<subseteq> set (ln_ID ln # us)" .
    with I a show "?I (done @ [x]) a'" by (simp add: a')
  qed simp
  with ob show ?thesis by force
qed

section \<open>Cleanup\<close>

definition cleans_up :: "string \<Rightarrow> listener list \<Rightarrow> pool list \<Rightarrow> api_call \<Rightarrow> bool" where
  "cleans_up lbID lns ps e \<longleftrightarrow> (\<exists>p \<in> set ps. deletes_pool lbID (pool_ID p) e) \<or>
     (\<exists>ln \<in> set lns. deletes_listener lbID (ln_ID ln) e)"

lemma deleteObsolete_only:
  assumes "drivers (l_client l)"
  shows "only calls (cleans_up (lb_ID lb) lns ps) (deleteObsoleteListenersAndPools l lb lns ps)"
  unfolding deleteObsoleteListenersAndPools_def
  by (intro emits_intros only_mono [OF deletePoolWithRetry_only [OF assms]]
      only_mono [OF deleteListenerWithRetry_only [OF assms]]) (auto simp: cleans_up_def)

lemma deleteObsolete_guarded:
  assumes "drivers (l_client l)"
  shows "always calls (guarded (lb_ID lb) retried False) (deleteObsoleteListenersAndPools l lb lns ps)"
  unfolding deleteObsoleteListenersAndPools_def
  by (intro emits_intros deletePoolWithRetry_guarded deleteListenerWithRetry_guarded assms)

definition deletes_listener_and_pool :: "string \<Rightarrow> string \<Rightarrow> api_call \<Rightarrow> bool" where
  "deletes_listener_and_pool lbID i e \<longleftrightarrow> deletes_listener lbID i e \<or> (\<exists>pid. deletes_pool lbID pid e) \<or>
     e = PL (Pool_List \<lparr>pl_LoadbalancerID = lbID, pl_ListenerID = i, pl_Details = False\<rparr>)"

lemma ensureListenerDeleted_only:
  assumes "drivers (l_client l)"
  shows "only calls (deletes_listener_and_pool (lb_ID lb) (ln_ID ln)) (ensureListenerDeleted l lb ln)"
  unfolding ensureListenerDeleted_def
  by (intro emits_intros only_mono [OF deletePoolWithRetry_only [OF assms]]
      only_mono [OF deleteListenerWithRetry_only [OF assms]]) (auto simp: deletes_listener_and_pool_def)

lemma ensureListenerDeleted_guarded:
  assumes "drivers (l_client l)"
  shows "always calls (guarded (lb_ID lb) retried False) (ensureListenerDeleted l lb ln)"
  unfolding ensureListenerDeleted_def
  by (intro emits_intros deletePoolWithRetry_guarded deleteListenerWithRetry_guarded only_guarded assms) simp

section \<open>Matching and updating a listener\<close>

lemma find_listener_Some:
  "find_listener p port lns = Some ln \<Longrightarrow> ln \<in> set lns \<and> ln_Protocol ln = p \<and> ln_ProtocolPort ln = port"
  by (induction lns) (auto split: if_splits)

lemma find_listener_None:
  "find_listener p port lns = None \<longleftrightarrow> (\<forall>ln \<in> set lns. ln_Protocol ln \<noteq> p \<or> ln_ProtocolPort ln \<noteq> port)"
  by (induction lns) auto

text \<open>The settings a listener should have, where the service says something about them.\<close>

definition timeouts_of :: "listener \<Rightarrow> listener_timeouts" where
  "timeouts_of ln = \<lparr>lt_TimeoutClientData = ln_TimeoutClientData ln, lt_TimeoutMemberData = ln_TimeoutMemberData ln,
     lt_TimeoutMemberConnect = ln_TimeoutMemberConnect ln\<rparr>"

lemma listener_update_needed:
  "snd (listener_update ln opts) \<longleftrightarrow>
     so_Timeouts opts \<notin> {None, Some (timeouts_of ln)} \<or> ln_SecretID ln \<noteq> so_SecretID opts"
proof (cases "so_Timeouts opts")
  case None
  then show ?thesis by (simp add: listener_update_def Let_def)
next
  case (Some t)
  then show ?thesis
    by (cases t) (simp add: listener_update_def Let_def intPtrEqual_iff timeouts_of_def; auto)
qed

lemma listener_update_request:
  assumes "so_Timeouts opts = Some t"
  shows "fst (listener_update ln opts) = \<lparr>lnu_Name = [],
     lnu_SecretID = (if ln_SecretID ln \<noteq> so_SecretID opts then so_SecretID opts else []),
     lnu_TimeoutClientData = (if ln_TimeoutClientData ln \<noteq> lt_TimeoutClientData t then lt_TimeoutClientData t else None),
     lnu_TimeoutMemberData = (if ln_TimeoutMemberData ln \<noteq> lt_TimeoutMemberData t then lt_TimeoutMemberData t else None),
     lnu_TimeoutMemberConnect =
       (if ln_TimeoutMemberConnect ln \<noteq> lt_TimeoutMemberConnect t then lt_TimeoutMemberConnect t else None)\<rparr>"
  using assms by (simp add: listener_update_def Let_def intPtrEqual_iff)

section \<open>Removing a listener in place\<close>

lemma pop_index_shift: "pop_index i lns (Suc n) = map_option Suc (pop_index i lns n)"
  by (induction lns arbitrary: n) auto

lemma mset_swap_last:
  assumes n: "n < length xs"
  shows "mset (take (length xs - 1) (xs[n := xs ! (length xs - 1)])) = mset xs - {#xs ! n#}"
proof -
  let ?ys = "take (length xs - 1) (xs[n := xs ! (length xs - 1)])"
  have "mset ?ys = mset (take n ?ys) + mset (drop n ?ys)" by (metis append_take_drop_id mset_append)
  moreover have "take n ?ys = take n xs" using n by (auto simp: min_def)
  moreover have "add_mset (xs ! n) (mset (drop n ?ys)) = mset (drop n xs)"
    using mset_swap_out [of n "length xs" xs] n by simp
  moreover have "mset xs = mset (take n xs) + mset (drop n xs)" by (metis append_take_drop_id mset_append)
  ultimately show ?thesis by (metis add_mset_remove_trivial union_mset_add_mset_right)
qed

lemma pop_index_find:
  "pop_index i lns 0 = Some n \<Longrightarrow> n < length lns \<and> find (\<lambda>ln. ln_ID ln = i) lns = Some (lns ! n)"
  "pop_index i lns 0 = None \<Longrightarrow> find (\<lambda>ln. ln_ID ln = i) lns = None"
proof (induction lns arbitrary: n)
  case (Cons ln lns)
  { case 1 then show ?case using Cons.IH(1) by (auto simp: pop_index_shift split: if_splits) }
  { case 2 then show ?case using Cons.IH(2) by (auto simp: pop_index_shift split: if_splits) }
qed simp_all

lemma mset_popListener:
  "mset (popListener lns i) =
     (case find (\<lambda>ln. ln_ID ln = i) lns of None \<Rightarrow> mset lns | Some ln \<Rightarrow> mset lns - {#ln#})"
proof (cases "pop_index i lns 0")
  case None
  then show ?thesis using pop_index_find(2) [OF None] by (simp add: popListener_def)
next
  case (Some n)
  then show ?thesis using pop_index_find(1) [OF Some] mset_swap_last [of n lns] by (simp add: popListener_def)
qed

section \<open>Properties\<close>

text \<open>A listener is left alone exactly when the timeouts of the service could not be read or agree with
  its own in every field, and its secret is the wanted one.\<close>

theorem listener_update_decision:
  "(\<not> snd (listener_update ln opts)) =
     (so_Timeouts opts \<in> {None, Some (timeouts_of ln)} \<and> ln_SecretID ln = so_SecretID opts)"
  unfolding listener_update_needed by blast



text \<open>Removing a listener in place removes the first one with the ID and keeps the others.\<close>

theorem pop_listener_removes_first:
  "mset (popListener lns i) =
     (case find (\<lambda>ln. ln_ID ln = i) lns of None \<Rightarrow> mset lns | Some ln \<Rightarrow> mset lns - {#ln#})"
  by (rule mset_popListener)

text \<open>A service port gets the first existing listener with its protocol, as resolved from the options,
  and its port; without one, a new listener is requested with that same protocol and port, so that the
  next lookup finds it.\<close>

lemma listener_lookup_finds_created:
  "(findListenerForServicePort existing sp opts = None \<longrightarrow>
     (\<forall>ln i. ln_Protocol ln = lnc_Protocol (buildListenerCreateRequest i n sp opts) \<and>
        ln_ProtocolPort ln = lnc_ProtocolPort (buildListenerCreateRequest i n sp opts) \<longrightarrow>
        findListenerForServicePort (existing @ [ln]) sp opts = Some ln)) \<and>
   (\<forall>ln. findListenerForServicePort existing sp opts = Some ln \<longrightarrow> ln \<in> set existing \<and>
     ln_Protocol ln = resolveListenerProtocol (sp_Protocol sp) (so_KeepClientIP opts) (so_SecretID opts) \<and>
     ln_ProtocolPort ln = sp_Port sp)"
proof -
  have app: "find_listener p port (lns @ lns') =
      (case find_listener p port lns of Some ln \<Rightarrow> Some ln | None \<Rightarrow> find_listener p port lns')" for p port lns lns'
    by (induction lns) auto
  show ?thesis
    by (auto simp: findListenerForServicePort_def buildListenerCreateRequest_def Let_def app dest: find_listener_Some)
qed

definition example_listener :: "string \<Rightarrow> int \<Rightarrow> listener" where
  "example_listener i port = \<lparr>ln_ID = i, ln_Name = i, ln_Protocol = ListenerProtocolTCP, ln_ProtocolPort = port,
     ln_SecretID = [], ln_TimeoutClientData = None, ln_TimeoutMemberData = None, ln_TimeoutMemberConnect = None\<rparr>"

lemma listener_lookup_finds_created_witness:
  "\<exists>opts. findListenerForServicePort [example_listener ''a'' 80, example_listener ''b'' 443]
     \<lparr>sp_Name = ''https'', sp_Protocol = ProtocolTCP, sp_Port = 443, sp_NodePort = 30443\<rparr> opts =
       Some (example_listener ''b'' 443)"
proof -
  define opts where "opts = \<lparr>so_FlavorID = [], so_NetworkID = [], so_SubnetID = ''subnet-1'',
     so_FloatingNetworkID = [], so_Internal = True, so_KeepClientIP = False, so_UseProxyProtocol = False, so_SecretID = [],
     so_Timeouts = None, so_LBMethod = ''ROUND_ROBIN'', so_SessionPersistence = None, so_CreateMonitor = True,
     so_ManageSecurityGroups = False, so_LBClass = None, so_NodeSecurityGroupIDs = []\<rparr>"
  define sp where "sp = \<lparr>sp_Name = ''https'', sp_Protocol = ProtocolTCP, sp_Port = 443, sp_NodePort = 30443\<rparr>"
  have "findListenerForServicePort [example_listener ''a'' 80] sp opts = None"
    unfolding opts_def sp_def by code_simp
  moreover have "ln_Protocol (example_listener ''b'' 443) = lnc_Protocol (buildListenerCreateRequest [] [] sp opts) \<and>
      ln_ProtocolPort (example_listener ''b'' 443) = lnc_ProtocolPort (buildListenerCreateRequest [] [] sp opts)"
    by (simp add: example_listener_def buildListenerCreateRequest_def Let_def sp_def opts_def resolveListenerProtocol_def)
  ultimately have "findListenerForServicePort ([example_listener ''a'' 80] @ [example_listener ''b'' 443]) sp opts =
      Some (example_listener ''b'' 443)"
    using listener_lookup_finds_created [of "[example_listener ''a'' 80]" sp opts "[]"] by blast
  then show ?thesis unfolding sp_def by auto
qed

end
