(* ===== verification/FloatingIPs.thy ===== *)
theory FloatingIPs
  imports Options Polling
begin

text \<open>
  Floating IPs: \<^verbatim>\<open>loadbalancer_floatingip.go\<close>. A nil \<^verbatim>\<open>net.IP\<close> is the empty list. The lemmas say which
  calls each mode of \<open>EnsureFloatingIP\<close> may make, and on which answers it assigns or creates.
\<close>

section \<open>Definitions\<close>

definition fip_list :: "'w client \<Rightarrow> ('w st, floating_ip list) prog" where
  "fip_list c = call (\<lambda>_. NW Floatingips_List) (api_fip_list (Networks c))"

definition getFloatingIPsByAddr :: "'w client \<Rightarrow> string \<Rightarrow> ('w st, floating_ip list) prog" where
  "getFloatingIPsByAddr c addr =
     bindM (fip_list c) (\<lambda>list. retM (filter (\<lambda>fip. fip_FloatingIPAddress fip = addr) list))"

text \<open>The ID of the first listed floating IP with the address, or the empty string.\<close>

fun fip_id :: "string \<Rightarrow> floating_ip list \<Rightarrow> string" where
  "fip_id addr [] = []"
| "fip_id addr (f # fs) = (if fip_FloatingIPAddress f = addr then fip_ID f else fip_id addr fs)"

definition EnsureFloatingIP :: "'w client \<Rightarrow> bool \<Rightarrow> string \<Rightarrow> ip \<Rightarrow> ('w st, ip) prog" where
  "EnsureFloatingIP c needDelete portID existingFIP =
     (if needDelete then
        (if existingFIP = [] then retM []
         else
           bindM (getFloatingIPsByAddr c (ip_string existingFIP)) (\<lambda>fips.
           bindM (foldM (\<lambda>fip _. call (\<lambda>_. NW (Floatingips_Delete (fip_ID fip)))
               (api_fip_delete (Networks c) (fip_ID fip))) fips \<lparr>task_Loadbalancers = [], task_Listeners = [],
               task_Pools = [], task_FloatingIPs = [], task_Volumes = []\<rparr>) (\<lambda>_.
             retM [])))
      else
        bindM (tryM (call (\<lambda>_. NW (Floatingips_ListByPort portID)) (api_fip_by_port (Networks c) portID))
          (\<lambda>err. if \<not> errors_Is_lib err ErrFloatingIPsNotFound then failM err else retM []) retM) (\<lambda>fips.
        if length fips > 1 then failM (Errorf (''more than one floating IPs for port '' @ portID @ '' found''))
        else if length fips = 1 then
          bindM (firstM fips) (\<lambda>fip. retM (parse_ip (fip_FloatingIPAddress fip)))
        else if existingFIP \<noteq> [] then
          bindM (fip_list c) (\<lambda>list.
            let fipID = fip_id (ip_string existingFIP) list in
            if fipID = [] then failM (Errorf (''floating ip '' @ ip_string existingFIP @ '' does not exist''))
            else
              bindM (call (\<lambda>_. NW (Floatingips_Assign fipID portID)) (api_fip_assign (Networks c) fipID portID))
                (\<lambda>fip. retM (parse_ip (fip_FloatingIPAddress fip))))
        else
          bindM (wrapM (flatten (''error creating floatingip '' @ Sprint_fip_request c portID @ '': ''))
            (call (\<lambda>_. NW (Floatingips_Create portID)) (api_fip_create (Networks c) portID))) (\<lambda>task.
          bindM (firstM (task_FloatingIPs task)) (\<lambda>fipID.
          bindM (wrapM (Wrapf (''cannot get floating IP with ID: '' @ fipID @ ''. Error: ''))
            (call (\<lambda>_. NW (Floatingips_Get fipID)) (api_fip_get (Networks c) fipID))) (\<lambda>fip.
            retM (parse_ip (fip_FloatingIPAddress fip)))))))"

definition getFloatingNetworkIDForLB :: "'w client \<Rightarrow> ('w st, string) prog" where
  "getFloatingNetworkIDForLB c =
     bindM (call (\<lambda>_. NW Networks_List) (api_networks_list (Networks c))) (\<lambda>list.
       let floatingNetworkIds = map nw_ID (filter nw_External list) in
       if length floatingNetworkIds = 0 then failM (Sent ErrNotFound) else firstM floatingNetworkIds)"

section \<open>Calls\<close>

fun creates_fip :: "string \<Rightarrow> api_call \<Rightarrow> bool" where
  "creates_fip port (NW (Floatingips_Create p)) = (p = port)"
| "creates_fip port (NW (Floatingips_Assign _ p)) = (p = port)"
| "creates_fip port _ = False"

fun deletes_fip :: "api_call \<Rightarrow> bool" where
  "deletes_fip (NW (Floatingips_Delete _)) = True"
| "deletes_fip _ = False"

fun reads_fip :: "api_call \<Rightarrow> bool" where
  "reads_fip (NW Floatingips_List) = True"
| "reads_fip (NW (Floatingips_ListByPort _)) = True"
| "reads_fip (NW (Floatingips_Get _)) = True"
| "reads_fip _ = False"

lemma fip_list_only [emits_intros]: "P (NW Floatingips_List) \<Longrightarrow> only calls P (fip_list c)"
  unfolding fip_list_def by (intro emits_intros) simp

lemma EnsureFloatingIP_delete_only:
  "only calls (\<lambda>e. reads_fip e \<or> deletes_fip e) (EnsureFloatingIP c True portID addr)"
  unfolding EnsureFloatingIP_def getFloatingIPsByAddr_def
  by (simp, intro conjI impI emits_intros) auto

text \<open>Ensuring a floating IP: at most one assignment or creation, for this port, and none when one exists.\<close>

lemma EnsureFloatingIP_ensure_emits:
  "emits calls (EnsureFloatingIP c False portID addr) (\<lambda>r es.
     list_all (\<lambda>e. reads_fip e \<or> creates_fip portID e) es \<and> length (filter (creates_fip portID) es) \<le> 1)"
  unfolding EnsureFloatingIP_def fip_list_def Let_def
  by (simp only: simp_thms if_False, intro wp) auto

lemma EnsureFloatingIP_ensure_only:
  "only calls (\<lambda>e. reads_fip e \<or> creates_fip portID e) (EnsureFloatingIP c False portID addr)"
  by (rule always_emits [OF EnsureFloatingIP_ensure_emits]) simp

lemma getFloatingNetworkIDForLB_only [emits_intros]:
  "P (NW Networks_List) \<Longrightarrow> only calls P (getFloatingNetworkIDForLB c)"
  unfolding getFloatingNetworkIDForLB_def Let_def by (intro emits_intros) simp

text \<open>A floating IP that the port already has is kept, and nothing is changed.\<close>

lemma EnsureFloatingIP_keeps:
  assumes "api_fip_by_port (Networks c) portID (world s) = (Ok [fip], w)"
  shows "EnsureFloatingIP c False portID addr s =
    (Ok (parse_ip (fip_FloatingIPAddress fip)),
     s\<lparr>world := w, calls := calls s @ [NW (Floatingips_ListByPort portID)]\<rparr>)"
  using assms by (simp add: EnsureFloatingIP_def tryM_def bindM_def call_def retM_def)

section \<open>Properties\<close>

text \<open>Ensuring a floating IP makes at most one creation or assignment, always for the port of the load
  balancer, and deletes nothing.\<close>

lemma floating_ip_created_once:
  "emits calls (EnsureFloatingIP c False portID addr) (\<lambda>r es.
     list_all (\<lambda>e. reads_fip e \<or> creates_fip portID e) es \<and> length (filter (creates_fip portID) es) \<le> 1)"
  by (rule EnsureFloatingIP_ensure_emits)

text \<open>A floating IP that the port already has is kept: it is returned after the one request that
  found it, and nothing is changed.\<close>

theorem floating_ip_kept:
  assumes "api_fip_by_port (Networks c) portID (world s) = (Ok [fip], w)"
  shows "EnsureFloatingIP c False portID addr s =
    (Ok (parse_ip (fip_FloatingIPAddress fip)),
     s\<lparr>world := w, calls := calls s @ [NW (Floatingips_ListByPort portID)]\<rparr>)"
  using assms by (rule EnsureFloatingIP_keeps)

lemma floating_ip_kept_witness:
  "\<exists>c :: unit client. EnsureFloatingIP c False ''port-1'' [] (start ()) =
     (Ok (parse_ip ''1.2.3.4''), \<lparr>world = (), calls = [NW (Floatingips_ListByPort ''port-1'')]\<rparr>)"
proof
  let ?c = "idle_client\<lparr>Networks := (Networks idle_client)\<lparr>api_fip_by_port := (\<lambda>_ w. (Ok
    [\<lparr>fip_ID = ''f'', fip_FloatingIPAddress = ''1.2.3.4''\<rparr>], w))\<rparr>\<rparr> :: unit client"
  show "EnsureFloatingIP ?c False ''port-1'' [] (start ()) =
     (Ok (parse_ip ''1.2.3.4''), \<lparr>world = (), calls = [NW (Floatingips_ListByPort ''port-1'')]\<rparr>)"
    by (subst floating_ip_kept [where fip = "\<lparr>fip_ID = ''f'', fip_FloatingIPAddress = ''1.2.3.4''\<rparr>" and w = "()"])
      (simp_all add: start_def)
qed

end
