(* ===== verification/Nodes.thy ===== *)
theory Nodes
  imports Retry Options "HOL-Library.List_Lexorder" "HOL-Library.Multiset"
begin

text \<open>
  Nodes and instances: \<^verbatim>\<open>instances.go\<close>, the instance lookup, node addresses and zones by provider ID
  and name of \<^verbatim>\<open>edgecenter.go\<close>, and \<^verbatim>\<open>AddToNodeAddresses\<close> (\<^verbatim>\<open>internal/apis/core/v1/helper\<close>).
  The instance list of the API, its map of addresses (an association list standing for one iteration
  order of the Go map) and a nil flavor are as the sources read them.
\<close>

section \<open>Receivers\<close>

record metadata_opts =
  mo_SearchOrder :: string
  mo_RequestTimeout :: int

record networking_opts =
  no_IPv6SupportDisabled :: bool
  no_PublicNetworkName :: string
  no_InternalNetworkName :: string

record 'w instances =
  i_client :: "'w client"
  i_opts :: metadata_opts
  i_networkingOpts :: networking_opts

record zone =
  z_FailureDomain :: string
  z_Region :: string

record instance_metadata =
  im_ProviderID :: string
  im_InstanceType :: string
  im_NodeAddresses :: "node_address list"

abbreviation instance_not_found :: error where
  "instance_not_found \<equiv> Lib InstanceNotFound ''instance not found''"

section \<open>Provider IDs\<close>

definition ProviderName :: string where
  "ProviderName = ''edgecenter''"

definition buildProviderID :: "string \<Rightarrow> string" where
  "buildProviderID instanceID = ProviderName @ '':///'' @ instanceID"

text \<open>The submatch of \<^verbatim>\<open>^edgecenter:///([^/]+)$\<close>.\<close>

definition provider_id_match :: "string \<Rightarrow> string option" where
  "provider_id_match s =
     (let p = ProviderName @ '':///''; i = drop (length p) s in
      if has_prefix s p \<and> i \<noteq> [] \<and> CHR ''/'' \<notin> set i then Some i else None)"

definition instanceIDFromProviderID :: "string \<Rightarrow> string outcome" where
  "instanceIDFromProviderID providerID0 =
     (let providerID = (if providerID0 \<noteq> [] \<and> \<not> contains providerID0 ''://''
          then ProviderName @ ''://'' @ providerID0 else providerID0) in
      case provider_id_match providerID of
        None \<Rightarrow> Err (Errorf (''ProviderID '' @ [CHR 0x22] @ providerID @ [CHR 0x22] @ '' didn'' @ [CHR 0x27] @
          ''t match expected format '' @ [CHR 0x22] @ ''edgecenter:///InstanceID'' @ [CHR 0x22]))
      | Some i \<Rightarrow> Ok i)"

section \<open>Node addresses\<close>

definition AddToNodeAddresses :: "node_address list \<Rightarrow> node_address list \<Rightarrow> node_address list" where
  "AddToNodeAddresses addresses addAddresses =
     foldl (\<lambda>addresses add.
       if list_ex (\<lambda>existing. na_Address existing = na_Address add \<and> na_Type existing = na_Type add) addresses
       then addresses else addresses @ [add]) addresses addAddresses"

abbreviation AddressTypeFloating :: string where "AddressTypeFloating \<equiv> ''floating''"

text \<open>One address of a network: the body of the inner loop.\<close>

definition add_instance_address ::
    "networking_opts \<Rightarrow> string \<Rightarrow> node_address list \<Rightarrow> instance_address \<Rightarrow> node_address list" where
  "add_instance_address o' network addrs props =
     (if ia_Address props \<noteq> [] \<and> has_prefix (ip_string (ia_Address props)) ''100.'' then addrs
      else
        (let add = (\<lambda>addressType.
             if \<not> (to4 (ia_Address props) = [] \<and> no_IPv6SupportDisabled o')
             then AddToNodeAddresses addrs [\<lparr>na_Type = addressType, na_Address = ip_string (ia_Address props)\<rparr>]
             else addrs)
         in if ia_Type props = AddressTypeFloating \<or> network = no_PublicNetworkName o' then add NodeExternalIP
            else if no_InternalNetworkName o' = [] \<or> network = no_InternalNetworkName o' then add NodeInternalIP
            else addrs))"

definition network_addresses :: "cloud_instance \<Rightarrow> string \<Rightarrow> instance_address list" where
  "network_addresses inst network = (case map_of (inst_Addresses inst) network of None \<Rightarrow> [] | Some l \<Rightarrow> l)"

definition nodeAddresses :: "cloud_instance \<Rightarrow> networking_opts \<Rightarrow> node_address list" where
  "nodeAddresses inst o' =
     (let networks = sort (map fst (inst_Addresses inst));
          addrs = foldl (\<lambda>addrs network.
            foldl (add_instance_address o' network) addrs (network_addresses inst network)) [] networks
      in case inst_Metadata inst ''hostname'' of
           Some hostname \<Rightarrow>
             if hostname \<noteq> [] then AddToNodeAddresses addrs [\<lparr>na_Type = NodeHostName, na_Address = hostname\<rparr>]
             else addrs
         | None \<Rightarrow> addrs)"

section \<open>Lookup\<close>

definition inst_get :: "'w client \<Rightarrow> string \<Rightarrow> ('w st, cloud_instance) prog" where
  "inst_get c i = call (\<lambda>_. IN (Instances_Get i)) (api_inst_get (Instances c) i)"

definition GetNodeNameByID :: "'w client \<Rightarrow> string \<Rightarrow> ('w st, string) prog" where
  "GetNodeNameByID c instanceID = bindM (inst_get c instanceID) (\<lambda>inst. retM (to_lower (inst_Name inst)))"

definition getInstanceByName :: "'w client \<Rightarrow> string \<Rightarrow> ('w st, cloud_instance) prog" where
  "getInstanceByName c name =
     bindM (call (\<lambda>_. IN (Instances_List name)) (api_inst_list (Instances c) name)) (\<lambda>list.
       if length list = 0 then failM (Sent ErrNotFound) else firstM list)"

definition getAddressesByName :: "'w client \<Rightarrow> string \<Rightarrow> networking_opts \<Rightarrow> ('w st, node_address list) prog" where
  "getAddressesByName c name o' = bindM (getInstanceByName c name) (\<lambda>inst. retM (nodeAddresses inst o'))"

definition getNodeInstanceID :: "'w client \<Rightarrow> node \<Rightarrow> ('w st, string) prog" where
  "getNodeInstanceID c n =
     (let by_name = bindM (wrapM (Wrapf (''failed to resolve instanceID for node '' @ node_Name n @ '': providerID='' @
            quoted (node_ProviderID n) @ '', name lookup failed: ''))
            (getInstanceByName c (node_Name n))) (\<lambda>inst. retM (inst_ID inst)) in
      if node_ProviderID n \<noteq> [] then
        (let instanceID = (case last_index (node_ProviderID n) CHR ''/'' of
             Some idx \<Rightarrow> drop (idx + 1) (node_ProviderID n)
           | None \<Rightarrow> node_ProviderID n)
         in if instanceID \<noteq> [] then retM instanceID else by_name)
      else by_name)"

definition getInstanceByNode :: "'w client \<Rightarrow> node \<Rightarrow> ('w st, cloud_instance) prog" where
  "getInstanceByNode c n =
     bindM (getNodeInstanceID c n) (\<lambda>instanceID.
       wrapM (Wrapf (''failed to get instance '' @ instanceID @ '' for node '' @ node_Name n @ '': ''))
         (inst_get c instanceID))"

section \<open>The Instances interface\<close>

definition NodeAddresses :: "'w instances \<Rightarrow> string \<Rightarrow> ('w st, node_address list) prog" where
  "NodeAddresses i name = getAddressesByName (i_client i) name (i_networkingOpts i)"

definition NodeAddressesByProviderID :: "'w instances \<Rightarrow> string \<Rightarrow> ('w st, node_address list) prog" where
  "NodeAddressesByProviderID i providerID =
     bindM (liftM (instanceIDFromProviderID providerID)) (\<lambda>instanceID.
     bindM (inst_get (i_client i) instanceID) (\<lambda>inst.
       retM (nodeAddresses inst (i_networkingOpts i))))"

definition InstanceExistsByProviderID :: "'w instances \<Rightarrow> string \<Rightarrow> ('w st, bool) prog" where
  "InstanceExistsByProviderID i providerID =
     bindM (liftM (instanceIDFromProviderID providerID)) (\<lambda>instanceID.
       call (\<lambda>_. IN (Instances_Exists instanceID)) (api_inst_exists (Instances (i_client i)) instanceID))"

definition instanceShutoff :: string where
  "instanceShutoff = ''SHUTOFF''"

definition InstanceShutdownByProviderID :: "'w instances \<Rightarrow> string \<Rightarrow> ('w st, bool) prog" where
  "InstanceShutdownByProviderID i providerID =
     bindM (liftM (instanceIDFromProviderID providerID)) (\<lambda>instanceID.
     bindM (inst_get (i_client i) instanceID) (\<lambda>inst.
       if inst_Status inst = instanceShutoff then retM True else retM False))"

definition InstanceID_of :: "'w instances \<Rightarrow> string \<Rightarrow> ('w st, string) prog" where
  "InstanceID_of i name =
     bindM (wrapM (\<lambda>e. if errors_Is e ErrNotFound then instance_not_found else e)
       (getInstanceByName (i_client i) name)) (\<lambda>inst.
       retM (buildProviderID (inst_ID inst)))"

definition srvInstanceType :: "cloud_instance \<Rightarrow> string outcome" where
  "srvInstanceType inst = (case inst_Flavor inst of
     None \<Rightarrow> Panic ''nil pointer dereference''
   | Some f \<Rightarrow>
       if fl_FlavorID f \<noteq> [] then Ok (fl_FlavorID f)
       else if fl_FlavorName f \<noteq> [] then Ok (fl_FlavorName f)
       else Err (Errorf ''flavor name/id not found''))"

definition InstanceTypeByProviderID :: "'w instances \<Rightarrow> string \<Rightarrow> ('w st, string) prog" where
  "InstanceTypeByProviderID i providerID =
     bindM (liftM (instanceIDFromProviderID providerID)) (\<lambda>instanceID.
     bindM (inst_get (i_client i) instanceID) (\<lambda>inst. liftM (srvInstanceType inst)))"

definition InstanceType :: "'w instances \<Rightarrow> string \<Rightarrow> ('w st, string) prog" where
  "InstanceType i name = bindM (getInstanceByName (i_client i) name) (\<lambda>inst. liftM (srvInstanceType inst))"

definition instanceByNode :: "'w instances \<Rightarrow> node option \<Rightarrow> ('w st, cloud_instance) prog" where
  "instanceByNode i node = (case node of
     None \<Rightarrow> failM (Errorf ''node is nil'')
   | Some n \<Rightarrow>
       if node_ProviderID n \<noteq> [] then
         bindM (liftM (instanceIDFromProviderID (node_ProviderID n))) (\<lambda>instanceID.
           inst_get (i_client i) instanceID)
       else
         wrapM (\<lambda>e. if errors_Is e ErrNotFound then instance_not_found else e)
           (getInstanceByName (i_client i) (node_Name n)))"

definition InstanceExists :: "'w instances \<Rightarrow> node option \<Rightarrow> ('w st, bool) prog" where
  "InstanceExists i node =
     tryM (instanceByNode i node)
       (\<lambda>e. if errors_Is_lib e InstanceNotFound \<or> errors_Is e ErrNotFound then retM False else failM e)
       (\<lambda>_. retM True)"

definition InstanceShutdown :: "'w instances \<Rightarrow> node option \<Rightarrow> ('w st, bool) prog" where
  "InstanceShutdown i node =
     bindM (instanceByNode i node) (\<lambda>inst. retM (inst_Status inst = instanceShutoff))"

definition InstanceMetadata :: "'w instances \<Rightarrow> node option \<Rightarrow> ('w st, instance_metadata) prog" where
  "InstanceMetadata i node =
     bindM (instanceByNode i node) (\<lambda>inst.
     bindM (liftM (srvInstanceType inst)) (\<lambda>instanceType.
       retM \<lparr>im_ProviderID = buildProviderID (inst_ID inst), im_InstanceType = instanceType,
         im_NodeAddresses = nodeAddresses inst (i_networkingOpts i)\<rparr>))"

definition AddSSHKeyToAllInstances :: "'w instances \<Rightarrow> ('w st, unit) prog" where
  "AddSSHKeyToAllInstances i = failM (Lib NotImplemented ''unimplemented'')"

section \<open>Zones\<close>

definition GetZoneByProviderID :: "'w client \<Rightarrow> string \<Rightarrow> string \<Rightarrow> ('w st, zone) prog" where
  "GetZoneByProviderID c region providerID =
     bindM (liftM (instanceIDFromProviderID providerID)) (\<lambda>instanceID.
     bindM (inst_get c instanceID) (\<lambda>inst. retM \<lparr>z_FailureDomain = [], z_Region = region\<rparr>))"

definition GetZoneByNodeName :: "'w client \<Rightarrow> string \<Rightarrow> string \<Rightarrow> ('w st, zone) prog" where
  "GetZoneByNodeName c region nodeName =
     bindM (wrapM (\<lambda>e. if errors_Is e ErrNotFound then instance_not_found else e)
       (getInstanceByName c nodeName)) (\<lambda>inst.
       retM \<lparr>z_FailureDomain = [], z_Region = region\<rparr>)"

section \<open>Calls\<close>

definition reads_instances :: "api_call \<Rightarrow> bool" where
  "reads_instances e \<longleftrightarrow> (\<exists>i. e = IN (Instances_Get i)) \<or> (\<exists>n. e = IN (Instances_List n)) \<or>
     (\<exists>i. e = IN (Instances_InterfaceList i)) \<or> (\<exists>i. e = IN (Instances_SecurityGroupList i))"

lemma getInstanceByName_only: "only calls reads_instances (getInstanceByName c n)"
  unfolding getInstanceByName_def by (intro emits_intros) (auto simp: reads_instances_def)

lemma getNodeInstanceID_only: "only calls reads_instances (getNodeInstanceID c n)"
  unfolding getNodeInstanceID_def Let_def by (intro emits_intros getInstanceByName_only)

lemma getInstanceByNode_only: "only calls reads_instances (getInstanceByNode c n)"
  unfolding getInstanceByNode_def inst_get_def
  by (intro emits_intros getNodeInstanceID_only) (auto simp: reads_instances_def)

section \<open>Provider IDs round trip\<close>

lemma provider_id_match_iff:
  "provider_id_match s = Some i \<longleftrightarrow> s = buildProviderID i \<and> i \<noteq> [] \<and> CHR ''/'' \<notin> set i"
  by (auto simp: provider_id_match_def Let_def has_prefix_iff buildProviderID_def ProviderName_def)

lemma contains_scheme: "contains (buildProviderID i) ''://''"
  unfolding contains_iff buildProviderID_def ProviderName_def
  by (rule exI [of _ "''edgecenter''"], rule exI [of _ "CHR ''/'' # i"]) simp

lemma instanceID_buildProviderID:
  "instanceIDFromProviderID (buildProviderID i) = Ok i \<longleftrightarrow> i \<noteq> [] \<and> CHR ''/'' \<notin> set i"
  using provider_id_match_iff [of "buildProviderID i" i]
  by (auto simp: instanceIDFromProviderID_def Let_def contains_scheme split: option.splits)

lemma instanceIDFromProviderID_Ok:
  assumes "instanceIDFromProviderID p = Ok i"
  shows "i \<noteq> [] \<and> CHR ''/'' \<notin> set i \<and> (p = buildProviderID i \<or> p = CHR ''/'' # i)"
proof (cases "p \<noteq> [] \<and> \<not> contains p ''://''")
  case True
  with assms have "provider_id_match (ProviderName @ ''://'' @ p) = Some i"
    by (auto simp: instanceIDFromProviderID_def Let_def split: option.splits)
  then show ?thesis by (simp add: provider_id_match_iff) (simp add: buildProviderID_def)
next
  case False
  with assms have "provider_id_match p = Some i"
    by (auto simp: instanceIDFromProviderID_def Let_def split: option.splits if_splits)
  then show ?thesis by (simp add: provider_id_match_iff)
qed

lemma getNodeInstanceID_suffix:
  assumes "node_ProviderID n = a @ CHR ''/'' # i" "CHR ''/'' \<notin> set i" "i \<noteq> []"
  shows "getNodeInstanceID c n = retM i"
  using assms last_index_append [of "CHR ''/''" i a] by (simp add: getNodeInstanceID_def)

lemma getNodeInstanceID_agrees:
  assumes "instanceIDFromProviderID (node_ProviderID n) = Ok i"
  shows "getNodeInstanceID c n = retM i"
proof -
  from instanceIDFromProviderID_Ok [OF assms] consider "node_ProviderID n = ''edgecenter://'' @ CHR ''/'' # i"
    | "node_ProviderID n = [] @ CHR ''/'' # i"
    by (auto simp: buildProviderID_def ProviderName_def)
  then show ?thesis
    by cases (use instanceIDFromProviderID_Ok [OF assms] getNodeInstanceID_suffix in blast)+
qed

section \<open>Node addresses\<close>

lemma set_AddToNodeAddresses: "set (AddToNodeAddresses as bs) = set as \<union> set bs"
proof -
  have "na_Address a = na_Address b \<and> na_Type a = na_Type b \<longleftrightarrow> a = b" for a b :: node_address
    by (cases a, cases b) auto
  then show ?thesis
    unfolding AddToNodeAddresses_def
    by (induction bs arbitrary: as) (auto simp: list_ex_iff)
qed

lemma distinct_AddToNodeAddresses: "distinct as \<Longrightarrow> distinct (AddToNodeAddresses as bs)"
proof -
  assume "distinct as"
  moreover have "distinct (foldl (\<lambda>as add. if list_ex (\<lambda>e. na_Address e = na_Address add \<and> na_Type e = na_Type add) as
      then as else as @ [add]) as bs)" if "distinct as" for as
    using that by (induction bs arbitrary: as) (auto simp: list_ex_iff)
  ultimately show ?thesis by (simp add: AddToNodeAddresses_def)
qed

lemma foldl_invariant:
  "I s \<Longrightarrow> (\<And>s x. I s \<Longrightarrow> x \<in> set xs \<Longrightarrow> I (f s x)) \<Longrightarrow> I (foldl f s xs)"
  by (induction xs arbitrary: s) auto

text \<open>What an address list may contain, given the networking options.\<close>

definition address_ok :: "networking_opts \<Rightarrow> node_address \<Rightarrow> bool" where
  "address_ok o' a \<longleftrightarrow> na_Type a = NodeHostName \<or>
     (na_Type a \<in> {NodeInternalIP, NodeExternalIP} \<and>
      (\<exists>p. na_Address a = ip_string p \<and> (p = [] \<or> \<not> has_prefix (ip_string p) ''100.'') \<and>
        (to4 p = [] \<longrightarrow> \<not> no_IPv6SupportDisabled o')))"

lemma add_instance_address_inv:
  assumes "distinct addrs \<and> (\<forall>a \<in> set addrs. address_ok o' a)"
  shows "distinct (add_instance_address o' network addrs props) \<and>
    (\<forall>a \<in> set (add_instance_address o' network addrs props). address_ok o' a)"
proof -
  let ?r = "add_instance_address o' network addrs props"
  have "?r = addrs \<or> (\<exists>ty \<in> {NodeInternalIP, NodeExternalIP}.
      ?r = AddToNodeAddresses addrs [\<lparr>na_Type = ty, na_Address = ip_string (ia_Address props)\<rparr>] \<and>
      (ia_Address props = [] \<or> \<not> has_prefix (ip_string (ia_Address props)) ''100.'') \<and>
      (to4 (ia_Address props) = [] \<longrightarrow> \<not> no_IPv6SupportDisabled o'))"
    unfolding add_instance_address_def Let_def by (simp split: if_split)
  then show ?thesis
  proof
    assume "?r = addrs"
    with assms show ?thesis by simp
  next
    assume "\<exists>ty \<in> {NodeInternalIP, NodeExternalIP}.
      ?r = AddToNodeAddresses addrs [\<lparr>na_Type = ty, na_Address = ip_string (ia_Address props)\<rparr>] \<and>
      (ia_Address props = [] \<or> \<not> has_prefix (ip_string (ia_Address props)) ''100.'') \<and>
      (to4 (ia_Address props) = [] \<longrightarrow> \<not> no_IPv6SupportDisabled o')"
    then obtain ty where ty: "ty \<in> {NodeInternalIP, NodeExternalIP}"
        "to4 (ia_Address props) = [] \<longrightarrow> \<not> no_IPv6SupportDisabled o'"
        "ia_Address props = [] \<or> \<not> has_prefix (ip_string (ia_Address props)) ''100.''"
      and r: "?r = AddToNodeAddresses addrs [\<lparr>na_Type = ty, na_Address = ip_string (ia_Address props)\<rparr>]"
      by blast
    have "address_ok o' \<lparr>na_Type = ty, na_Address = ip_string (ia_Address props)\<rparr>"
      unfolding address_ok_def using ty
      by - (rule disjI2, intro conjI exI [of _ "ia_Address props"]; simp)
    with assms show ?thesis
      unfolding r by (simp add: distinct_AddToNodeAddresses set_AddToNodeAddresses)
  qed
qed

lemma nodeAddresses_inv:
  "distinct (nodeAddresses inst o') \<and> (\<forall>a \<in> set (nodeAddresses inst o'). address_ok o' a)"
proof -
  let ?I = "\<lambda>as. distinct as \<and> (\<forall>a \<in> set as. address_ok o' a)"
  have net: "?I (foldl (\<lambda>addrs network. foldl (add_instance_address o' network) addrs (network_addresses inst network)) [] ns)" for ns
    by (intro foldl_invariant [where I = ?I] add_instance_address_inv) auto
  have host: "?I (AddToNodeAddresses as [\<lparr>na_Type = NodeHostName, na_Address = h\<rparr>])" if "?I as" for as h
    using that by (auto simp: distinct_AddToNodeAddresses set_AddToNodeAddresses address_ok_def)
  show ?thesis
  proof (cases "inst_Metadata inst ''hostname''")
    case None
    then show ?thesis using net by (simp add: nodeAddresses_def Let_def)
  next
    case (Some h)
    then show ?thesis using net host [OF net] by (simp add: nodeAddresses_def Let_def)
  qed
qed

text \<open>The result does not depend on the iteration order of the Go map.\<close>

lemma nodeAddresses_order:
  assumes "distinct (map fst (inst_Addresses i))" "mset (inst_Addresses i) = mset (inst_Addresses j)"
    and "inst_Metadata i = inst_Metadata j"
  shows "nodeAddresses i o' = nodeAddresses j o'"
proof -
  have "mset (map fst (inst_Addresses i)) = mset (map fst (inst_Addresses j))"
    using assms(2) by (metis mset_map)
  then have "sort (map fst (inst_Addresses i)) = sort (map fst (inst_Addresses j))"
    by (intro properties_for_sort) simp_all
  moreover have "map_of (inst_Addresses i) = map_of (inst_Addresses j)"
  proof -
    have "distinct (map fst (inst_Addresses j))"
      using assms(1,2) by (metis mset_eq_imp_distinct_iff mset_map)
    then show ?thesis using assms(1,2) by (metis map_of_inject_set mset_eq_setD)
  qed
  ultimately show ?thesis using assms(3) by (simp add: nodeAddresses_def network_addresses_def [abs_def])
qed

section \<open>Properties\<close>

text \<open>C37: provider IDs round trip: the ID built from an instance is read back by both readers, and an ID
  that the strict reader accepts is one that was built from its result, or its suffix after the scheme.\<close>

theorem provider_id_round_trip:
  "(instanceIDFromProviderID (buildProviderID i) = Ok i \<longleftrightarrow> i \<noteq> [] \<and> CHR ''/'' \<notin> set i) \<and>
   (instanceIDFromProviderID p = Ok i \<longrightarrow> p = buildProviderID i \<or> p = CHR ''/'' # i) \<and>
   (instanceIDFromProviderID (node_ProviderID n) = Ok i \<longrightarrow> getNodeInstanceID c n = retM i)"
  using instanceID_buildProviderID instanceIDFromProviderID_Ok getNodeInstanceID_agrees by blast

lemma provider_id_round_trip_witness:
  "getNodeInstanceID (idle_client :: nat client) \<lparr>node_Name = ''w'', node_ProviderID = ''edgecenter:///vm-1'', node_Addresses = []\<rparr>
     = retM ''vm-1''"
  using provider_id_round_trip [of "''vm-1''" "''edgecenter:///vm-1''"
      "\<lparr>node_Name = ''w'', node_ProviderID = ''edgecenter:///vm-1'', node_Addresses = []\<rparr>" "idle_client :: nat client"]
  by (simp add: buildProviderID_def ProviderName_def)

text \<open>C38: the addresses of a node: no address is listed twice, every internal or external address comes
  from outside the 100.0.0.0/8 range, and none is IPv6 when that is switched off; the list does not
  depend on the iteration order of the map of networks.\<close>

theorem node_addresses_sound:
  "distinct (nodeAddresses inst o') \<and>
   (\<forall>a \<in> set (nodeAddresses inst o'). address_ok o' a) \<and>
   (distinct (map fst (inst_Addresses inst)) \<and> mset (inst_Addresses inst) = mset (inst_Addresses j) \<and>
      inst_Metadata inst = inst_Metadata j \<longrightarrow> nodeAddresses inst o' = nodeAddresses j o')"
  using nodeAddresses_inv nodeAddresses_order by blast

definition example_instance :: "(string \<times> instance_address list) list \<Rightarrow> cloud_instance" where
  "example_instance nets = \<lparr>inst_ID = ''vm-1'', inst_Name = ''worker-1'', inst_Status = ''ACTIVE'', inst_Flavor = None,
     inst_Metadata = [''hostname'' \<mapsto> ''worker-1''], inst_Addresses = nets, inst_SecurityGroups = []\<rparr>"

lemma node_addresses_sound_witness:
  "let a = (''public'', [\<lparr>ia_Type = ''fixed'', ia_Address = [11, 0, 0, 1]\<rparr>]);
       b = (''private'', [\<lparr>ia_Type = ''fixed'', ia_Address = [10, 0, 0, 1]\<rparr>])
   in \<forall>o'. nodeAddresses (example_instance [a, b]) o' = nodeAddresses (example_instance [b, a]) o'"
  unfolding Let_def
  by (rule allI, rule node_addresses_sound [THEN conjunct2, THEN conjunct2, rule_format]) (simp add: example_instance_def)

text \<open>C39: for a node with a provider ID, \<open>InstanceExists\<close> never answers that the instance does not exist:
  when the API cannot find it, the caller gets the API's error.\<close>

theorem instance_exists_by_provider_id:
  assumes "node_ProviderID n = buildProviderID i" "i \<noteq> []" "CHR ''/'' \<notin> set i"
    and "api_inst_get (Instances (i_client inst)) i (world s) = (Err (Api msg), w)"
  shows "InstanceExists inst (Some n) s =
    (Err (Api msg), s\<lparr>world := w, calls := calls s @ [IN (Instances_Get i)]\<rparr>)"
proof -
  have "instanceIDFromProviderID (node_ProviderID n) = Ok i"
    using assms(1-3) by (simp add: instanceID_buildProviderID)
  moreover have "node_ProviderID n \<noteq> []" by (simp add: assms(1) buildProviderID_def ProviderName_def)
  ultimately show ?thesis
    using assms(4) by (simp add: InstanceExists_def instanceByNode_def inst_get_def tryM_def bindM_def liftM_def call_def
        failM_def)
qed

lemma instance_exists_by_provider_id_witness:
  "\<forall>mo no. InstanceExists \<lparr>i_client = idle_client, i_opts = mo, i_networkingOpts = no\<rparr>
     (Some \<lparr>node_Name = ''w'', node_ProviderID = ''edgecenter:///vm-1'', node_Addresses = []\<rparr>) (start ()) =
   (Err (Api ''404''), \<lparr>world = (), calls = [IN (Instances_Get ''vm-1'')]\<rparr>)"
  by (intro allI, subst instance_exists_by_provider_id [where i = "''vm-1''" and msg = "''404''" and w = "()"])
    (simp_all add: buildProviderID_def ProviderName_def idle_client_def not_found_def start_def)

end
