(* ===== verification/SecurityGroups.thy ===== *)
theory SecurityGroups
  imports Nodes
begin

text \<open>
  Security groups: \<^verbatim>\<open>loadbalancer_securitygroups.go\<close>. \<open>compareSecurityGroup\<close> is the filter on rules, in
  which an empty field of the options matches everything; the operations ensure, update and delete the
  group of a service and attach it to the ports of the nodes. \<^verbatim>\<open>sets.String\<close> is a list without
  repetitions; \<^verbatim>\<open>List()\<close> sorts it, and iteration follows one order of its elements.
\<close>

section \<open>Filtering rules\<close>

record rule_list_opts =
  ro_ID :: string
  ro_SecurityGroupID :: string
  ro_RemoteGroupID :: string
  ro_Direction :: string
  ro_EtherType :: string
  ro_Protocol :: string
  ro_PortRangeMax :: int
  ro_PortRangeMin :: int
  ro_RemoteIPPrefix :: string

abbreviation SGRuleDirectionIngress :: string where "SGRuleDirectionIngress \<equiv> ''ingress''"
abbreviation SGRuleProtocolTCP :: string where "SGRuleProtocolTCP \<equiv> ''tcp''"
abbreviation EtherTypeIPv4 :: string where "EtherTypeIPv4 \<equiv> ''IPv4''"
abbreviation EtherTypeIPv6 :: string where "EtherTypeIPv6 \<equiv> ''IPv6''"

definition no_filter :: rule_list_opts where
  "no_filter = \<lparr>ro_ID = [], ro_SecurityGroupID = [], ro_RemoteGroupID = [], ro_Direction = [],
     ro_EtherType = [], ro_Protocol = [], ro_PortRangeMax = 0, ro_PortRangeMin = 0, ro_RemoteIPPrefix = []\<rparr>"

definition compareSecurityGroup :: "sg_rule \<Rightarrow> rule_list_opts \<Rightarrow> bool" where
  "compareSecurityGroup exists check =
     (if ro_ID check \<noteq> [] \<and> sgr_ID exists \<noteq> ro_ID check then False
      else if ro_SecurityGroupID check \<noteq> [] \<and> sgr_SecurityGroupID exists \<noteq> ro_SecurityGroupID check then False
      else if ro_RemoteGroupID check \<noteq> [] \<and> sgr_RemoteGroupID exists \<noteq> ro_RemoteGroupID check then False
      else if ro_Direction check \<noteq> [] \<and> sgr_Direction exists \<noteq> ro_Direction check then False
      else if ro_EtherType check \<noteq> [] \<and>
        (case sgr_EtherType exists of None \<Rightarrow> True | Some v \<Rightarrow> v \<noteq> ro_EtherType check) then False
      else if ro_Protocol check \<noteq> [] \<and>
        (case sgr_Protocol exists of None \<Rightarrow> True | Some v \<Rightarrow> v \<noteq> ro_Protocol check) then False
      else if ro_PortRangeMax check \<noteq> 0 \<and>
        (case sgr_PortRangeMax exists of None \<Rightarrow> True | Some v \<Rightarrow> v \<noteq> ro_PortRangeMax check) then False
      else if ro_PortRangeMin check \<noteq> 0 \<and>
        (case sgr_PortRangeMin exists of None \<Rightarrow> True | Some v \<Rightarrow> v \<noteq> ro_PortRangeMin check) then False
      else if ro_RemoteIPPrefix check \<noteq> [] \<and>
        (case sgr_RemoteIPPrefix exists of None \<Rightarrow> True | Some v \<Rightarrow> v \<noteq> ro_RemoteIPPrefix check) then False
      else True)"

definition sg_list :: "'w client \<Rightarrow> ('w st, security_group list) prog" where
  "sg_list c = call (\<lambda>_. SG SecurityGroups_List) (api_sg_list (Networks c))"

definition getSecurityGroupRules :: "'w client \<Rightarrow> rule_list_opts \<Rightarrow> ('w st, sg_rule list) prog" where
  "getSecurityGroupRules c opts =
     bindM (if ro_SecurityGroupID opts \<noteq> [] then
              bindM (call (\<lambda>_. SG (SecurityGroups_Get (ro_SecurityGroupID opts)))
                  (api_sg_get (Networks c) (ro_SecurityGroupID opts))) (\<lambda>securityGroup.
                retM (sg_Rules securityGroup))
            else
              bindM (sg_list c) (\<lambda>securityGroups. retM (concat (map sg_Rules securityGroups))))
       (\<lambda>securityRulesAll. retM (filter (\<lambda>rule. compareSecurityGroup rule opts) securityRulesAll))"

definition toRuleProtocol :: "'w client \<Rightarrow> string \<Rightarrow> string" where
  "toRuleProtocol c protocol =
     (let tp = to_lower protocol in
      if \<not> SecurityGroupRuleProtocol_IsValid c tp then SGRuleProtocolTCP else tp)"

text \<open>The test on the last component of the type name of the error.\<close>

definition isSecurityGroupNotFound :: "string \<Rightarrow> bool" where
  "isSecurityGroupNotFound errType = (last (split CHR ''.'' errType) = ''ResourceNotFoundError'')"

section \<open>Groups on nodes\<close>

definition rule_create :: "'w client \<Rightarrow> string \<Rightarrow> rule_create_request \<Rightarrow> ('w st, sg_rule) prog" where
  "rule_create c sgID req = call (\<lambda>_. SG (Rule_Create sgID req)) (api_rule_create (Networks c) sgID req)"

definition node_rule :: "string \<Rightarrow> string \<Rightarrow> string \<Rightarrow> string \<Rightarrow> int \<Rightarrow> rule_create_request" where
  "node_rule etherType protocol nodeSecurityGroupID lbSecGroup port = \<lparr>rc_Direction = SGRuleDirectionIngress,
     rc_EtherType = etherType, rc_Protocol = protocol, rc_SecurityGroupID = Some nodeSecurityGroupID,
     rc_RemoteGroupID = Some lbSecGroup, rc_PortRangeMax = Some port, rc_PortRangeMin = Some port,
     rc_RemoteIPPrefix = None, rc_Description = None\<rparr>"

definition createNodeSecurityGroupRules ::
    "'w client \<Rightarrow> string \<Rightarrow> int \<Rightarrow> string \<Rightarrow> string \<Rightarrow> service \<Rightarrow> ('w st, unit) prog" where
  "createNodeSecurityGroupRules c nodeSG port protocol lbSecGroup svc =
     bindM (rule_create c nodeSG (node_rule EtherTypeIPv4 (toRuleProtocol c protocol) nodeSG lbSecGroup port)) (\<lambda>_.
     bindM (rule_create c nodeSG (node_rule EtherTypeIPv6 (toRuleProtocol c protocol) nodeSG lbSecGroup port)) (\<lambda>_.
       if svc_HealthCheckNodePort svc > 0 \<and> svc_ExternalTrafficPolicy svc = ''Local'' then
         bindM (rule_create c nodeSG
           (node_rule EtherTypeIPv4 SGRuleProtocolTCP nodeSG lbSecGroup (svc_HealthCheckNodePort svc))) (\<lambda>_.
           retM ())
       else retM ()))"

text \<open>The ports of an instance that get the group: those with a subnet outside 100.0.0.0/8 addresses.\<close>

definition eligible_ports :: "string \<Rightarrow> instance_interface list \<Rightarrow> (string \<times> string list) list" where
  "eligible_ports securityGroup interfaces =
     map (\<lambda>iface. (if_PortID iface, [securityGroup]))
       (filter (\<lambda>iface. list_ex (\<lambda>cidr. \<not> has_prefix cidr ''100.'') (if_SubnetCIDRs iface)) interfaces)"

definition apply_node :: "'w client \<Rightarrow> string \<Rightarrow> node \<Rightarrow> unit \<Rightarrow> ('w st, unit) prog" where
  "apply_node c securityGroup n _ =
     bindM (getInstanceByNode c n) (\<lambda>inst.
       if securityGroup \<in> set (inst_SecurityGroups inst) then retM ()
       else
         bindM (wrapM (Wrapf (''failed to list interfaces for instance '' @ inst_ID inst @ '': ''))
           (call (\<lambda>_. IN (Instances_InterfaceList (inst_ID inst)))
             (api_inst_interfaces (Instances c) (inst_ID inst)))) (\<lambda>interfaces.
           let portsSGNames = eligible_ports securityGroup interfaces in
           if length portsSGNames = 0 then retM ()
           else
             (let opts = \<lparr>asg_Name = securityGroup, asg_PortsSecurityGroupNames = portsSGNames\<rparr> in
              wrapM (Wrapf (''failed to assign security group '' @ securityGroup @ '' to instance '' @ inst_ID inst @ '': ''))
                (call (\<lambda>_. SG (SecurityGroup_Assign (inst_ID inst) opts))
                  (api_inst_sg_assign (Instances c) (inst_ID inst) opts)))))"

definition applyNodeSecurityGroupIDForLB :: "'w client \<Rightarrow> node list \<Rightarrow> string \<Rightarrow> ('w st, unit) prog" where
  "applyNodeSecurityGroupIDForLB c nodes securityGroup = foldM (apply_node c securityGroup) nodes ()"

definition disassociateSecurityGroupForLB :: "'w client \<Rightarrow> string \<Rightarrow> string \<Rightarrow> ('w st, unit) prog" where
  "disassociateSecurityGroupForLB c securityGroupID securityGroupName =
     bindM (wrapM (Wrapf (''cannot get instances for security group '' @ securityGroupID @ '': ''))
       (call (\<lambda>_. IN (Instances_FilterBySecurityGroup securityGroupID))
         (api_inst_by_sg (Instances c) securityGroupID))) (\<lambda>insts.
     foldM (\<lambda>inst _.
       if securityGroupName \<notin> set (inst_SecurityGroups inst) then retM ()
       else
         (let opts = \<lparr>asg_Name = securityGroupName, asg_PortsSecurityGroupNames = []\<rparr> in
          wrapM (Wrapf (''failed to unassign security group '' @ securityGroupName @ '' from instance '' @ inst_ID inst @ '': ''))
            (call (\<lambda>_. SG (SecurityGroup_UnAssign (inst_ID inst) opts))
              (api_inst_sg_unassign (Instances c) (inst_ID inst) opts)))) insts ())"

definition getNodeSecurityGroupID :: "'w client \<Rightarrow> node list \<Rightarrow> ('w st, string list) prog" where
  "getNodeSecurityGroupID c nodes =
     bindM (foldM (\<lambda>n secGroupIDs.
         bindM (getNodeInstanceID c n) (\<lambda>instanceID.
         bindM (call (\<lambda>_. IN (Instances_SecurityGroupList instanceID))
           (api_inst_sg_list (Instances c) instanceID)) (\<lambda>list.
           retM (foldl (\<lambda>ids sg. List.insert (sg_ID sg) ids) secGroupIDs list)))) nodes [])
       (\<lambda>secGroupIDs. retM (sort secGroupIDs))"

section \<open>The group of a service\<close>

fun sg_id :: "string \<Rightarrow> security_group list \<Rightarrow> string" where
  "sg_id name [] = []"
| "sg_id name (sg # sgs) = (if sg_Name sg = name then sg_ID sg else sg_id name sgs)"

definition sg_description :: "string \<Rightarrow> service \<Rightarrow> string" where
  "sg_description clusterName svc = ''Security Group for '' @ svc_Namespace svc @ ''/'' @ svc_Name svc @
     '' Service LoadBalancer in cluster '' @ clusterName"

definition lb_rule :: "'w client \<Rightarrow> string \<Rightarrow> service \<Rightarrow> string \<Rightarrow> string \<Rightarrow> service_port \<Rightarrow> rule_create_request" where
  "lb_rule c clusterName svc lbSecGroupID cidr port = \<lparr>rc_Direction = SGRuleDirectionIngress,
     rc_EtherType = EtherTypeIPv4, rc_Protocol = toRuleProtocol c (sp_Protocol port),
     rc_SecurityGroupID = Some lbSecGroupID, rc_RemoteGroupID = None,
     rc_PortRangeMax = Some (sp_NodePort port), rc_PortRangeMin = Some (sp_NodePort port),
     rc_RemoteIPPrefix = Some cidr, rc_Description = Some (sg_description clusterName svc)\<rparr>"

definition ensure_rule ::
    "'w client \<Rightarrow> string \<Rightarrow> service \<Rightarrow> service_options \<Rightarrow> string \<Rightarrow> service_port \<Rightarrow> unit \<Rightarrow> ('w st, unit) prog" where
  "ensure_rule c clusterName svc opts lbSecGroupID port _ =
     bindM (wrapM (Wrapf (''failed to find subnet '' @ so_SubnetID opts @ '' from edgecenter API: ''))
       (call (\<lambda>_. NW (Subnetworks_Get (so_SubnetID opts))) (api_subnet_get (Networks c) (so_SubnetID opts)))) (\<lambda>subnet.
     bindM (wrapM (Wrapf (''failed to find security group rules in '' @ lbSecGroupID @ '': ''))
       (getSecurityGroupRules c (no_filter\<lparr>ro_Direction := SGRuleDirectionIngress,
         ro_Protocol := toRuleProtocol c (sp_Protocol port), ro_PortRangeMax := sp_NodePort port,
         ro_PortRangeMin := sp_NodePort port, ro_RemoteIPPrefix := sn_CIDR subnet,
         ro_SecurityGroupID := lbSecGroupID\<rparr>))) (\<lambda>sgRules.
       if length sgRules = 0 then
         bindM (wrapM (Wrapf (''failed to create rule for security group '' @ lbSecGroupID @ '': ''))
           (rule_create c lbSecGroupID (lb_rule c clusterName svc lbSecGroupID (sn_CIDR subnet) port))) (\<lambda>_.
           retM ())
       else retM ()))"

definition ensureSecurityGroup ::
    "'w client \<Rightarrow> string \<Rightarrow> service \<Rightarrow> node list \<Rightarrow> service_options \<Rightarrow> ('w st, unit) prog" where
  "ensureSecurityGroup c clusterName svc nodes opts =
     (if length (svc_Ports svc) = 0 then failM (Errorf ''no ports provided to edgecenter load balancer'')
      else
        (let lbSecGroupName = getSecurityGroupName svc; description = sg_description clusterName svc in
         bindM (sg_list c) (\<lambda>list.
         bindM (if sg_id lbSecGroupName list = [] then
                  bindM (wrapM (Wrapf (''failed to create Security Group for loadbalancer service '' @
                      svc_Namespace svc @ ''/'' @ svc_Name svc @ '': opts: '' @
                      Sprint_sg_request c lbSecGroupName description @ '' ''))
                    (call (\<lambda>_. SG (SecurityGroups_Create lbSecGroupName description))
                      (api_sg_create (Networks c) lbSecGroupName description))) (\<lambda>lbSecGroup.
                    retM (sg_ID lbSecGroup))
                else retM (sg_id lbSecGroupName list)) (\<lambda>lbSecGroupID.
         bindM (foldM (ensure_rule c clusterName svc opts lbSecGroupID) (svc_Ports svc) ()) (\<lambda>_.
           applyNodeSecurityGroupIDForLB c nodes lbSecGroupName)))))"

definition EnsureSecurityGroupDeleted :: "'w lbaas \<Rightarrow> service \<Rightarrow> ('w st, unit) prog" where
  "EnsureSecurityGroupDeleted l svc =
     (let lbSecGroupName = getSecurityGroupName svc in
      bindM (sg_list (l_client l)) (\<lambda>list.
        let lbSecGroupID = sg_id lbSecGroupName list in
        if lbSecGroupID = [] then retM ()
        else
          bindM (if lbo_UseOctavia (l_opts l) then
              wrapM (flatten (''failed to disassociate security group '' @ lbSecGroupID @ '': ''))
                (disassociateSecurityGroupForLB (l_client l) lbSecGroupID lbSecGroupName)
            else retM ()) (\<lambda>_.
            call (\<lambda>_. SG (SecurityGroups_Delete lbSecGroupID)) (api_sg_delete (Networks (l_client l)) lbSecGroupID))))"

section \<open>Updating after node changes\<close>

definition node_rule_filter :: "service_port \<Rightarrow> string \<Rightarrow> string \<Rightarrow> rule_list_opts" where
  "node_rule_filter port sgID lbSecGroupID = no_filter\<lparr>ro_Direction := SGRuleDirectionIngress,
     ro_SecurityGroupID := sgID, ro_RemoteGroupID := lbSecGroupID, ro_PortRangeMax := sp_NodePort port,
     ro_PortRangeMin := sp_NodePort port, ro_Protocol := sp_Protocol port\<rparr>"

definition remove_rules :: "'w client \<Rightarrow> service_port \<Rightarrow> string \<Rightarrow> string \<Rightarrow> unit \<Rightarrow> ('w st, unit) prog" where
  "remove_rules c port lbSecGroupID removal _ =
     bindM (wrapM (Wrapf (''error finding rules for remote group id '' @ lbSecGroupID @ '' in security group id '' @
         removal @ '': '')) (getSecurityGroupRules c (node_rule_filter port removal lbSecGroupID))) (\<lambda>rules.
       foldM (\<lambda>rule _. wrapM (Wrapf (''error occurred deleting security group rule: '' @ sgr_ID rule @ '': ''))
         (call (\<lambda>_. SG (SecurityGroups_Delete (sgr_ID rule))) (api_sg_delete (Networks c) (sgr_ID rule)))) rules ())"

definition create_rules ::
    "'w client \<Rightarrow> service \<Rightarrow> service_port \<Rightarrow> string \<Rightarrow> string \<Rightarrow> unit \<Rightarrow> ('w st, unit) prog" where
  "create_rules c svc port lbSecGroupID nodeSG _ =
     bindM (wrapM (Wrapf (''error finding rules for remote group id '' @ lbSecGroupID @ '' in security group id '' @
         nodeSG @ '': '')) (getSecurityGroupRules c (node_rule_filter port nodeSG lbSecGroupID))) (\<lambda>rules.
       if length rules \<noteq> 0 then retM ()
       else
         wrapM (Wrapf (''error occurred creating security group for loadbalancer service '' @ svc_Namespace svc @
             ''/'' @ svc_Name svc @ '': ''))
           (createNodeSecurityGroupRules c nodeSG (sp_NodePort port) (sp_Protocol port) lbSecGroupID svc))"

definition updateSecurityGroup ::
    "'w lbaas \<Rightarrow> service \<Rightarrow> node list \<Rightarrow> service_options \<Rightarrow> ('w st, unit) prog" where
  "updateSecurityGroup l svc nodes opts =
     (let c = l_client l; lbSecGroupName = getSecurityGroupName svc in
      bindM (wrapM (Wrapf (''failed to find node-security-group for loadbalancer service '' @ svc_Namespace svc @
          ''/'' @ svc_Name svc @ '': '')) (getNodeSecurityGroupID c nodes)) (\<lambda>current.
        let removals = filter (\<lambda>i. i \<notin> set current) (remdups (so_NodeSecurityGroupIDs opts)) in
      bindM (sg_list c) (\<lambda>list.
        let lbSecGroupID = sg_id lbSecGroupName list in
        if lbSecGroupID = [] then failM (Errorf (''error occurred finding security group: '' @ lbSecGroupName))
        else if length (svc_Ports svc) = 0
        then failM (Errorf ''no ports provided to edgecenter load balancer'')
        else
          bindM (foldM (\<lambda>port _.
              bindM (foldM (remove_rules c port lbSecGroupID) removals ()) (\<lambda>_.
                foldM (create_rules c svc port lbSecGroupID) current ())) (svc_Ports svc) ()) (\<lambda>_.
            applyNodeSecurityGroupIDForLB c nodes lbSecGroupName))))"

section \<open>The filter\<close>

text \<open>A field of the options constrains the field of the rule only when it is set.\<close>

lemma compareSecurityGroup_iff:
  "compareSecurityGroup r f \<longleftrightarrow>
     (ro_ID f = [] \<or> sgr_ID r = ro_ID f) \<and>
     (ro_SecurityGroupID f = [] \<or> sgr_SecurityGroupID r = ro_SecurityGroupID f) \<and>
     (ro_RemoteGroupID f = [] \<or> sgr_RemoteGroupID r = ro_RemoteGroupID f) \<and>
     (ro_Direction f = [] \<or> sgr_Direction r = ro_Direction f) \<and>
     (ro_EtherType f = [] \<or> sgr_EtherType r = Some (ro_EtherType f)) \<and>
     (ro_Protocol f = [] \<or> sgr_Protocol r = Some (ro_Protocol f)) \<and>
     (ro_PortRangeMax f = 0 \<or> sgr_PortRangeMax r = Some (ro_PortRangeMax f)) \<and>
     (ro_PortRangeMin f = 0 \<or> sgr_PortRangeMin r = Some (ro_PortRangeMin f)) \<and>
     (ro_RemoteIPPrefix f = [] \<or> sgr_RemoteIPPrefix r = Some (ro_RemoteIPPrefix f))"
proof -
  have opt: "(case v of None \<Rightarrow> True | Some x \<Rightarrow> x \<noteq> y) \<longleftrightarrow> v \<noteq> Some y" for v :: "'a option" and y
    by (auto split: option.splits)
  show ?thesis unfolding compareSecurityGroup_def opt by simp
qed

text \<open>The rule that the API stores for a request: the request's fields, under a new ID.\<close>

definition stored_rule :: "string \<Rightarrow> string \<Rightarrow> rule_create_request \<Rightarrow> sg_rule" where
  "stored_rule ruleID sgID req = \<lparr>sgr_ID = ruleID, sgr_SecurityGroupID = sgID,
     sgr_RemoteGroupID = (case rc_RemoteGroupID req of None \<Rightarrow> [] | Some g \<Rightarrow> g),
     sgr_Direction = rc_Direction req, sgr_EtherType = Some (rc_EtherType req), sgr_Protocol = Some (rc_Protocol req),
     sgr_PortRangeMax = rc_PortRangeMax req, sgr_PortRangeMin = rc_PortRangeMin req,
     sgr_RemoteIPPrefix = rc_RemoteIPPrefix req\<rparr>"

lemma lb_rule_found:
  "compareSecurityGroup (stored_rule i g (lb_rule c cl svc g cidr port))
     (no_filter\<lparr>ro_Direction := SGRuleDirectionIngress, ro_Protocol := toRuleProtocol c (sp_Protocol port),
       ro_PortRangeMax := sp_NodePort port, ro_PortRangeMin := sp_NodePort port, ro_RemoteIPPrefix := cidr,
       ro_SecurityGroupID := g\<rparr>)"
  by (simp add: compareSecurityGroup_iff stored_rule_def lb_rule_def no_filter_def)

lemma node_rule_found:
  "sp_Protocol port \<noteq> [] \<Longrightarrow>
    compareSecurityGroup (stored_rule i sg (node_rule et (toRuleProtocol c (sp_Protocol port)) sg g (sp_NodePort port)))
      (node_rule_filter port sg g) \<longleftrightarrow> toRuleProtocol c (sp_Protocol port) = sp_Protocol port"
  by (simp add: compareSecurityGroup_iff stored_rule_def node_rule_def node_rule_filter_def no_filter_def)

lemma sg_id_in: "sg_id name sgs \<noteq> [] \<Longrightarrow> \<exists>sg \<in> set sgs. sg_Name sg = name \<and> sg_ID sg = sg_id name sgs"
  by (induction sgs) auto

section \<open>Calls\<close>

fun sg_phase :: "api_call \<Rightarrow> bool" where
  "sg_phase (SG SecurityGroups_List) = True"
| "sg_phase (SG (SecurityGroups_Get _)) = True"
| "sg_phase (SG (SecurityGroups_Create _ _)) = True"
| "sg_phase (SG (Rule_Create _ _)) = True"
| "sg_phase (SG (SecurityGroup_Assign _ _)) = True"
| "sg_phase (NW (Subnetworks_Get _)) = True"
| "sg_phase (IN _) = True"
| "sg_phase _ = False"

lemma reads_instances_phase: "reads_instances e \<Longrightarrow> sg_phase e"
  by (auto simp: reads_instances_def)

lemma sg_list_only [emits_intros]: "P (SG SecurityGroups_List) \<Longrightarrow> only calls P (sg_list c)"
  unfolding sg_list_def by (intro emits_intros) simp

lemma getSecurityGroupRules_only: "only calls sg_phase (getSecurityGroupRules c f)"
  unfolding getSecurityGroupRules_def by (intro emits_intros) auto

lemma applyNode_only: "only calls sg_phase (applyNodeSecurityGroupIDForLB c nodes name)"
  unfolding applyNodeSecurityGroupIDForLB_def apply_node_def Let_def
  by (intro emits_intros only_mono [OF getInstanceByNode_only reads_instances_phase]) simp_all

lemma ensureSecurityGroup_only: "only calls sg_phase (ensureSecurityGroup c cl svc nodes opts)"
  unfolding ensureSecurityGroup_def ensure_rule_def rule_create_def Let_def
  by (intro emits_intros getSecurityGroupRules_only applyNode_only) simp_all

fun sg_deletion :: "api_call \<Rightarrow> bool" where
  "sg_deletion (SG SecurityGroups_List) = True"
| "sg_deletion (SG (SecurityGroups_Delete _)) = True"
| "sg_deletion (SG (SecurityGroup_UnAssign _ _)) = True"
| "sg_deletion (IN (Instances_FilterBySecurityGroup _)) = True"
| "sg_deletion _ = False"

lemma EnsureSecurityGroupDeleted_only: "only calls sg_deletion (EnsureSecurityGroupDeleted l svc)"
  unfolding EnsureSecurityGroupDeleted_def disassociateSecurityGroupForLB_def Let_def
  by (intro emits_intros) simp_all

section \<open>Properties\<close>

text \<open>The filter on rules matches exactly the rules that agree with every option that is set.\<close>

theorem rule_filter_matches:
  "compareSecurityGroup r f \<longleftrightarrow>
     (ro_ID f = [] \<or> sgr_ID r = ro_ID f) \<and>
     (ro_SecurityGroupID f = [] \<or> sgr_SecurityGroupID r = ro_SecurityGroupID f) \<and>
     (ro_RemoteGroupID f = [] \<or> sgr_RemoteGroupID r = ro_RemoteGroupID f) \<and>
     (ro_Direction f = [] \<or> sgr_Direction r = ro_Direction f) \<and>
     (ro_EtherType f = [] \<or> sgr_EtherType r = Some (ro_EtherType f)) \<and>
     (ro_Protocol f = [] \<or> sgr_Protocol r = Some (ro_Protocol f)) \<and>
     (ro_PortRangeMax f = 0 \<or> sgr_PortRangeMax r = Some (ro_PortRangeMax f)) \<and>
     (ro_PortRangeMin f = 0 \<or> sgr_PortRangeMin r = Some (ro_PortRangeMin f)) \<and>
     (ro_RemoteIPPrefix f = [] \<or> sgr_RemoteIPPrefix r = Some (ro_RemoteIPPrefix f))"
  by (rule compareSecurityGroup_iff)

text \<open>the rule of a port is not created twice: when the group already holds the rule that an earlier
  run has requested for the port and the subnet, the step for that port only reads.\<close>

theorem rule_not_created_twice:
  assumes "api_subnet_get (Networks c) (so_SubnetID opts) (world s) = (Ok subnet, w1)"
    and "api_sg_get (Networks c) g w1 = (Ok sg, w2)" "g \<noteq> []"
    and "stored_rule i g (lb_rule c cl svc g (sn_CIDR subnet) port) \<in> set (sg_Rules sg)"
  shows "ensure_rule c cl svc opts g port () s = (Ok (), s\<lparr>world := w2, calls := calls s @
    [NW (Subnetworks_Get (so_SubnetID opts)), SG (SecurityGroups_Get g)]\<rparr>)"
proof -
  let ?f = "no_filter\<lparr>ro_Direction := SGRuleDirectionIngress, ro_Protocol := toRuleProtocol c (sp_Protocol port),
       ro_PortRangeMax := sp_NodePort port, ro_PortRangeMin := sp_NodePort port,
       ro_RemoteIPPrefix := sn_CIDR subnet, ro_SecurityGroupID := g\<rparr>"
  have "filter (\<lambda>rule. compareSecurityGroup rule ?f) (sg_Rules sg) \<noteq> []"
    unfolding filter_empty_conv using lb_rule_found [of i g c cl svc "sn_CIDR subnet" port] assms(4) by blast
  with assms(1-3) show ?thesis
    by (simp add: ensure_rule_def getSecurityGroupRules_def bindM_def wrapM_def call_def retM_def)
qed

definition example_port :: service_port where
  "example_port = \<lparr>sp_Name = ''http'', sp_Protocol = ProtocolTCP, sp_Port = 80, sp_NodePort = 30080\<rparr>"

definition example_group :: "unit client \<Rightarrow> security_group" where
  "example_group c = \<lparr>sg_ID = ''sg-1'', sg_Name = ''lb'', sg_Rules =
     [stored_rule ''r-1'' ''sg-1'' (lb_rule c ''k8s'' example_service ''sg-1'' ''10.0.0.0/24'' example_port)]\<rparr>"

definition example_groups :: "unit client" where
  "example_groups = idle_client\<lparr>Networks := (Networks idle_client)\<lparr>
     api_subnet_get := (\<lambda>_ w. (Ok \<lparr>sn_CIDR = ''10.0.0.0/24''\<rparr>, w)),
     api_sg_get := (\<lambda>_ w. (Ok (example_group idle_client), w))\<rparr>\<rparr>"

lemma rule_not_created_twice_witness:
  "\<forall>opts. ensure_rule example_groups ''k8s'' example_service opts ''sg-1'' example_port () (start ()) =
     (Ok (), \<lparr>world = (), calls = [NW (Subnetworks_Get (so_SubnetID opts)), SG (SecurityGroups_Get ''sg-1'')]\<rparr>)"
  by (rule allI, subst rule_not_created_twice [where subnet = "\<lparr>sn_CIDR = ''10.0.0.0/24''\<rparr>" and ?w1.0 = "()"
        and ?w2.0 = "()" and sg = "example_group idle_client" and i = "''r-1''"])
    (simp_all add: example_groups_def example_group_def start_def lb_rule_def toRuleProtocol_def idle_client_def)



end
