(* ===== verification/LoadBalancer.thy ===== *)
theory LoadBalancer
  imports SourceRanges Listeners FloatingIPs SecurityGroups
begin

text \<open>
  The load balancer controller: \<^verbatim>\<open>loadbalancer.go\<close>. \<open>EnsureLoadBalancer\<close> runs the phases in the order
  of the source (options, load balancer, listeners, pools, members, cleanup, floating IP, security
  group), with a wait for ACTIVE between them; \<open>EnsureLoadBalancerDeleted\<close> takes them down. Logging is
  left out; everything else of the handlers is there, the formatting of the errors included.
\<close>

section \<open>Resolving the options of a service\<close>

abbreviation LBMethodRoundRobin :: string where "LBMethodRoundRobin \<equiv> ''ROUND_ROBIN''"
abbreviation LBMethodSourceIP :: string where "LBMethodSourceIP \<equiv> ''SOURCE_IP''"
abbreviation LBMethodLeastConnections :: string where "LBMethodLeastConnections \<equiv> ''LEAST_CONNECTIONS''"

definition getSubnetIDForLB :: "'w client \<Rightarrow> node \<Rightarrow> ('w st, string) prog" where
  "getSubnetIDForLB c n =
     bindM (liftM (nodeAddressForLB n)) (\<lambda>ipAddress.
       let instanceID = (case last_index (node_ProviderID n) CHR ''/'' of
             Some ind \<Rightarrow> drop (ind + 1) (node_ProviderID n)
           | None \<Rightarrow> node_ProviderID n) in
       bindM (call (\<lambda>_. IN (Instances_InterfaceList instanceID)) (api_inst_interfaces (Instances c) instanceID)) (\<lambda>list.
         case find (\<lambda>(a, _). ip_string a = ipAddress) (concat (map if_IPAssignments list)) of
           Some (_, subnetID) \<Rightarrow> retM subnetID
         | None \<Rightarrow> failM (Sent ErrNotFound)))"

text \<open>The options that come from the annotations and the configuration alone.\<close>

definition initial_options :: "'w lbaas \<Rightarrow> service \<Rightarrow> service_options" where
  "initial_options l svc = \<lparr>
     so_FlavorID = getStringFromServiceAnnotation svc AnnotationFlavorID ''lb1-1-2'',
     so_NetworkID = getStringFromServiceAnnotation svc AnnotationNetworkID (lbo_NetworkID (l_opts l)),
     so_SubnetID = getStringFromServiceAnnotation svc AnnotationSubnetID (lbo_SubnetID (l_opts l)),
     so_FloatingNetworkID = getStringFromServiceAnnotation svc AnnotationFloatingNetworkID
       (lbo_FloatingNetworkID (l_opts l)),
     so_Internal = False, so_KeepClientIP = False, so_UseProxyProtocol = False, so_SecretID = [],
     so_Timeouts = None, so_LBMethod = [], so_SessionPersistence = None,
     so_CreateMonitor = lbo_CreateMonitor (l_opts l),
     so_ManageSecurityGroups = lbo_ManageSecurityGroups (l_opts l),
     so_LBClass = None, so_NodeSecurityGroupIDs = []\<rparr>"

definition lookup_class :: "'w lbaas \<Rightarrow> string \<Rightarrow> lb_class option" where
  "lookup_class l class = (case lbo_LBClasses (l_opts l) of None \<Rightarrow> None | Some m \<Rightarrow> m class)"

text \<open>The load balancer class, or the annotation for internal load balancers.\<close>

definition resolve_class :: "'w lbaas \<Rightarrow> service \<Rightarrow> service_options \<Rightarrow> service_options outcome" where
  "resolve_class l svc opts =
     (let class = getStringFromServiceAnnotation svc AnnotationClass [] in
      if class \<noteq> [] then
        (case lookup_class l class of
           None \<Rightarrow> Err (Errorf (''invalid loadbalancer class '' @ quoted class))
         | Some lbClass \<Rightarrow>
             if lbcl_FloatingNetworkID lbClass = [] \<and> lbcl_FloatingSubnetID lbClass = [] \<and> lbcl_SubnetID lbClass = []
             then Err (Errorf (''empty loadbalancer class configuration for class '' @ quoted class))
             else Ok (opts\<lparr>
               so_Internal := lbcl_FloatingNetworkID lbClass = [] \<and> lbcl_FloatingSubnetID lbClass = [] \<and>
                 lbcl_SubnetID lbClass \<noteq> [],
               so_NetworkID := (if lbcl_NetworkID lbClass \<noteq> [] then lbcl_NetworkID lbClass else so_NetworkID opts),
               so_SubnetID := (if lbcl_SubnetID lbClass \<noteq> [] then lbcl_SubnetID lbClass else so_SubnetID opts),
               so_FloatingNetworkID := (if lbcl_FloatingNetworkID lbClass \<noteq> []
                 then lbcl_FloatingNetworkID lbClass else so_FloatingNetworkID opts),
               so_LBClass := Some lbClass\<rparr>))
      else
        (case getBoolFromServiceAnnotation svc AnnotationInternal (lbo_InternalLB (l_opts l)) of
           Ok internalAnnotation \<Rightarrow> Ok (opts\<lparr>so_Internal := internalAnnotation\<rparr>)
         | Err e \<Rightarrow> Err e
         | Panic p \<Rightarrow> Panic p))"

text \<open>The checks that need no call: protocols and source ranges.\<close>

definition check_ranges :: "'w lbaas \<Rightarrow> service \<Rightarrow> service_options \<Rightarrow> unit outcome" where
  "check_ranges l svc opts =
     (if \<not> lbo_UseOctavia (l_opts l) \<and> list_ex (\<lambda>port. sp_Protocol port \<noteq> ProtocolTCP) (svc_Ports svc)
      then Err (Errorf ''only TCP LoadBalancer is supported for edgecenter load balancers'')
      else case GetLoadBalancerSourceRanges svc of
        Err e \<Rightarrow> Err (flatten (''failed to get source ranges for loadbalancer service '' @ svc_Namespace svc @
          ''/'' @ svc_Name svc @ '': '') e)
      | Panic p \<Rightarrow> Panic p
      | Ok sourceRanges \<Rightarrow>
          if \<not> lbo_UseOctavia (l_opts l) \<and> \<not> IsAllowAll sourceRanges \<and> \<not> so_ManageSecurityGroups opts
          then Err (Errorf ''source range restrictions are not supported for edgecenter load balancers without managing security groups'')
          else Ok ())"

text \<open>Affinity, method, forwarding, proxy protocol and timeouts.\<close>

definition resolve_traffic :: "'w lbaas \<Rightarrow> service \<Rightarrow> service_options \<Rightarrow> service_options outcome" where
  "resolve_traffic l svc opts =
     (let affinity = svc_SessionAffinity svc; lbMethod = lbo_LBMethod (l_opts l) in
      if affinity \<noteq> ServiceAffinityClientIP \<and> affinity \<noteq> ServiceAffinityNone
      then Err (Errorf (''unsupported load balancer affinity: '' @ affinity))
      else case getBoolFromServiceAnnotation svc AnnotationXForwardedFor False of
        Err e \<Rightarrow> Err (Wrapf ''failed to get X-Forwarded-For annotation: '' e)
      | Panic p \<Rightarrow> Panic p
      | Ok keepClientIP \<Rightarrow>
          (case getBoolFromServiceAnnotation svc AnnotationProxyEnabled False of
             Err e \<Rightarrow> Err e
           | Panic p \<Rightarrow> Panic p
           | Ok useProxyProtocol \<Rightarrow>
               if useProxyProtocol \<and> keepClientIP
               then Err (Errorf (''annotation '' @ AnnotationProxyEnabled @ '' and '' @ AnnotationXForwardedFor @
                 '' cannot be used together''))
               else Ok (opts\<lparr>
                 so_SessionPersistence :=
                   (if affinity = ServiceAffinityClientIP then Some SessionPersistenceSourceIP else None),
                 so_LBMethod :=
                   (if lbMethod = LBMethodRoundRobin \<or> lbMethod = LBMethodSourceIP \<or> lbMethod = LBMethodLeastConnections
                    then lbMethod else LBMethodRoundRobin),
                 so_KeepClientIP := keepClientIP,
                 so_UseProxyProtocol := useProxyProtocol,
                 so_Timeouts := (case parseListenerTimeouts svc of Ok t \<Rightarrow> Some t | _ \<Rightarrow> None)\<rparr>)))"

definition resolveServiceOptions :: "'w lbaas \<Rightarrow> service \<Rightarrow> node list \<Rightarrow> ('w st, service_options) prog" where
  "resolveServiceOptions l svc nodes =
     (let opts = initial_options l svc in
      bindM (if so_SubnetID opts = [] \<and> so_NetworkID opts = [] then
               bindM (firstM nodes) (\<lambda>n.
               bindM (wrapM (flatten (''no subnet-id for service '' @ svc_Namespace svc @ ''/'' @ svc_Name svc @
                   '': subnet-id not set in cloud provider config, and failed to find subnet-id from Edgecenter: ''))
                 (getSubnetIDForLB (l_client l) n)) (\<lambda>subnetID.
                 retM (opts\<lparr>so_SubnetID := subnetID\<rparr>)))
             else retM opts) (\<lambda>opts.
      bindM (liftM (resolve_class l svc opts)) (\<lambda>opts.
      bindM (if so_FloatingNetworkID opts = [] \<and> \<not> so_Internal opts then
               tryM (getFloatingNetworkIDForLB (l_client l)) (\<lambda>_. retM opts)
                 (\<lambda>floatingPool. retM (opts\<lparr>so_FloatingNetworkID := floatingPool\<rparr>))
             else retM opts) (\<lambda>opts.
      if \<not> so_Internal opts \<and> so_FloatingNetworkID opts = []
      then failM (Errorf (''floating-network-id or '' @ AnnotationFloatingNetworkID @
        '' should be specified when ensuring an external loadbalancer service''))
      else
        bindM (liftM (check_ranges l svc opts)) (\<lambda>_.
        bindM (liftM (resolve_traffic l svc opts)) (\<lambda>opts.
        bindM (getSecretID l svc) (\<lambda>secretID.
          retM (opts\<lparr>so_SecretID := secretID\<rparr>))))))))"

section \<open>Finding, creating and deleting load balancers\<close>

definition live :: "string \<Rightarrow> loadbalancer \<Rightarrow> bool" where
  "live name lb \<longleftrightarrow> lb_Name lb = name \<and> lb_ProvisioningStatus lb \<noteq> ProvisioningStatusDeleted \<and>
     lb_ProvisioningStatus lb \<noteq> ProvisioningStatusPendingDelete"

definition getLoadbalancerByName :: "'w client \<Rightarrow> string \<Rightarrow> string \<Rightarrow> ('w st, loadbalancer) prog" where
  "getLoadbalancerByName c name legacyName =
     bindM (call (\<lambda>_. LB Loadbalancers_List) (api_lb_list (Loadbalancers c))) (\<lambda>list.
       let validLBs = filter (live name) list in
       if length validLBs > 1 then failM (Sent ErrMultipleResults)
       else if length validLBs = 0 then
         (let validLBs = filter (live legacyName) list in
          if length validLBs > 1 then failM (Sent ErrMultipleResults)
          else if length validLBs = 0 then failM (Sent ErrNotFound)
          else firstM validLBs)
       else firstM validLBs)"

definition createLoadBalancer :: "'w lbaas \<Rightarrow> string \<Rightarrow> service_options \<Rightarrow> ('w st, loadbalancer) prog" where
  "createLoadBalancer l name opts =
     (let createOpts = \<lparr>lbc_Name = name, lbc_Flavor = so_FlavorID opts, lbc_VipNetworkID = so_NetworkID opts,
          lbc_VipSubnetID = so_SubnetID opts\<rparr> in
      bindM (wrapM (Wrapf ''failed to create loadbalancer: '')
        (call (\<lambda>_. LB (Loadbalancers_Create createOpts)) (api_lb_create (Loadbalancers (l_client l)) createOpts))) (\<lambda>task.
      bindM (firstM (task_Loadbalancers task)) (\<lambda>lbID.
        wrapM (Wrapf (''cannot get loadbalancer with ID: '' @ lbID @ ''. Error: '')) (lb_get (l_client l) lbID))))"

definition deleteLoadBalancer :: "'w lbaas \<Rightarrow> string \<Rightarrow> ('w st, unit) prog" where
  "deleteLoadBalancer l lbID =
     bindM (wrapM (Wrapf (''failed to delete loadbalancer '' @ lbID @ '': ''))
       (call (\<lambda>_. LB (Loadbalancers_Delete lbID)) (api_lb_delete (Loadbalancers (l_client l)) lbID))) (\<lambda>_.
     bindM (wrapM (Wrapf (''failed to check if loadbalancer '' @ lbID @ '' exists: ''))
       (lb_exists (l_client l) lbID)) (\<lambda>isExist.
       if \<not> isExist then retM ()
       else failM (Errorf (''cannot delete loadbalancer with ID '' @ lbID))))"

definition lb_name :: "'w lbaas \<Rightarrow> service \<Rightarrow> string" where
  "lb_name l svc = GetLoadBalancerName (eo_ClusterID (l_edgecenter l)) svc"

definition lb_legacy_name :: "'w lbaas \<Rightarrow> service \<Rightarrow> string" where
  "lb_legacy_name l svc = GetLoadBalancerLegacyName (l_client l) svc"

definition GetLoadBalancer :: "'w lbaas \<Rightarrow> service \<Rightarrow> ('w st, string list option \<times> bool) prog" where
  "GetLoadBalancer l svc =
     tryM (getLoadbalancerByName (l_client l) (lb_name l svc) (lb_legacy_name l svc))
       (\<lambda>err. if errors_Is err ErrNotFound then retM (None, False) else failM err)
       (\<lambda>lb. retM (Some [ip_string (lb_VipAddress lb)], True))"

definition ensureServiceFloatingIP :: "'w lbaas \<Rightarrow> service \<Rightarrow> loadbalancer \<Rightarrow> ('w st, ip) prog" where
  "ensureServiceFloatingIP l svc lb =
     (let lbIP = (if length (svc_Ingress svc) > 0 then hd (svc_Ingress svc) else []);
          existingAddr = (if lbIP \<noteq> [] then parse_ip lbIP else []) in
      wrapM (flatten ''failed to create floating IP: '')
        (EnsureFloatingIP (l_client l) False (lb_VipPortID lb) existingAddr))"

section \<open>Ensuring\<close>

text \<open>A wait between phases; its error names the status that was seen last.\<close>

definition wait_phase :: "'w client \<Rightarrow> string \<Rightarrow> string \<Rightarrow> ('w st, unit) prog" where
  "wait_phase c lbID after =
     bindM (waitLoadbalancerActiveProvisioningStatus c lbID) (\<lambda>(provisioningStatus, err).
       case err of None \<Rightarrow> retM ()
       | Some e \<Rightarrow> failM (Wrapf (''timeout when waiting for loadbalancer to be ACTIVE'' @ after @
           '', current provisioning status '' @ provisioningStatus @ '': '') e))"

definition find_or_create :: "'w lbaas \<Rightarrow> service \<Rightarrow> service_options \<Rightarrow> ('w st, loadbalancer) prog" where
  "find_or_create l svc opts =
     (let serviceName = svc_Namespace svc @ ''/'' @ svc_Name svc; name = lb_name l svc in
      tryM (getLoadbalancerByName (l_client l) name (lb_legacy_name l svc))
        (\<lambda>err. if \<not> errors_Is err ErrNotFound
           then failM (Wrapf (''error getting loadbalancer for Service '' @ serviceName @ '': '') err)
           else wrapM (flatten (''error creating loadbalancer '' @ name @ '': '')) (createLoadBalancer l name opts))
        retM)"

definition EnsureLoadBalancer ::
    "'w lbaas \<Rightarrow> string \<Rightarrow> service \<Rightarrow> node list \<Rightarrow> ('w st, string list) prog" where
  "EnsureLoadBalancer l clusterName svc nodes =
     (let serviceName = svc_Namespace svc @ ''/'' @ svc_Name svc; ports = svc_Ports svc in
      if length nodes = 0
      then failM (Errorf (''there are no available nodes for LoadBalancer service '' @ serviceName))
      else if length ports = 0 then failM (Errorf ''no ports provided to edgecenter load balancer'')
      else
        bindM (resolveServiceOptions l svc nodes) (\<lambda>opts.
        bindM (find_or_create l svc opts) (\<lambda>lb.
        bindM (wait_phase (l_client l) (lb_ID lb) []) (\<lambda>_.
        bindM (ensureLoadBalancerListeners l lb ports opts) (\<lambda>(listeners, obsoleteListeners).
        bindM (wait_phase (l_client l) (lb_ID lb) '' after listeners phase'') (\<lambda>_.
        bindM (ensureLoadBalancerPools l lb svc listeners opts) (\<lambda>(pools, obsoletePools).
        bindM (wait_phase (l_client l) (lb_ID lb) '' after pools phase'') (\<lambda>_.
        bindM (reconcilePoolMembers l lb svc pools opts nodes) (\<lambda>_.
        bindM (deleteObsoleteListenersAndPools l lb obsoleteListeners obsoletePools) (\<lambda>_.
        bindM (if \<not> so_Internal opts then ensureServiceFloatingIP l svc lb else retM (lb_VipAddress lb)) (\<lambda>address.
        bindM (if so_ManageSecurityGroups opts then
                 wrapM (flatten (''failed when reconciling security groups for LB service '' @ serviceName @ '': ''))
                   (ensureSecurityGroup (l_client l) clusterName svc nodes opts)
               else retM ()) (\<lambda>_.
          retM [ip_string address]))))))))))))"

definition UpdateLoadBalancer :: "'w lbaas \<Rightarrow> string \<Rightarrow> service \<Rightarrow> node list \<Rightarrow> ('w st, unit) prog" where
  "UpdateLoadBalancer l clusterName svc nodes =
     bindM (EnsureLoadBalancer l clusterName svc nodes) (\<lambda>_. retM ())"

section \<open>Deleting\<close>

definition delete_fips :: "'w lbaas \<Rightarrow> loadbalancer \<Rightarrow> string list \<Rightarrow> ('w st, unit) prog" where
  "delete_fips l lb ingress =
     foldM (\<lambda>ing _.
       let existingAddr = parse_ip ing in
       if existingAddr = [] then retM ()
       else tryM (EnsureFloatingIP (l_client l) True (lb_VipPortID lb) existingAddr) (\<lambda>_. retM ()) (\<lambda>_. retM ()))
       ingress ()"

definition EnsureLoadBalancerDeleted :: "'w lbaas \<Rightarrow> service \<Rightarrow> ('w st, unit) prog" where
  "EnsureLoadBalancerDeleted l svc =
     (let serviceName = svc_Namespace svc @ ''/'' @ svc_Name svc in
      bindM (tryM (getLoadbalancerByName (l_client l) (lb_name l svc) (lb_legacy_name l svc))
        (\<lambda>err. if \<not> errors_Is err ErrNotFound then failM err else retM None) (\<lambda>lb. retM (Some lb))) (\<lambda>loadbalancer.
      case loadbalancer of
        None \<Rightarrow> retM ()
      | Some lb \<Rightarrow>
          bindM (wrapM (flatten (''error getting listeners for LB '' @ lb_ID lb @ '': ''))
            (getListenersByLoadBalancerID (l_client l) (lb_ID lb))) (\<lambda>allListeners.
          bindM (foldM (\<lambda>ln _. ensureListenerDeleted l lb ln) allListeners ()) (\<lambda>_.
          bindM (wrapM (Wrapf (''failed to delete loadbalancer '' @ lb_ID lb @ '': ''))
            (deleteLoadBalancer l (lb_ID lb))) (\<lambda>_.
          bindM (wrapM (Wrapf (''failed to delete loadbalancer '' @ lb_ID lb @ '': ''))
            (waitLoadbalancerDeleted (l_client l) (lb_ID lb))) (\<lambda>_.
          bindM (if lbo_ManageSecurityGroups (l_opts l) then
                   wrapM (flatten (''failed to delete Security Group for loadbalancer service '' @ serviceName @ '': ''))
                     (EnsureSecurityGroupDeleted l svc)
                 else retM ()) (\<lambda>_.
          bindM (wrapM (Wrapf ''cant get internal annotation: '')
            (liftM (getBoolFromServiceAnnotation svc AnnotationSaveFloating False))) (\<lambda>shouldSaveFIP.
            if \<not> shouldSaveFIP \<and> length (svc_Ingress svc) > 0 then delete_fips l lb (svc_Ingress svc)
            else retM ()))))))))"

end
