(* ===== verification/Phases.thy ===== *)
theory Phases
  imports LoadBalancer
begin

text \<open>
  The order of the phases. \<open>phase_of\<close> classifies the calls that change something (reads have none), in
  the order in which \<open>EnsureLoadBalancer\<close> may make them; \<open>teardown_of\<close> does the same for
  \<open>EnsureLoadBalancerDeleted\<close>. \<open>phased f lo hi es\<close>: the phases of \<open>es\<close> are sorted and between \<open>lo\<close> and
  \<open>hi\<close>; its rules follow the sequence of statements of a handler.
\<close>

section \<open>Phases as a linear order\<close>

datatype phase =
  SecretPhase | LoadBalancerPhase | ListenerPhase | PoolPhase | MemberPhase
  | PoolCleanupPhase | ListenerCleanupPhase | FloatingIPPhase | SecurityGroupPhase

fun phase_rank :: "phase \<Rightarrow> nat" where
  "phase_rank SecretPhase = 0"
| "phase_rank LoadBalancerPhase = 1"
| "phase_rank ListenerPhase = 2"
| "phase_rank PoolPhase = 3"
| "phase_rank MemberPhase = 4"
| "phase_rank PoolCleanupPhase = 5"
| "phase_rank ListenerCleanupPhase = 6"
| "phase_rank FloatingIPPhase = 7"
| "phase_rank SecurityGroupPhase = 8"

lemma phase_rank_inject: "phase_rank a = phase_rank b \<longleftrightarrow> a = b"
  by (cases a; cases b) simp_all

instantiation phase :: linorder
begin

definition less_eq_phase :: "phase \<Rightarrow> phase \<Rightarrow> bool" where
  "less_eq_phase a b \<longleftrightarrow> phase_rank a \<le> phase_rank b"

definition less_phase :: "phase \<Rightarrow> phase \<Rightarrow> bool" where
  "less_phase a b \<longleftrightarrow> phase_rank a < phase_rank b"

instance
  by standard (auto simp: less_eq_phase_def less_phase_def phase_rank_inject)

end

fun phase_of :: "api_call \<Rightarrow> phase option" where
  "phase_of (PL (Secret_Post _ _)) = Some SecretPhase"
| "phase_of (LB (Loadbalancers_Create _)) = Some LoadBalancerPhase"
| "phase_of (LB (Listener_Create _)) = Some ListenerPhase"
| "phase_of (LB (Listener_Update _ _)) = Some ListenerPhase"
| "phase_of (PL (Pool_Create _)) = Some PoolPhase"
| "phase_of (PL (Pool_Update _ _)) = Some MemberPhase"
| "phase_of (PL (Pool_Delete _)) = Some PoolCleanupPhase"
| "phase_of (LB (Listener_Delete _)) = Some ListenerCleanupPhase"
| "phase_of (NW (Floatingips_Create _)) = Some FloatingIPPhase"
| "phase_of (NW (Floatingips_Assign _ _)) = Some FloatingIPPhase"
| "phase_of (SG (SecurityGroups_Create _ _)) = Some SecurityGroupPhase"
| "phase_of (SG (Rule_Create _ _)) = Some SecurityGroupPhase"
| "phase_of (SG (SecurityGroup_Assign _ _)) = Some SecurityGroupPhase"
| "phase_of _ = None"

fun teardown_of :: "api_call \<Rightarrow> nat option" where
  "teardown_of (PL (Pool_Delete _)) = Some 0"
| "teardown_of (LB (Listener_Delete _)) = Some 0"
| "teardown_of (LB (Loadbalancers_Delete _)) = Some 1"
| "teardown_of (SG (SecurityGroup_UnAssign _ _)) = Some 2"
| "teardown_of (SG (SecurityGroups_Delete _)) = Some 2"
| "teardown_of (NW (Floatingips_Delete _)) = Some 3"
| "teardown_of _ = None"

section \<open>Sequences of phases\<close>

definition phases :: "('e \<Rightarrow> 'p option) \<Rightarrow> 'e list \<Rightarrow> 'p list" where
  "phases f es = List.map_filter f es"

definition phased :: "('e \<Rightarrow> ('p :: linorder) option) \<Rightarrow> 'p \<Rightarrow> 'p \<Rightarrow> 'e list \<Rightarrow> bool" where
  "phased f lo hi es \<longleftrightarrow> sorted (phases f es) \<and> (\<forall>p \<in> set (phases f es). lo \<le> p \<and> p \<le> hi)"

lemma phases_simps [simp]:
  "phases f [] = []"
  "phases f (xs @ ys) = phases f xs @ phases f ys"
  by (simp_all add: phases_def List.map_filter_def)

lemma set_phases: "p \<in> set (phases f es) \<longleftrightarrow> (\<exists>e \<in> set es. f e = Some p)"
  by (force simp: phases_def List.map_filter_def)

lemma phases_empty: "list_all (\<lambda>e. f e = None) es \<Longrightarrow> phases f es = []"
  by (induction es) (simp_all add: phases_def List.map_filter_simps)

lemma phased_append:
  "phased f lo mid xs \<Longrightarrow> phased f mid hi ys \<Longrightarrow> lo \<le> mid \<Longrightarrow> mid \<le> hi \<Longrightarrow> phased f lo hi (xs @ ys)"
  by (fastforce simp: phased_def sorted_append)

lemma phased_mono: "phased f lo hi es \<Longrightarrow> lo' \<le> lo \<Longrightarrow> hi \<le> hi' \<Longrightarrow> phased f lo' hi' es"
  by (fastforce simp: phased_def)

lemma always_wrap: "always tr R m \<Longrightarrow> always tr R (wrapM f m)"
  unfolding always_def by (erule emits_wrapM) auto

lemma phased_bindM:
  assumes "always tr (phased f lo mid) m" "\<And>x. always tr (phased f mid hi) (k x)" "lo \<le> mid" "mid \<le> hi"
  shows "always tr (phased f lo hi) (bindM m k)"
  using assms(1,2) unfolding always_def
  by (rule emits_bindM) (use assms(3,4) in \<open>auto intro: phased_append phased_mono\<close>)

lemma phased_ret: "always tr (phased f lo hi) (retM x)" "always tr (phased f lo hi) (failM e)"
  "always tr (phased f lo hi) (liftM r)"
  by (simp_all add: always_def emits_retM emits_failM wp_liftM phased_def)

text \<open>A part whose calls are reads, or of one phase.\<close>

lemma phased_only:
  assumes "only tr (\<lambda>e. f e \<in> {None, Some p}) m" "lo \<le> p" "p \<le> hi"
  shows "always tr (phased f lo hi) m"
proof (rule always_mono [OF assms(1)])
  fix es
  assume es: "list_all (\<lambda>e. f e \<in> {None, Some p}) es"
  then have rep: "phases f es = replicate (length (phases f es)) p"
    by (induction es) (auto simp: phases_def List.map_filter_simps)
  have "sorted (phases f es)" by (subst rep) simp
  moreover have "set (phases f es) \<subseteq> {p}" by (subst rep) auto
  ultimately show "phased f lo hi es" using assms(2,3) by (auto simp: phased_def)
qed

lemma phased_reads: "only tr (\<lambda>e. f e = None) m \<Longrightarrow> always tr (phased f lo hi) m"
  by (erule always_mono) (simp add: phased_def phases_empty)

lemma phased_foldM:
  assumes "\<And>x acc. always tr (phased f p p) (g x acc)"
  shows "always tr (phased f p p) (foldM g xs acc)"
proof (induction xs arbitrary: acc)
  case Nil
  show ?case by (simp add: phased_ret)
next
  case (Cons x xs)
  then show ?case by (auto intro: phased_bindM assms)
qed

section \<open>Calls of the load balancer operations\<close>

lemma is_get_no_phase [simp]: "is_get i e \<Longrightarrow> phase_of e = None" "is_get i e \<Longrightarrow> teardown_of e = None"
  by (cases "(i, e)" rule: is_get.cases; simp)+

lemma getSubnetIDForLB_only: "only calls (\<lambda>e. \<exists>i. e = IN (Instances_InterfaceList i)) (getSubnetIDForLB c n)"
  unfolding getSubnetIDForLB_def Let_def by (intro emits_intros) simp

definition resolves :: "api_call \<Rightarrow> bool" where
  "resolves e \<longleftrightarrow> (\<exists>i. e = IN (Instances_InterfaceList i)) \<or> e = NW Networks_List \<or> (\<exists>p i. e = PL (Secret_Post p i))"

lemma resolveServiceOptions_only: "only calls resolves (resolveServiceOptions l svc nodes)"
  unfolding resolveServiceOptions_def Let_def
  by (intro emits_intros only_mono [OF getSubnetIDForLB_only] only_mono [OF getSecretID_only])
    (auto simp: resolves_def)

lemma getLoadbalancerByName_only: "only calls (\<lambda>e. e = LB Loadbalancers_List) (getLoadbalancerByName c n ln)"
  unfolding getLoadbalancerByName_def Let_def by (intro emits_intros) simp

lemma lb_get_only: "only calls (is_get i) (lb_get c i)"
  unfolding lb_get_def by (intro emits_intros) simp

definition finds_or_creates :: "string \<Rightarrow> api_call \<Rightarrow> bool" where
  "finds_or_creates name e \<longleftrightarrow> e = LB Loadbalancers_List \<or> (\<exists>i. is_get i e) \<or>
     (\<exists>req. e = LB (Loadbalancers_Create req) \<and> lbc_Name req = name)"

lemma find_or_create_only: "only calls (finds_or_creates (lb_name l svc)) (find_or_create l svc opts)"
  unfolding find_or_create_def createLoadBalancer_def Let_def
  by (intro emits_intros only_mono [OF getLoadbalancerByName_only] only_mono [OF lb_get_only])
    (auto simp: finds_or_creates_def)

lemma wait_phase_only: "drivers c \<Longrightarrow> only calls (is_get i) (wait_phase c i after)"
  unfolding wait_phase_def by (intro emits_intros wait_status_only)

lemma ensureServiceFloatingIP_only:
  "only calls (\<lambda>e. reads_fip e \<or> creates_fip (lb_VipPortID lb) e) (ensureServiceFloatingIP l svc lb)"
  unfolding ensureServiceFloatingIP_def Let_def by (intro emits_intros EnsureFloatingIP_ensure_only)

section \<open>The phase of each part\<close>

lemma reads_fip_phase: "reads_fip e \<Longrightarrow> phase_of e = None"
  by (cases e rule: reads_fip.cases) auto

lemma creates_fip_phase: "creates_fip p e \<Longrightarrow> phase_of e = Some FloatingIPPhase"
  by (cases "(p, e)" rule: creates_fip.cases) auto

lemma sg_phase_phase: "sg_phase e \<Longrightarrow> phase_of e \<in> {None, Some SecurityGroupPhase}"
  by (cases e rule: sg_phase.cases) auto

lemma deletes_pool_phase: "deletes_pool i p e \<Longrightarrow> phase_of e \<in> {None, Some PoolCleanupPhase}"
  by (auto simp: deletes_pool_def)

lemma deletes_listener_phase: "deletes_listener i p e \<Longrightarrow> phase_of e \<in> {None, Some ListenerCleanupPhase}"
  by (auto simp: deletes_listener_def)

lemma ensureServiceFloatingIP_phase:
  "always calls (phased phase_of FloatingIPPhase FloatingIPPhase) (ensureServiceFloatingIP l svc lb)"
  by (rule phased_only [where p = FloatingIPPhase], rule only_mono [OF ensureServiceFloatingIP_only])
    (auto simp: reads_fip_phase creates_fip_phase)

lemma ensureSecurityGroup_phase:
  "always calls (phased phase_of SecurityGroupPhase SecurityGroupPhase) (ensureSecurityGroup c cl svc nodes opts)"
  by (rule phased_only [where p = SecurityGroupPhase], rule only_mono [OF ensureSecurityGroup_only], erule sg_phase_phase)
    simp_all

lemma ensureLoadBalancerListeners_phase:
  "drivers (l_client l) \<Longrightarrow> always calls (phased phase_of ListenerPhase ListenerPhase) (ensureLoadBalancerListeners l lb ports opts)"
  by (rule phased_only [where p = ListenerPhase], erule only_mono [OF ensureLoadBalancerListeners_only])
    (auto simp: ensures_listeners_def)

lemma ensureLoadBalancerPools_phase:
  "drivers (l_client l) \<Longrightarrow> always calls (phased phase_of PoolPhase PoolPhase) (ensureLoadBalancerPools l lb svc lns opts)"
  by (rule phased_only [where p = PoolPhase], erule only_mono [OF ensureLoadBalancerPools_only])
    (auto simp: ensures_pools_def)

lemma reconcilePoolMembers_phase:
  "drivers (l_client l) \<Longrightarrow> always calls (phased phase_of MemberPhase MemberPhase) (reconcilePoolMembers l lb svc ps opts nodes)"
  by (rule phased_only [where p = MemberPhase], erule only_mono [OF reconcilePoolMembers_only])
    (auto simp: updates_members_def)

lemma deleteObsolete_phase:
  assumes "drivers (l_client l)"
  shows "always calls (phased phase_of PoolCleanupPhase ListenerCleanupPhase) (deleteObsoleteListenersAndPools l lb lns ps)"
  unfolding deleteObsoleteListenersAndPools_def
proof (rule phased_bindM [where mid = PoolCleanupPhase])
  show "always calls (phased phase_of PoolCleanupPhase PoolCleanupPhase)
      (foldM (\<lambda>pool _. wrapM (Wrapf (''failed to delete obsolete pool '' @ pool_ID pool @ '': ''))
        (deletePoolWithRetry l (lb_ID lb) (pool_ID pool))) ps ())"
    by (rule phased_foldM, rule always_wrap, rule phased_only [where p = PoolCleanupPhase],
      rule only_mono [OF deletePoolWithRetry_only [OF assms]], erule deletes_pool_phase) simp_all
next
  fix u
  have "always calls (phased phase_of ListenerCleanupPhase ListenerCleanupPhase)
      (foldM (\<lambda>ln _. wrapM (Wrapf (''failed to delete obsolete listener '' @ ln_ID ln @ '': ''))
        (deleteListenerWithRetry l (lb_ID lb) (ln_ID ln))) lns ())"
    by (rule phased_foldM, rule always_wrap, rule phased_only [where p = ListenerCleanupPhase],
      rule only_mono [OF deleteListenerWithRetry_only [OF assms]], erule deletes_listener_phase) simp_all
  then show "always calls (phased phase_of PoolCleanupPhase ListenerCleanupPhase)
      (foldM (\<lambda>ln _. wrapM (Wrapf (''failed to delete obsolete listener '' @ ln_ID ln @ '': ''))
        (deleteListenerWithRetry l (lb_ID lb) (ln_ID ln))) lns ())"
    by (rule always_mono) (auto intro: phased_mono simp: less_eq_phase_def)
qed (simp_all add: less_eq_phase_def)

text \<open>The whole handler.\<close>

lemma phased_step:
  assumes "always tr (phased f p q) m" "lo \<le> p" "p \<le> q" "q \<le> hi" "\<And>x. always tr (phased f q hi) (k x)"
  shows "always tr (phased f lo hi) (bindM m k)"
  by (rule phased_bindM [where mid = q, OF always_mono [OF assms(1)] assms(5)])
    (use assms(2-4) in \<open>auto elim: phased_mono\<close>)

lemma wait_then:
  assumes "drivers c" "\<And>x. always calls (phased phase_of lo hi) (k x)" "lo \<le> hi"
  shows "always calls (phased phase_of lo hi) (bindM (wait_phase c i after) k)"
  by (rule phased_bindM [where mid = lo, OF phased_reads [OF only_mono [OF wait_phase_only [OF assms(1)]]] assms(2)])
    (simp_all add: assms(3))

lemma phased_case_prod:
  "(\<And>x y. always tr R (k x y)) \<Longrightarrow> always tr R (case p of (x, y) \<Rightarrow> k x y)"
  by (cases p) simp

lemma EnsureLoadBalancer_phased:
  assumes d: "drivers (l_client l)"
  shows "always calls (phased phase_of SecretPhase SecurityGroupPhase) (EnsureLoadBalancer l cl svc nodes)"
proof -
  note le = less_eq_phase_def
  have fip: "always calls (phased phase_of FloatingIPPhase FloatingIPPhase)
      (if \<not> so_Internal opts then ensureServiceFloatingIP l svc lb else retM (lb_VipAddress lb))" for opts lb
    by (simp add: phased_ret ensureServiceFloatingIP_phase)
  have sg: "always calls (phased phase_of SecurityGroupPhase SecurityGroupPhase)
      (if so_ManageSecurityGroups opts then wrapM f (ensureSecurityGroup (l_client l) cl svc nodes opts) else retM ())" for opts f
    by (simp add: phased_ret always_wrap ensureSecurityGroup_phase)
  have found: "always calls (phased phase_of LoadBalancerPhase LoadBalancerPhase) (find_or_create l svc opts)" for opts
    by (rule phased_only [where p = LoadBalancerPhase], rule only_mono [OF find_or_create_only])
      (auto simp: finds_or_creates_def)
  have res: "always calls (phased phase_of SecretPhase SecretPhase) (resolveServiceOptions l svc nodes)"
    by (rule phased_only [where p = SecretPhase], rule only_mono [OF resolveServiceOptions_only])
      (auto simp: resolves_def)
  have main: "always calls (phased phase_of SecretPhase SecurityGroupPhase)
      (bindM (resolveServiceOptions l svc nodes) (\<lambda>opts.
       bindM (find_or_create l svc opts) (\<lambda>lb.
       bindM (wait_phase (l_client l) (lb_ID lb) []) (\<lambda>_.
       bindM (ensureLoadBalancerListeners l lb (svc_Ports svc) opts) (\<lambda>(listeners, obsoleteListeners).
       bindM (wait_phase (l_client l) (lb_ID lb) w1) (\<lambda>_.
       bindM (ensureLoadBalancerPools l lb svc listeners opts) (\<lambda>(pools, obsoletePools).
       bindM (wait_phase (l_client l) (lb_ID lb) w2) (\<lambda>_.
       bindM (reconcilePoolMembers l lb svc pools opts nodes) (\<lambda>_.
       bindM (deleteObsoleteListenersAndPools l lb obsoleteListeners obsoletePools) (\<lambda>_.
       bindM (if \<not> so_Internal opts then ensureServiceFloatingIP l svc lb else retM (lb_VipAddress lb)) (\<lambda>address.
       bindM (if so_ManageSecurityGroups opts then wrapM f (ensureSecurityGroup (l_client l) cl svc nodes opts) else retM ()) (\<lambda>_.
         retM [ip_string address]))))))))))))" for w1 w2 f
    by (intro phased_step [OF res] phased_step [OF found] wait_then [OF d] phased_case_prod
        phased_step [OF ensureLoadBalancerListeners_phase [OF d]] phased_step [OF ensureLoadBalancerPools_phase [OF d]]
        phased_step [OF reconcilePoolMembers_phase [OF d]] phased_step [OF deleteObsolete_phase [OF d]]
        phased_step [OF fip] phased_step [OF sg] phased_ret) (simp_all add: le)
  show ?thesis
    unfolding EnsureLoadBalancer_def Let_def using main by (auto simp: phased_ret)
qed

end
