(* ===== verification/Reconcile.thy ===== *)
theory Reconcile
  imports Phases
begin

text \<open>
  What a run of the controller guarantees, from the facts about its parts: the options it works with,
  the guards before its mutations, the state of the members after a successful run, the calls that
  internal services and unmanaged security groups exclude, and the order and the result of a deletion.
\<close>

section \<open>The resolved options\<close>

text \<open>Whether the service asks for an internal load balancer, by its class or its annotation.\<close>

definition wants_internal :: "'w lbaas \<Rightarrow> service \<Rightarrow> bool" where
  "wants_internal l svc =
     (let class = getStringFromServiceAnnotation svc AnnotationClass [] in
      if class \<noteq> [] then
        (case lookup_class l class of
           None \<Rightarrow> False
         | Some c \<Rightarrow> lbcl_FloatingNetworkID c = [] \<and> lbcl_FloatingSubnetID c = [] \<and> lbcl_SubnetID c \<noteq> [])
      else
        (case svc_Annotations svc AnnotationInternal of
           None \<Rightarrow> lbo_InternalLB (l_opts l)
         | Some v \<Rightarrow> v = ''true''))"

text \<open>What the rest of the run may rely on.\<close>

definition options_ok :: "'w lbaas \<Rightarrow> service \<Rightarrow> service_options \<Rightarrow> bool" where
  "options_ok l svc opts \<longleftrightarrow>
     (so_Internal opts \<longleftrightarrow> wants_internal l svc) \<and>
     (so_Internal opts \<or> so_FloatingNetworkID opts \<noteq> []) \<and>
     (so_ManageSecurityGroups opts \<longleftrightarrow> lbo_ManageSecurityGroups (l_opts l)) \<and>
     so_LBMethod opts \<in> {LBMethodRoundRobin, LBMethodSourceIP, LBMethodLeastConnections} \<and>
     \<not> (so_UseProxyProtocol opts \<and> so_KeepClientIP opts) \<and>
     (so_SessionPersistence opts = Some SessionPersistenceSourceIP \<longleftrightarrow> svc_SessionAffinity svc = ServiceAffinityClientIP) \<and>
     (lbo_UseOctavia (l_opts l) \<or> (\<forall>sp \<in> set (svc_Ports svc). sp_Protocol sp = ProtocolTCP)) \<and>
     (lbo_UseOctavia (l_opts l) \<or> so_ManageSecurityGroups opts \<or>
       (\<exists>ranges. GetLoadBalancerSourceRanges svc = Ok ranges \<and> IsAllowAll ranges))"

lemma resolve_class_Ok:
  assumes "resolve_class l svc opts = Ok opts'"
  shows "(so_Internal opts' \<longleftrightarrow> wants_internal l svc) \<and>
    so_ManageSecurityGroups opts' = so_ManageSecurityGroups opts"
  using assms
  by (auto simp: resolve_class_def wants_internal_def Let_def getBoolFromServiceAnnotation_def
      split: if_splits option.splits outcome.splits)

lemma check_ranges_Ok:
  assumes "check_ranges l svc opts = Ok ()"
  shows "lbo_UseOctavia (l_opts l) \<or> (\<forall>sp \<in> set (svc_Ports svc). sp_Protocol sp = ProtocolTCP) \<and>
    (so_ManageSecurityGroups opts \<or> (\<exists>ranges. GetLoadBalancerSourceRanges svc = Ok ranges \<and> IsAllowAll ranges))"
  using assms by (auto simp: check_ranges_def list_ex_iff split: if_splits outcome.splits)

lemma resolve_traffic_Ok:
  assumes "resolve_traffic l svc opts = Ok opts'"
  shows "so_Internal opts' = so_Internal opts \<and> so_FloatingNetworkID opts' = so_FloatingNetworkID opts \<and>
    so_ManageSecurityGroups opts' = so_ManageSecurityGroups opts \<and>
    so_LBMethod opts' \<in> {LBMethodRoundRobin, LBMethodSourceIP, LBMethodLeastConnections} \<and>
    \<not> (so_UseProxyProtocol opts' \<and> so_KeepClientIP opts') \<and>
    (so_SessionPersistence opts' = Some SessionPersistenceSourceIP \<longleftrightarrow> svc_SessionAffinity svc = ServiceAffinityClientIP)"
proof -
  let ?m = "lbo_LBMethod (l_opts l)"
  have aff: "svc_SessionAffinity svc = ServiceAffinityClientIP \<or> svc_SessionAffinity svc = ServiceAffinityNone"
    using assms unfolding resolve_traffic_def Let_def by (metis outcome.distinct(1))
  from assms aff obtain keep where keep: "getBoolFromServiceAnnotation svc AnnotationXForwardedFor False = Ok keep"
    unfolding resolve_traffic_def Let_def by (cases "getBoolFromServiceAnnotation svc AnnotationXForwardedFor False") auto
  from assms aff keep obtain proxy where proxy: "getBoolFromServiceAnnotation svc AnnotationProxyEnabled False = Ok proxy"
    unfolding resolve_traffic_def Let_def by (cases "getBoolFromServiceAnnotation svc AnnotationProxyEnabled False") auto
  have "\<not> (proxy \<and> keep)" and opts': "opts' = opts\<lparr>
      so_SessionPersistence :=
        (if svc_SessionAffinity svc = ServiceAffinityClientIP then Some SessionPersistenceSourceIP else None),
      so_LBMethod := (if ?m = LBMethodRoundRobin \<or> ?m = LBMethodSourceIP \<or> ?m = LBMethodLeastConnections
        then ?m else LBMethodRoundRobin),
      so_KeepClientIP := keep, so_UseProxyProtocol := proxy,
      so_Timeouts := (case parseListenerTimeouts svc of Ok t \<Rightarrow> Some t | _ \<Rightarrow> None)\<rparr>"
    using assms aff keep proxy unfolding resolve_traffic_def Let_def by (auto split: if_splits)
  then show ?thesis by simp
qed

lemma resolveServiceOptions_Ok: "yields (resolveServiceOptions l svc nodes) (options_ok l svc)"
  unfolding resolveServiceOptions_def Let_def
proof (rule yields_bind [where P = "\<lambda>o1. so_ManageSecurityGroups o1 = lbo_ManageSecurityGroups (l_opts l)"], goal_cases)
  case 1
  show ?case
    by (intro yield_intros yields_any [where m = "firstM nodes"] yields_any [where m = "getSubnetIDForLB c n" for c n])
      (simp_all add: initial_options_def)
next
  case o1: (2 o1)
  show ?case
  proof (rule yields_bind [where P = "\<lambda>o2. (so_Internal o2 \<longleftrightarrow> wants_internal l svc) \<and>
        so_ManageSecurityGroups o2 = so_ManageSecurityGroups o1"], goal_cases)
    case 1
    show ?case by (rule yields_basic(4)) (rule resolve_class_Ok)
  next
    case o2: (2 o2)
    show ?case
    proof (rule yields_bind [where P = "\<lambda>o3. so_Internal o3 = so_Internal o2 \<and>
          so_ManageSecurityGroups o3 = so_ManageSecurityGroups o2"], goal_cases)
      case 1
      show ?case
        by (intro yield_intros yields_any [where m = "getFloatingNetworkIDForLB c" for c]) simp_all
    next
      case (2 o3)
      then have o3: "(so_Internal o3 \<longleftrightarrow> wants_internal l svc)"
          "so_ManageSecurityGroups o3 = lbo_ManageSecurityGroups (l_opts l)"
        using o1 o2 by auto
      show ?case
        by (intro yield_intros yields_any [where m = "getSecretID l svc"])
          (use o3 in \<open>auto simp: options_ok_def dest!: check_ranges_Ok resolve_traffic_Ok\<close>)
    qed
  qed
qed

section \<open>Guarded mutations\<close>

lemma phase_not_retried: "phase_of e \<notin> {Some MemberPhase, Some PoolCleanupPhase, Some ListenerCleanupPhase} \<Longrightarrow> \<not> retried e"
  by (cases e rule: retried.cases) auto

text \<open>The part of the handler behind the lookup of the load balancer.\<close>

definition ensure_parts ::
    "'w lbaas \<Rightarrow> string \<Rightarrow> service \<Rightarrow> node list \<Rightarrow> service_options \<Rightarrow> loadbalancer \<Rightarrow> ('w st, string list) prog" where
  "ensure_parts l clusterName svc nodes opts lb =
     bindM (wait_phase (l_client l) (lb_ID lb) []) (\<lambda>_.
     bindM (ensureLoadBalancerListeners l lb (svc_Ports svc) opts) (\<lambda>(listeners, obsoleteListeners).
     bindM (wait_phase (l_client l) (lb_ID lb) '' after listeners phase'') (\<lambda>_.
     bindM (ensureLoadBalancerPools l lb svc listeners opts) (\<lambda>(pools, obsoletePools).
     bindM (wait_phase (l_client l) (lb_ID lb) '' after pools phase'') (\<lambda>_.
     bindM (reconcilePoolMembers l lb svc pools opts nodes) (\<lambda>_.
     bindM (deleteObsoleteListenersAndPools l lb obsoleteListeners obsoletePools) (\<lambda>_.
     bindM (if \<not> so_Internal opts then ensureServiceFloatingIP l svc lb else retM (lb_VipAddress lb)) (\<lambda>address.
     bindM (if so_ManageSecurityGroups opts then
              wrapM (flatten (''failed when reconciling security groups for LB service '' @
                  (svc_Namespace svc @ ''/'' @ svc_Name svc) @ '': ''))
                (ensureSecurityGroup (l_client l) clusterName svc nodes opts)
            else retM ()) (\<lambda>_.
       retM [ip_string address])))))))))"

lemma EnsureLoadBalancer_parts:
  "EnsureLoadBalancer l clusterName svc nodes =
     (if length nodes = 0
      then failM (Errorf (''there are no available nodes for LoadBalancer service '' @ svc_Namespace svc @ ''/'' @ svc_Name svc))
      else if length (svc_Ports svc) = 0 then failM (Errorf ''no ports provided to edgecenter load balancer'')
      else bindM (resolveServiceOptions l svc nodes) (\<lambda>opts.
        bindM (find_or_create l svc opts) (ensure_parts l clusterName svc nodes opts)))"
  unfolding EnsureLoadBalancer_def ensure_parts_def [abs_def] Let_def by simp

lemma only_not_retried:
  assumes "only calls P m" "\<And>e. P e \<Longrightarrow> \<not> retried e"
  shows "always calls (guarded i retried False) m"
  by (rule only_guarded) (rule only_mono [OF assms])

lemma ensure_parts_guarded:
  assumes "drivers (l_client l)"
  shows "always calls (guarded (lb_ID lb) retried False) (ensure_parts l cl svc nodes opts lb)"
proof -
  have phase: "\<not> retried e" if "phase_of e \<in> {None, Some p}" "p \<notin> {MemberPhase, PoolCleanupPhase, ListenerCleanupPhase}" for e p
    using that by (intro phase_not_retried) auto
  note not_retried = only_not_retried [OF ensureLoadBalancerListeners_only [OF assms]]
    only_not_retried [OF ensureLoadBalancerPools_only [OF assms]] only_not_retried [OF wait_phase_only [OF assms]]
    only_not_retried [OF ensureServiceFloatingIP_only] only_not_retried [OF ensureSecurityGroup_only]
  show ?thesis
    unfolding ensure_parts_def
    by (intro emits_intros not_retried reconcilePoolMembers_guarded deleteObsolete_guarded assms)
      (auto simp: is_get_not_retried ensures_listeners_def ensures_pools_def
        intro: phase_not_retried dest: sg_phase_phase reads_fip_phase creates_fip_phase
        intro!: phase_not_retried)
qed

lemma EnsureLoadBalancer_guarded:
  assumes "drivers (l_client l)"
  shows "emits calls (EnsureLoadBalancer l cl svc nodes) (\<lambda>r es. \<exists>i. guarded i retried False es)"
proof -
  have find: "only calls (\<lambda>e. \<not> retried e) (find_or_create l svc opts)" for opts
    by (rule only_mono [OF find_or_create_only]) (auto simp: finds_or_creates_def is_get_not_retried)
  have res: "only calls (\<lambda>e. \<not> retried e) (resolveServiceOptions l svc nodes)"
    by (rule only_mono [OF resolveServiceOptions_only]) (auto simp: resolves_def)
  have found: "emits calls (bindM (find_or_create l svc opts) (ensure_parts l cl svc nodes opts))
      (\<lambda>r es. \<exists>i. guarded i retried False es)" for opts
    by (rule emits_bindM [where ?Q1.0 = "\<lambda>_. list_all (\<lambda>e. \<not> retried e)" and
          ?Q2.0 = "\<lambda>lb _. guarded (lb_ID lb) retried False"])
      (auto simp: find [unfolded always_def] ensure_parts_guarded [OF assms, unfolded always_def] guarded_append
        intro: guarded_free guarded_mono)
  have all: "emits calls (bindM (resolveServiceOptions l svc nodes) (\<lambda>opts.
        bindM (find_or_create l svc opts) (ensure_parts l cl svc nodes opts)))
      (\<lambda>r es. \<exists>i. guarded i retried False es)"
    by (rule emits_bindM [where ?Q1.0 = "\<lambda>_. list_all (\<lambda>e. \<not> retried e)" and
          ?Q2.0 = "\<lambda>_ _ es. \<exists>i. guarded i retried False es"])
      (auto simp: res [unfolded always_def] found guarded_append intro: guarded_free guarded_mono)
  show ?thesis
    unfolding EnsureLoadBalancer_parts using all by (auto intro!: emits_failM)
qed

section \<open>Internal services and unmanaged groups\<close>

fun touches_fip :: "api_call \<Rightarrow> bool" where
  "touches_fip (NW Floatingips_List) = True"
| "touches_fip (NW (Floatingips_ListByPort _)) = True"
| "touches_fip (NW (Floatingips_Get _)) = True"
| "touches_fip (NW (Floatingips_Create _)) = True"
| "touches_fip (NW (Floatingips_Assign _ _)) = True"
| "touches_fip (NW (Floatingips_Delete _)) = True"
| "touches_fip _ = False"

fun touches_sg :: "api_call \<Rightarrow> bool" where
  "touches_sg (SG _) = True"
| "touches_sg _ = False"

lemma is_get_touches [simp]: "is_get i e \<Longrightarrow> \<not> touches_fip e" "is_get i e \<Longrightarrow> \<not> touches_sg e"
  by (cases "(i, e)" rule: is_get.cases; simp)+

lemma sg_phase_no_fip: "sg_phase e \<Longrightarrow> \<not> touches_fip e"
  by (cases e rule: sg_phase.cases) auto

lemma fip_no_sg: "reads_fip e \<Longrightarrow> \<not> touches_sg e" "creates_fip p e \<Longrightarrow> \<not> touches_sg e"
  by (cases e rule: reads_fip.cases, auto) (cases "(p, e)" rule: creates_fip.cases, auto)

text \<open>The calls of the middle of the handler, which touch neither.\<close>

definition lb_part :: "api_call \<Rightarrow> bool" where
  "lb_part e \<longleftrightarrow> \<not> touches_fip e \<and> \<not> touches_sg e"

lemma lb_part_parts:
  assumes "drivers (l_client l)"
  shows "only calls lb_part (resolveServiceOptions l svc nodes)"
    and "only calls lb_part (find_or_create l svc opts)"
    and "only calls lb_part (wait_phase (l_client l) i after)"
    and "only calls lb_part (ensureLoadBalancerListeners l lb ports opts)"
    and "only calls lb_part (ensureLoadBalancerPools l lb svc lns opts)"
    and "only calls lb_part (reconcilePoolMembers l lb svc ps opts nodes)"
    and "only calls lb_part (deleteObsoleteListenersAndPools l lb olns ops)"
proof -
  show "only calls lb_part (resolveServiceOptions l svc nodes)"
    by (rule only_mono [OF resolveServiceOptions_only]) (auto simp: resolves_def lb_part_def)
  show "only calls lb_part (find_or_create l svc opts)"
    by (rule only_mono [OF find_or_create_only]) (auto simp: finds_or_creates_def lb_part_def)
  show "only calls lb_part (wait_phase (l_client l) i after)"
    by (rule only_mono [OF wait_phase_only [OF assms]]) (simp add: lb_part_def)
  show "only calls lb_part (ensureLoadBalancerListeners l lb ports opts)"
    by (rule only_mono [OF ensureLoadBalancerListeners_only [OF assms]]) (auto simp: ensures_listeners_def lb_part_def)
  show "only calls lb_part (ensureLoadBalancerPools l lb svc lns opts)"
    by (rule only_mono [OF ensureLoadBalancerPools_only [OF assms]]) (auto simp: ensures_pools_def lb_part_def)
  show "only calls lb_part (reconcilePoolMembers l lb svc ps opts nodes)"
    by (rule only_mono [OF reconcilePoolMembers_only [OF assms]]) (auto simp: updates_members_def lb_part_def)
  show "only calls lb_part (deleteObsoleteListenersAndPools l lb olns ops)"
    by (rule only_mono [OF deleteObsolete_only [OF assms]])
      (auto simp: cleans_up_def deletes_pool_def deletes_listener_def lb_part_def)
qed

lemma ensure_parts_only:
  assumes "drivers (l_client l)" "\<And>e. lb_part e \<Longrightarrow> P e"
    and "\<not> so_Internal opts \<Longrightarrow> only calls P (ensureServiceFloatingIP l svc lb)"
    and "so_ManageSecurityGroups opts \<Longrightarrow> only calls P (ensureSecurityGroup (l_client l) cl svc nodes opts)"
  shows "only calls P (ensure_parts l cl svc nodes opts lb)"
  unfolding ensure_parts_def
  by (intro emits_intros lb_part_parts [OF assms(1), THEN only_mono] assms)

lemma EnsureLoadBalancer_only:
  assumes "drivers (l_client l)" "\<And>e. lb_part e \<Longrightarrow> P e"
    and "\<And>lb. \<not> wants_internal l svc \<Longrightarrow> only calls P (ensureServiceFloatingIP l svc lb)"
    and "\<And>opts. lbo_ManageSecurityGroups (l_opts l) \<Longrightarrow> only calls P (ensureSecurityGroup (l_client l) cl svc nodes opts)"
  shows "only calls P (EnsureLoadBalancer l cl svc nodes)"
proof -
  have "only calls P (bindM (resolveServiceOptions l svc nodes) (\<lambda>opts.
      bindM (find_or_create l svc opts) (ensure_parts l cl svc nodes opts)))"
  proof (rule only.always_bindM_Ok)
    show "only calls P (resolveServiceOptions l svc nodes)"
      by (rule only_mono [OF lb_part_parts(1) [OF assms(1)] assms(2)])
    fix opts s s'
    assume "resolveServiceOptions l svc nodes s = (Ok opts, s')"
    then have "options_ok l svc opts" by (rule yieldsD [OF resolveServiceOptions_Ok])
    then have "only calls P (ensure_parts l cl svc nodes opts lb)" for lb
      by (intro ensure_parts_only assms) (auto simp: options_ok_def)
    then show "only calls P (bindM (find_or_create l svc opts) (ensure_parts l cl svc nodes opts))"
      by (intro emits_intros only_mono [OF lb_part_parts(2) [OF assms(1)] assms(2)])
  qed
  then show ?thesis
    unfolding EnsureLoadBalancer_parts by (simp add: only.always_failM)
qed

section \<open>What a successful run has done\<close>

text \<open>
  The evidence of a successful run for one load balancer: the phases that ran, one after the other, with
  what they returned.
\<close>

definition ensured ::
    "'w lbaas \<Rightarrow> service \<Rightarrow> node list \<Rightarrow> service_options \<Rightarrow> loadbalancer \<Rightarrow> string list \<Rightarrow> bool" where
  "ensured l svc nodes opts lb ingress \<longleftrightarrow>
     (\<exists>listeners oldListeners pools oldPools pools' ips s1 s2 s3 s4 s5 s6.
        ensureLoadBalancerListeners l lb (svc_Ports svc) opts s1 = (Ok (listeners, oldListeners), s2) \<and>
        dom listeners = servicePortKey ` set (svc_Ports svc) \<and>
        (\<forall>old \<in> set oldListeners. \<forall>ln \<in> ran listeners. ln_ID old \<noteq> ln_ID ln) \<and>
        ensureLoadBalancerPools l lb svc listeners opts s3 = (Ok (pools, oldPools), s4) \<and>
        dom pools = servicePortKey ` set (svc_Ports svc) \<and>
        (\<forall>old \<in> set oldPools. \<forall>p \<in> ran pools. pool_ID old \<noteq> pool_ID p) \<and>
        reconcilePoolMembers l lb svc pools opts nodes s5 = (Ok pools', s6) \<and>
        node_addresses nodes = Ok ips \<and>
        (\<forall>sp \<in> set (svc_Ports svc). \<exists>p. pools' (servicePortKey sp) = Some p \<and>
           \<not> membersChanged (pool_Members p) (desired_members opts sp ips))) \<and>
     (so_Internal opts \<longrightarrow> ingress = [ip_string (lb_VipAddress lb)]) \<and>
     length ingress = 1"

lemma ensure_parts_Ok:
  assumes "drivers (l_client l)" "distinct (map servicePortKey (svc_Ports svc))"
  shows "yields (ensure_parts l cl svc nodes opts lb) (ensured l svc nodes opts lb)"
proof (rule yieldsI)
  fix s ingress s'
  assume run: "ensure_parts l cl svc nodes opts lb s = (Ok ingress, s')"
  obtain lns olns ps ops ps' s1 s2 s3 s4 s5 s6 s7 s8 addr where
    lns: "ensureLoadBalancerListeners l lb (svc_Ports svc) opts s1 = (Ok (lns, olns), s2)"
    and ps: "ensureLoadBalancerPools l lb svc lns opts s3 = (Ok (ps, ops), s4)"
    and ps': "reconcilePoolMembers l lb svc ps opts nodes s5 = (Ok ps', s6)"
    and addr: "(if \<not> so_Internal opts then ensureServiceFloatingIP l svc lb else retM (lb_VipAddress lb)) s7 = (Ok addr, s8)"
    and ingress: "ingress = [ip_string addr]"
    using run unfolding ensure_parts_def
    by (elim bindM_OkE) (auto simp: case_prod_beta retM_def elim!: bindM_OkE)
  from reconcilePoolMembers_Ok [OF assms ps'] obtain ips where "node_addresses nodes = Ok ips"
      "\<forall>sp \<in> set (svc_Ports svc). \<exists>p. ps' (servicePortKey sp) = Some p \<and>
        \<not> membersChanged (pool_Members p) (desired_members opts sp ips)" by blast
  note members = this
  have vip: "so_Internal opts \<longrightarrow> addr = lb_VipAddress lb" using addr by (cases "so_Internal opts") (simp_all add: retM_def)
  show "ensured l svc nodes opts lb ingress"
    unfolding ensured_def
  proof (intro conjI exI)
    show "ensureLoadBalancerListeners l lb (svc_Ports svc) opts s1 = (Ok (lns, olns), s2)" by (rule lns)
    show "ensureLoadBalancerPools l lb svc lns opts s3 = (Ok (ps, ops), s4)" by (rule ps)
    show "reconcilePoolMembers l lb svc ps opts nodes s5 = (Ok ps', s6)" by (rule ps')
  qed (use members vip ensureLoadBalancerListeners_Ok [OF lns] ensureLoadBalancerPools_Ok [OF ps] in \<open>simp_all add: ingress\<close>)
qed

lemma EnsureLoadBalancer_Ok:
  assumes "drivers (l_client l)" "distinct (map servicePortKey (svc_Ports svc))"
  shows "yields (EnsureLoadBalancer l cl svc nodes) (\<lambda>ingress. \<exists>opts lb.
    options_ok l svc opts \<and> ensured l svc nodes opts lb ingress)"
  unfolding EnsureLoadBalancer_parts
  by (intro yield_intros yields_weaken [OF resolveServiceOptions_Ok] yields_any [where m = "find_or_create l svc opts" for opts])
    (auto intro: yields_weaken [OF ensure_parts_Ok [OF assms]])

section \<open>Deletion\<close>

lemma phased_case_option:
  "always tr R m \<Longrightarrow> (\<And>x. always tr R (k x)) \<Longrightarrow> always tr R (case p of None \<Rightarrow> m | Some x \<Rightarrow> k x)"
  by (cases p) simp_all

lemma phased_if: "always tr R m \<Longrightarrow> always tr R m' \<Longrightarrow> always tr R (if b then m else m')"
  by simp

lemma listener_teardown: "deletes_listener_and_pool i j e \<Longrightarrow> teardown_of e \<in> {None, Some 0}"
  by (auto simp: deletes_listener_and_pool_def deletes_listener_def deletes_pool_def)

lemma sg_teardown: "sg_deletion e \<Longrightarrow> teardown_of e \<in> {None, Some 2}"
  by (cases e rule: sg_deletion.cases) auto

lemma fip_teardown: "reads_fip e \<or> deletes_fip e \<Longrightarrow> teardown_of e \<in> {None, Some 3}"
  by (elim disjE, cases e rule: reads_fip.cases, auto, cases e rule: deletes_fip.cases, auto)

lemma EnsureSecurityGroupDeleted_teardown: "always calls (phased teardown_of 2 2) (EnsureSecurityGroupDeleted l svc)"
  by (rule phased_only [where p = 2], rule only_mono [OF EnsureSecurityGroupDeleted_only], erule sg_teardown) simp_all

lemma ensureListenerDeleted_teardown:
  "drivers (l_client l) \<Longrightarrow> always calls (phased teardown_of 0 0) (ensureListenerDeleted l lb ln)"
  by (rule phased_only [where p = 0], erule only_mono [OF ensureListenerDeleted_only], erule listener_teardown) simp_all

lemma deleteLoadBalancer_only:
  "only calls (\<lambda>e. e = LB (Loadbalancers_Delete i) \<or> (\<exists>r. e = LB (Loadbalancers_Exists i r))) (deleteLoadBalancer l i)"
  unfolding deleteLoadBalancer_def lb_exists_def by (intro emits_intros) auto

lemma deleteLoadBalancer_teardown: "always calls (phased teardown_of 1 1) (deleteLoadBalancer l i)"
  by (rule phased_only [where p = 1], rule only_mono [OF deleteLoadBalancer_only]) auto

lemma delete_fips_only: "only calls (\<lambda>e. reads_fip e \<or> deletes_fip e) (delete_fips l lb ingress)"
  unfolding delete_fips_def Let_def by (intro emits_intros EnsureFloatingIP_delete_only)

lemma EnsureLoadBalancerDeleted_phased:
  assumes d: "drivers (l_client l)"
  shows "always calls (phased teardown_of 0 3) (EnsureLoadBalancerDeleted l svc)"
proof -
  have find: "always calls (phased teardown_of 0 0)
      (tryM (getLoadbalancerByName c n ln) (\<lambda>err. if \<not> errors_Is err ErrNotFound then failM err else retM None)
        (\<lambda>lb. retM (Some lb)))" for c :: "'a client" and n ln
    by (rule phased_reads) (intro emits_intros only_mono [OF getLoadbalancerByName_only]; simp)
  have list: "always calls (phased teardown_of 0 0) (wrapM f (getListenersByLoadBalancerID c i))" for f i and c :: "'a client"
    unfolding getListenersByLoadBalancerID_def by (rule phased_reads) (intro emits_intros; simp)
  have lns: "always calls (phased teardown_of 0 0) (foldM (\<lambda>ln _. ensureListenerDeleted l lb ln) lns ())" for lb lns
    by (rule phased_foldM) (rule ensureListenerDeleted_teardown [OF d])
  have wait: "always calls (phased teardown_of 1 1) (wrapM f (waitLoadbalancerDeleted (l_client l) i))" for f i
    by (rule always_wrap, rule phased_reads, rule only_mono [OF waitLoadbalancerDeleted_only [OF d]]) auto
  have sg: "always calls (phased teardown_of 2 2) (if b then wrapM f (EnsureSecurityGroupDeleted l svc) else retM ())" for b f
    by (simp add: phased_ret always_wrap EnsureSecurityGroupDeleted_teardown)
  have fips: "always calls (phased teardown_of 2 3) (delete_fips l lb ingress)" for lb ingress
    by (rule phased_only [where p = 3], rule only_mono [OF delete_fips_only], erule fip_teardown) simp_all
  show ?thesis
    unfolding EnsureLoadBalancerDeleted_def Let_def
    by (intro phased_step [OF find] phased_step [OF list] phased_step [OF lns]
        phased_step [OF always_wrap [OF deleteLoadBalancer_teardown]] phased_step [OF wait] phased_step [OF sg]
        phased_case_option phased_ret phased_step [OF always_wrap [OF phased_ret(3) [where lo = "2 :: nat" and hi = 2]]] phased_if
        fips) simp_all
qed

text \<open>\<open>achieves tr m A\<close>: when \<open>m\<close> succeeds, its calls contain those of \<open>A\<close>.\<close>

definition achieves :: "('s \<Rightarrow> 'e list) \<Rightarrow> ('s, 'a) prog \<Rightarrow> 'e set \<Rightarrow> bool" where
  "achieves tr m A \<longleftrightarrow> emits tr m (\<lambda>r es. (\<exists>x. r = Ok x) \<longrightarrow> A \<subseteq> set es)"

lemma achieves_later: "always tr (\<lambda>_. True) m \<Longrightarrow> (\<And>x. achieves tr (k x) A) \<Longrightarrow> achieves tr (bindM m k) A"
  unfolding achieves_def always_def
  by (erule emits_bindM [where ?Q2.0 = "\<lambda>_ r es. (\<exists>x. r = Ok x) \<longrightarrow> A \<subseteq> set es"]) auto

lemma achieves_now: "achieves tr m A \<Longrightarrow> (\<And>x. always tr (\<lambda>_. True) (k x)) \<Longrightarrow> achieves tr (bindM m k) A"
  unfolding achieves_def always_def
  by (erule emits_bindM [where ?Q2.0 = "\<lambda>_ _ _. True"]) auto

lemma achieves_wrapM: "achieves tr m A \<Longrightarrow> achieves tr (wrapM f m) A"
  unfolding achieves_def by (erule emits_wrapM) auto

interpretation anything: trace_property "\<lambda>_. True"
  by unfold_locales simp_all

lemma only_anything: "only tr P m \<Longrightarrow> always tr (\<lambda>_. True) m"
  by (erule always_mono) simp

lemma phased_anything: "always tr (phased f lo hi) m \<Longrightarrow> always tr (\<lambda>_. True) m"
  by (erule always_mono) simp

lemma deleteLoadBalancer_achieves:
  "achieves calls (deleteLoadBalancer l i) {LB (Loadbalancers_Delete i), LB (Loadbalancers_Exists i (Ok False))}"
  unfolding achieves_def deleteLoadBalancer_def lb_exists_def by (intro wp) auto

text \<open>The part of the deletion behind the lookup.\<close>

definition delete_parts :: "'w lbaas \<Rightarrow> service \<Rightarrow> loadbalancer \<Rightarrow> ('w st, unit) prog" where
  "delete_parts l svc lb =
     bindM (wrapM (flatten (''error getting listeners for LB '' @ lb_ID lb @ '': ''))
       (getListenersByLoadBalancerID (l_client l) (lb_ID lb))) (\<lambda>allListeners.
     bindM (foldM (\<lambda>ln _. ensureListenerDeleted l lb ln) allListeners ()) (\<lambda>_.
     bindM (wrapM (Wrapf (''failed to delete loadbalancer '' @ lb_ID lb @ '': ''))
       (deleteLoadBalancer l (lb_ID lb))) (\<lambda>_.
     bindM (wrapM (Wrapf (''failed to delete loadbalancer '' @ lb_ID lb @ '': ''))
       (waitLoadbalancerDeleted (l_client l) (lb_ID lb))) (\<lambda>_.
     bindM (if lbo_ManageSecurityGroups (l_opts l) then
              wrapM (flatten (''failed to delete Security Group for loadbalancer service '' @
                  (svc_Namespace svc @ ''/'' @ svc_Name svc) @ '': ''))
                (EnsureSecurityGroupDeleted l svc)
            else retM ()) (\<lambda>_.
     bindM (wrapM (Wrapf ''cant get internal annotation: '')
       (liftM (getBoolFromServiceAnnotation svc AnnotationSaveFloating False))) (\<lambda>shouldSaveFIP.
       if \<not> shouldSaveFIP \<and> length (svc_Ingress svc) > 0 then delete_fips l lb (svc_Ingress svc)
       else retM ()))))))"

definition find_existing :: "'w lbaas \<Rightarrow> service \<Rightarrow> ('w st, loadbalancer option) prog" where
  "find_existing l svc =
     tryM (getLoadbalancerByName (l_client l) (lb_name l svc) (lb_legacy_name l svc))
       (\<lambda>err. if \<not> errors_Is err ErrNotFound then failM err else retM None) (\<lambda>lb. retM (Some lb))"

lemma EnsureLoadBalancerDeleted_parts:
  "EnsureLoadBalancerDeleted l svc =
     bindM (find_existing l svc) (\<lambda>p. case p of None \<Rightarrow> retM () | Some lb \<Rightarrow> delete_parts l svc lb)"
  unfolding EnsureLoadBalancerDeleted_def delete_parts_def find_existing_def Let_def by (simp cong: option.case_cong)

lemma find_existing_only: "only calls (\<lambda>e. e = LB Loadbalancers_List) (find_existing l svc)"
  unfolding find_existing_def by (intro emits_intros getLoadbalancerByName_only)

lemma waitLoadbalancerDeleted_anything: "drivers c \<Longrightarrow> always calls (\<lambda>_. True) (waitLoadbalancerDeleted c i)"
  by (erule only_anything [OF waitLoadbalancerDeleted_only])

lemma delete_parts_achieves:
  assumes "drivers (l_client l)"
  shows "achieves calls (delete_parts l svc lb)
    {LB (Loadbalancers_Delete (lb_ID lb)), LB (Loadbalancers_Exists (lb_ID lb) (Ok False))}"
  unfolding delete_parts_def getListenersByLoadBalancerID_def
  by (rule achieves_later, intro emits_intros, simp, rule achieves_later, intro emits_intros,
      rule only_anything [OF ensureListenerDeleted_only [OF assms]], rule achieves_now, rule achieves_wrapM,
      rule deleteLoadBalancer_achieves,
      intro emits_intros waitLoadbalancerDeleted_anything assms only_anything [OF EnsureSecurityGroupDeleted_only]
        only_anything [OF delete_fips_only])

lemma delete_parts_guarded:
  assumes "drivers (l_client l)"
  shows "always calls (guarded (lb_ID lb) retried False) (delete_parts l svc lb)"
proof -
  have sg: "\<not> retried e" if "sg_deletion e" for e using that by (cases e rule: sg_deletion.cases) auto
  have fips: "reads_fip e \<Longrightarrow> \<not> retried e" "deletes_fip e \<Longrightarrow> \<not> retried e" for e
    by (cases e rule: reads_fip.cases; simp) (cases e rule: deletes_fip.cases; simp)
  show ?thesis
    unfolding delete_parts_def getListenersByLoadBalancerID_def
    by (intro emits_intros ensureListenerDeleted_guarded assms only_not_retried [OF deleteLoadBalancer_only]
        only_not_retried [OF waitLoadbalancerDeleted_only] only_not_retried [OF EnsureSecurityGroupDeleted_only]
        only_not_retried [OF delete_fips_only]) (auto dest: sg fips)
qed

lemma EnsureLoadBalancerDeleted_emits:
  assumes "drivers (l_client l)"
  shows "emits calls (EnsureLoadBalancerDeleted l svc) (\<lambda>r es. (\<exists>i. guarded i retried False es) \<and>
    (r = Ok () \<longrightarrow> es = [LB Loadbalancers_List] \<or>
      (\<exists>i. {LB (Loadbalancers_Delete i), LB (Loadbalancers_Exists i (Ok False))} \<subseteq> set es)))"
proof -
  have parts: "emits calls (delete_parts l svc lb) (\<lambda>r es. guarded (lb_ID lb) retried False es \<and>
      ((\<exists>x. r = Ok x) \<longrightarrow> {LB (Loadbalancers_Delete (lb_ID lb)), LB (Loadbalancers_Exists (lb_ID lb) (Ok False))} \<subseteq> set es))" for lb
    by (rule emits_conj) (use delete_parts_guarded [OF assms] delete_parts_achieves [OF assms] in
        \<open>simp_all add: always_def achieves_def\<close>)
  have find: "emits calls (find_existing l svc) (\<lambda>_ es. es = [LB Loadbalancers_List])"
    unfolding find_existing_def getLoadbalancerByName_def Let_def by (intro wp) auto
  show ?thesis
    unfolding EnsureLoadBalancerDeleted_parts
  proof (rule wp_bindM, rule emits_weaken [OF find], rule wp_outcome)
    fix r es p
    assume "es = [LB Loadbalancers_List]"
    then show "emits calls (case p of None \<Rightarrow> retM () | Some lb \<Rightarrow> delete_parts l svc lb)
        (\<lambda>r' es'. (\<exists>i. guarded i retried False (es @ es')) \<and> (r' = Ok () \<longrightarrow> es @ es' = [LB Loadbalancers_List] \<or>
          (\<exists>i. {LB (Loadbalancers_Delete i), LB (Loadbalancers_Exists i (Ok False))} \<subseteq> set (es @ es'))))"
      by (cases p) (auto intro!: emits_retM emits_weaken [OF parts])
  qed (auto)
qed

end
