(* ===== verification/Triples.thy ===== *)
theory Triples
  imports Polling
begin

text \<open>
  Triples: what a program makes of the state. \<open>triple P m Q E\<close> says that from a state with \<open>P\<close>, a run
  of \<open>m\<close> that returns a value ends in a state with \<open>Q\<close>, and one that returns an error in a state with
  \<open>E\<close>. The rules follow the structure of a program; those for the polling loops turn an invariant of the
  closure into one of the loop.
\<close>

section \<open>Triples\<close>

definition triple ::
    "('s \<Rightarrow> bool) \<Rightarrow> ('s, 'a) prog \<Rightarrow> ('a \<Rightarrow> 's \<Rightarrow> bool) \<Rightarrow> (error \<Rightarrow> 's \<Rightarrow> bool) \<Rightarrow> bool" where
  "triple P m Q E \<longleftrightarrow> (\<forall>s. P s \<longrightarrow> (case m s of
     (Ok x, s') \<Rightarrow> Q x s'
   | (Err e, s') \<Rightarrow> E e s'
   | (Panic _, _) \<Rightarrow> True))"

text \<open>The error case does not matter.\<close>

abbreviation any_error :: "error \<Rightarrow> 's \<Rightarrow> bool" where
  "any_error \<equiv> \<lambda>_ _. True"

lemma tripleI:
  assumes "\<And>s x s'. P s \<Longrightarrow> m s = (Ok x, s') \<Longrightarrow> Q x s'"
    and "\<And>s e s'. P s \<Longrightarrow> m s = (Err e, s') \<Longrightarrow> E e s'"
  shows "triple P m Q E"
  using assms unfolding triple_def by (auto split: prod.splits outcome.splits)

lemma tripleD:
  assumes "triple P m Q E" "P s"
  shows "m s = (Ok x, s') \<Longrightarrow> Q x s'" "m s = (Err e, s') \<Longrightarrow> E e s'"
  using assms unfolding triple_def by (auto split: prod.splits outcome.splits)

lemma triple_weaken:
  assumes "triple P' m Q' E'" "\<And>s. P s \<Longrightarrow> P' s" "\<And>x s. Q' x s \<Longrightarrow> Q x s" "\<And>e s. E' e s \<Longrightarrow> E e s"
  shows "triple P m Q E"
proof (rule tripleI)
  show "Q x s'" if "P s" "m s = (Ok x, s')" for s x s'
    using assms(3) [OF tripleD(1) [OF assms(1) assms(2)]] that by blast
  show "E e s'" if "P s" "m s = (Err e, s')" for s e s'
    using assms(4) [OF tripleD(2) [OF assms(1) assms(2)]] that by blast
qed

lemma triple_pre: "triple P' m Q E \<Longrightarrow> (\<And>s. P s \<Longrightarrow> P' s) \<Longrightarrow> triple P m Q E"
  by (erule triple_weaken)

lemma triple_post: "triple P m Q' E \<Longrightarrow> (\<And>x s. Q' x s \<Longrightarrow> Q x s) \<Longrightarrow> triple P m Q E"
  by (erule triple_weaken)

lemma triple_any_error: "triple P m Q E \<Longrightarrow> triple P m Q any_error"
  by (erule triple_weaken) simp_all

lemma triple_retM: "(\<And>s. P s \<Longrightarrow> Q x s) \<Longrightarrow> triple P (retM x) Q E"
  by (rule tripleI) (auto simp: retM_def)

lemma triple_failM: "(\<And>s. P s \<Longrightarrow> E e s) \<Longrightarrow> triple P (failM e) Q E"
  by (rule tripleI) (auto simp: failM_def)

lemma triple_panicM: "triple P (panicM p) Q E"
  by (rule tripleI) (auto simp: panicM_def)

lemma triple_liftM:
  "(\<And>s x. P s \<Longrightarrow> r = Ok x \<Longrightarrow> Q x s) \<Longrightarrow> (\<And>s e. P s \<Longrightarrow> r = Err e \<Longrightarrow> E e s) \<Longrightarrow> triple P (liftM r) Q E"
  by (rule tripleI) (auto simp: liftM_def)

lemma triple_tryM:
  assumes "triple P m R F" "\<And>x. triple (R x) (k x) Q E" "\<And>e. triple (F e) (h e) Q E"
  shows "triple P (tryM m h k) Q E"
  unfolding triple_def
proof (intro allI impI)
  fix s assume P: "P s"
  obtain r s1 where ms: "m s = (r, s1)" by fastforce
  show "case tryM m h k s of (Ok x, s') \<Rightarrow> Q x s' | (Err e, s') \<Rightarrow> E e s' | (Panic _, _) \<Rightarrow> True"
  proof (cases r)
    case (Ok x)
    with ms P assms(1) have "R x s1" by (auto dest: tripleD)
    with assms(2) [of x] ms Ok show ?thesis by (simp add: tryM_def triple_def)
  next
    case (Err e)
    with ms P assms(1) have "F e s1" by (auto dest: tripleD)
    with assms(3) [of e] ms Err show ?thesis by (simp add: tryM_def triple_def)
  qed (simp add: ms tryM_def)
qed

lemma triple_bindM:
  assumes "triple P m R E" "\<And>x. triple (R x) (k x) Q E"
  shows "triple P (bindM m k) Q E"
  unfolding bindM_tryM by (rule triple_tryM [OF assms]) (rule triple_failM)

lemma triple_wrapM: "triple P m Q (\<lambda>e. E (f e)) \<Longrightarrow> triple P (wrapM f m) Q E"
  by (auto intro!: tripleI simp: wrapM_def split: prod.splits outcome.splits dest: tripleD)

lemma triple_if:
  "(b \<Longrightarrow> triple P m Q E) \<Longrightarrow> (\<not> b \<Longrightarrow> triple P m' Q E) \<Longrightarrow> triple P (if b then m else m') Q E"
  by simp

lemma triple_firstM: "(\<And>s x ys. P s \<Longrightarrow> xs = x # ys \<Longrightarrow> Q x s) \<Longrightarrow> triple P (firstM xs) Q E"
  by (cases xs) (auto intro!: triple_retM triple_panicM)

lemma triple_derefM: "(\<And>s x. P s \<Longrightarrow> p = Some x \<Longrightarrow> Q x s) \<Longrightarrow> triple P (derefM p) Q E"
  by (cases p) (auto intro!: triple_retM triple_panicM)

text \<open>A fact that does not mention the state.\<close>

lemma triple_pure: "(A \<Longrightarrow> triple P m Q E) \<Longrightarrow> triple (\<lambda>s. A \<and> P s) m Q E"
  by (auto intro!: tripleI dest: tripleD)

lemma triple_ex: "(\<And>x. triple (P x) m Q E) \<Longrightarrow> triple (\<lambda>s. \<exists>x. P x s) m Q E"
  by (blast intro: tripleI dest: tripleD)

lemma triple_fact: "(A \<Longrightarrow> triple P m Q E) \<Longrightarrow> (\<And>s. P s \<Longrightarrow> A) \<Longrightarrow> triple P m Q E"
  by (auto simp: triple_def)

lemma triple_yields: "yields m R \<Longrightarrow> triple P m Q E \<Longrightarrow> triple P m (\<lambda>x s. R x \<and> Q x s) E"
  by (auto intro!: tripleI dest: tripleD yieldsD)

text \<open>A program that keeps a part of the state keeps what is said about it.\<close>

lemma triple_keeps: "keeps f m \<Longrightarrow> (\<And>x s. P (f s) \<Longrightarrow> Q x (f s)) \<Longrightarrow> (\<And>e s. P (f s) \<Longrightarrow> E e (f s)) \<Longrightarrow>
    triple (\<lambda>s. P (f s)) m (\<lambda>x s. Q x (f s)) (\<lambda>e s. E e (f s))"
  by (rule tripleI) (metis keepsD)+

text \<open>A loop: \<open>I done acc\<close> holds of the state after the elements \<open>done\<close>.\<close>

lemma triple_foldM:
  assumes "\<And>done x rest a. xs = done @ x # rest \<Longrightarrow> triple (I done a) (f x a) (I (done @ [x])) E"
  shows "triple (I [] acc) (foldM f xs acc) (I xs) E"
proof -
  have "triple (I done a) (foldM f rest a) (I xs) E" if "xs = done @ rest" for rest "done" a
    using that
  proof (induction rest arbitrary: "done" a)
    case Nil
    then show ?case by (auto intro: triple_retM)
  next
    case (Cons x rest)
    show ?case
      unfolding foldM.simps
    proof (rule triple_bindM)
      show "triple (I done a) (f x a) (I (done @ [x])) E" using assms Cons.prems by blast
    next
      fix a'
      show "triple (I (done @ [x]) a') (foldM f rest a') (I xs) E"
        by (rule Cons.IH) (simp add: Cons.prems)
    qed
  qed
  from this [of "[]" xs acc] show ?thesis by simp
qed

section \<open>Requests and polling\<close>

lemma triple_call:
  assumes "\<And>s x w. P s \<Longrightarrow> f (world s) = (Ok x, w) \<Longrightarrow> Q x (s\<lparr>world := w, calls := calls s @ [c (Ok x)]\<rparr>)"
    and "\<And>s e w. P s \<Longrightarrow> f (world s) = (Err e, w) \<Longrightarrow> E e (s\<lparr>world := w, calls := calls s @ [c (Err e)]\<rparr>)"
  shows "triple P (call c f) Q E"
  using assms by (auto intro!: tripleI simp: call_def split: prod.splits)

lemma triple_lift_st:
  "triple P m Q E \<Longrightarrow> triple (\<lambda>t. P (fst t)) (lift_st m) (\<lambda>x t. Q x (fst t)) (\<lambda>e t. E e (fst t))"
  by (auto intro!: tripleI simp: lift_st_def split: prod.splits dest: tripleD)

lemma triple_assign: "triple (\<lambda>t. P (fst t)) (assign f) (\<lambda>_ t. P (fst t)) E"
  by (auto intro!: tripleI simp: assign_def)

lemma triple_run_closure:
  assumes "triple (\<lambda>t. P (fst t)) m (\<lambda>_ t. Q (None, snd t) (fst t)) (\<lambda>e t. Q (Some e, snd t) (fst t))"
  shows "triple P (run_closure m) Q E"
  unfolding triple_def
proof (intro allI impI)
  fix s assume P: "P s"
  obtain r s1 v where ms: "m (s, no_vars) = (r, (s1, v))" by (metis prod.exhaust)
  note at = tripleD [OF assms, of "(s, no_vars)"]
  show "case run_closure m s of (Ok x, s') \<Rightarrow> Q x s' | (Err e, s') \<Rightarrow> E e s' | (Panic _, _) \<Rightarrow> True"
  proof (cases r)
    case (Ok x)
    with at(1) [of x "(s1, v)"] ms P show ?thesis by (simp add: run_closure_def)
  next
    case (Err e)
    with at(2) [of e "(s1, v)"] ms P show ?thesis by (simp add: run_closure_def)
  qed (simp add: ms run_closure_def)
qed

lemma triple_poll:
  assumes "triple I c (\<lambda>b s. if b then Q s else I s) E"
  shows "triple I (poll n e c) (\<lambda>_. Q) (\<lambda>x s. I s \<or> E x s)"
proof (induction n)
  case 0
  show ?case by (rule tripleI) auto
next
  case (Suc n)
  show ?case
    unfolding triple_def
  proof (intro allI impI)
    fix s assume I: "I s"
    obtain r s1 where cs: "c s = (r, s1)" by fastforce
    show "case poll (Suc n) e c s of (Ok x, s') \<Rightarrow> Q s' | (Err x, s') \<Rightarrow> I s' \<or> E x s' | (Panic _, _) \<Rightarrow> True"
    proof (cases r)
      case (Ok b)
      with tripleD(1) [OF assms I] cs have "if b then Q s1 else I s1" by blast
      with Suc cs Ok show ?thesis by (cases b) (simp_all add: triple_def)
    next
      case (Err x)
      with tripleD(2) [OF assms I] cs show ?thesis by simp
    qed (simp add: cs)
  qed
qed

context polling
begin

lemma drive_triple:
  assumes "triple I c (\<lambda>b s. if b then Q s else I s) E"
  shows "triple I (drive b c) (\<lambda>_. Q) (\<lambda>x s. I s \<or> E x s)"
proof (rule tripleI)
  fix s x s'
  assume "I s" "drive b c s = (Ok x, s')"
  then show "Q s'" using drive_polls [of b c s] tripleD(1) [OF triple_poll [OF assms]] by metis
next
  fix s x s'
  assume "I s" "drive b c s = (Err x, s')"
  then show "I s' \<or> E x s'" using drive_polls [of b c s] tripleD(2) [OF triple_poll [OF assms]] by metis
qed

end

end
