(* ===== verification/Store.thy ===== *)
theory Store
  imports Reconcile Triples
begin

text \<open>
  The cloud as a store. The locale \<open>store\<close> states how the API keeps load balancers, listeners and pools: what
  a list or a read answers, what a creation adds, that an update or a deletion concerns the resource it
  names, that the other requests leave these resources alone. Any request may fail; a failed creation or
  listener update may have done anything, but a failed deletion or member update, which the controller
  repeats, has left the store as it was or has been carried out. Nobody else changes the load balancers of
  the cluster meanwhile. \<open>StoreListeners\<close>, \<open>StorePools\<close>, \<open>StoreMembers\<close> and \<open>StoreCleanup\<close> follow the phases
  of \<open>EnsureLoadBalancer\<close>, and \<open>Converge\<close> shows that a successful run leaves the load balancer with exactly the
  listeners and pools that the service asks for. \<open>Simulation\<close> has the instance.
\<close>

section \<open>The laws of the API\<close>

definition lb_key :: "loadbalancer \<Rightarrow> string \<times> string" where
  "lb_key lb = (lb_ID lb, lb_Name lb)"

definition ln_key :: "listener \<Rightarrow> string \<times> string \<times> int" where
  "ln_key ln = (ln_ID ln, ln_Protocol ln, ln_ProtocolPort ln)"

definition pool_key :: "pool \<Rightarrow> string \<times> string list" where
  "pool_key p = (pool_ID p, pool_Listeners p)"

text \<open>A listener, given by its key, that the lookup of the listeners phase accepts for a port.\<close>

definition serves :: "service_options \<Rightarrow> service_port \<Rightarrow> string \<times> string \<times> int \<Rightarrow> bool" where
  "serves opts sp k \<longleftrightarrow>
     snd k = (resolveListenerProtocol (sp_Protocol sp) (so_KeepClientIP opts) (so_SecretID opts), sp_Port sp)"

text \<open>A view of a world: its load balancers, the listeners and the pools of each.\<close>

record 'w view =
  lbs_of :: "'w \<Rightarrow> loadbalancer list"
  lns_of :: "'w \<Rightarrow> string \<Rightarrow> listener list"
  pools_of :: "'w \<Rightarrow> string \<Rightarrow> pool list"

text \<open>What a service asks for: a listener for every port, a pool with the members behind it, nothing else.\<close>

definition realised ::
    "service_options \<Rightarrow> service_port list \<Rightarrow> string list \<Rightarrow> listener list \<Rightarrow> pool list \<Rightarrow> bool" where
  "realised opts ports ips lns ps \<longleftrightarrow> (\<exists>kf pf.
     (\<forall>sp \<in> set ports. serves opts sp (kf sp) \<and> pool_Listeners (pf sp) = [fst (kf sp)] \<and>
        \<not> membersChanged (pool_Members (pf sp)) (desired_members opts sp ips)) \<and>
     ln_key ` set lns = kf ` set ports \<and> set ps = pf ` set ports)"

text \<open>The ports need different listeners.\<close>

definition separate :: "service_options \<Rightarrow> service_port list \<Rightarrow> bool" where
  "separate opts ports \<longleftrightarrow>
     inj_on (\<lambda>sp. (resolveListenerProtocol (sp_Protocol sp) (so_KeepClientIP opts) (so_SecretID opts), sp_Port sp)) (set ports)"

definition lb_keys :: "'w view \<Rightarrow> 'w \<Rightarrow> (string \<times> string) set" where
  "lb_keys v w = lb_key ` set (lbs_of v w)"

text \<open>A request that leaves the store alone, except for the states of the load balancers.\<close>

definition undisturbed :: "'w view \<Rightarrow> ('w \<Rightarrow> bool) \<Rightarrow> ('w, 'a) ext \<Rightarrow> bool" where
  "undisturbed v sane f \<longleftrightarrow> (\<forall>w. sane w \<longrightarrow> sane (snd (f w)) \<and> lb_keys v (snd (f w)) = lb_keys v w \<and>
     lns_of v (snd (f w)) = lns_of v w \<and> pools_of v (snd (f w)) = pools_of v w)"

locale store =
  fixes c :: "'w client" and v :: "'w view" and sane :: "'w \<Rightarrow> bool"
  assumes unique: "sane w \<Longrightarrow> distinct (map lb_ID (lbs_of v w)) \<and> distinct (map ln_ID (lns_of v w i)) \<and> distinct (map pool_ID (pools_of v w i))"
    and one_listener: "sane w \<Longrightarrow> p \<in> set (pools_of v w i) \<Longrightarrow> length (pool_Listeners p) \<le> 1"
    and quiet_lbs: "undisturbed v sane (api_lb_list (Loadbalancers c))" "undisturbed v sane (api_lb_get (Loadbalancers c) i)"
      "undisturbed v sane (api_listener_list (Loadbalancers c) i)" "undisturbed v sane (api_listener_get (Loadbalancers c) i)"
      "undisturbed v sane (api_listener_exists (Loadbalancers c) i)"
    and quiet_pools: "undisturbed v sane (api_pool_list (Pools c) o')" "undisturbed v sane (api_pool_get (Pools c) i)"
      "undisturbed v sane (api_pool_exists (Pools c) i)" "undisturbed v sane (api_secret_post (Pools c) path i)"
    and quiet_networks: "undisturbed v sane (api_networks_list (Networks c))" "undisturbed v sane (api_subnet_get (Networks c) i)"
      "undisturbed v sane (api_fip_list (Networks c))" "undisturbed v sane (api_fip_by_port (Networks c) i)"
      "undisturbed v sane (api_fip_get (Networks c) i)" "undisturbed v sane (api_fip_create (Networks c) i)"
      "undisturbed v sane (api_fip_assign (Networks c) i j)" "undisturbed v sane (api_sg_list (Networks c))"
      "undisturbed v sane (api_sg_get (Networks c) i)" "undisturbed v sane (api_sg_create (Networks c) name desc)"
      "undisturbed v sane (api_rule_create (Networks c) i rule)"
    and quiet_instances: "undisturbed v sane (api_inst_get (Instances c) i)" "undisturbed v sane (api_inst_list (Instances c) i)"
      "undisturbed v sane (api_inst_interfaces (Instances c) i)" "undisturbed v sane (api_inst_sg_assign (Instances c) i asg)"
    and lb_list: "sane w \<Longrightarrow> api_lb_list (Loadbalancers c) w = (Ok lbs, w') \<Longrightarrow> lb_key ` set lbs \<subseteq> lb_keys v w"
    and lb_get: "sane w \<Longrightarrow> api_lb_get (Loadbalancers c) i w = (Ok lb, w') \<Longrightarrow> lb_ID lb = i \<and> lb_key lb \<in> lb_keys v w"
    and lb_create: "sane w \<Longrightarrow> api_lb_create (Loadbalancers c) req w = (Ok t, w') \<Longrightarrow>
      sane w' \<and> (\<exists>i. task_Loadbalancers t = [i] \<and> (i, lbc_Name req) \<in> lb_keys v w')"
    and listener_list: "sane w \<Longrightarrow> api_listener_list (Loadbalancers c) i w = (Ok lns, w') \<Longrightarrow> lns = lns_of v w i"
    and listener_get: "sane w \<Longrightarrow> api_listener_get (Loadbalancers c) j w = (Ok ln, w') \<Longrightarrow> j \<in> ln_ID ` set (lns_of v w i) \<Longrightarrow>
      ln_ID ln = j \<and> ln \<in> set (lns_of v w i)"
    and listener_exists: "sane w \<Longrightarrow> api_listener_exists (Loadbalancers c) j w = (Ok False, w') \<Longrightarrow> j \<notin> ln_ID ` set (lns_of v w i)"
    and listener_create: "sane w \<Longrightarrow> api_listener_create (Loadbalancers c) lreq w = (Ok t, w') \<Longrightarrow>
      sane w' \<and> lb_keys v w' = lb_keys v w \<and> pools_of v w' = pools_of v w \<and>
      (\<exists>ln. lns_of v w' (lnc_LoadbalancerID lreq) = lns_of v w (lnc_LoadbalancerID lreq) @ [ln] \<and> task_Listeners t = [ln_ID ln] \<and>
        ln_Protocol ln = lnc_Protocol lreq \<and> ln_ProtocolPort ln = lnc_ProtocolPort lreq)"
    and listener_update: "sane w \<Longrightarrow> api_listener_update (Loadbalancers c) j upd w = (Ok (), w') \<Longrightarrow>
      sane w' \<and> lb_keys v w' = lb_keys v w \<and> pools_of v w' = pools_of v w \<and> map ln_key (lns_of v w' i) = map ln_key (lns_of v w i)"
    and listener_delete: "sane w \<Longrightarrow> api_listener_delete (Loadbalancers c) j w = (r, w') \<Longrightarrow>
      sane w' \<and> lb_keys v w' = lb_keys v w \<and> pools_of v w' = pools_of v w \<and>
      lns_of v w' i \<in> {lns_of v w i, filter (\<lambda>ln. ln_ID ln \<noteq> j) (lns_of v w i)} \<and>
      (\<forall>t. r = Ok t \<longrightarrow> (case task_Listeners t of [] \<Rightarrow> j \<notin> ln_ID ` set (lns_of v w' i) | k # _ \<Rightarrow> k = j))"
    and pool_list: "sane w \<Longrightarrow> api_pool_list (Pools c) \<lparr>pl_LoadbalancerID = i, pl_ListenerID = [], pl_Details = True\<rparr> w = (Ok ps, w') \<Longrightarrow>
      ps = pools_of v w i"
    and pool_get: "sane w \<Longrightarrow> api_pool_get (Pools c) j w = (Ok (Some p), w') \<Longrightarrow> j \<in> pool_ID ` set (pools_of v w i) \<Longrightarrow>
      pool_ID p = j \<and> p \<in> set (pools_of v w i)"
    and pool_exists: "sane w \<Longrightarrow> api_pool_exists (Pools c) j w = (Ok False, w') \<Longrightarrow> j \<notin> pool_ID ` set (pools_of v w i)"
    and pool_create: "sane w \<Longrightarrow> api_pool_create (Pools c) preq w = (Ok t, w') \<Longrightarrow> pc_ListenerID preq \<in> ln_ID ` set (lns_of v w i) \<Longrightarrow>
      sane w' \<and> lb_keys v w' = lb_keys v w \<and> lns_of v w' = lns_of v w \<and>
      (\<exists>p. pools_of v w' i = pools_of v w i @ [p] \<and> task_Pools t = [pool_ID p] \<and> pool_Listeners p = [pc_ListenerID preq])"
    and pool_update: "sane w \<Longrightarrow> api_pool_update (Pools c) j pupd w = (r', w') \<Longrightarrow>
      sane w' \<and> lb_keys v w' = lb_keys v w \<and> lns_of v w' = lns_of v w \<and> map pool_key (pools_of v w' i) = map pool_key (pools_of v w i) \<and>
      (\<forall>p \<in> set (pools_of v w i). pool_ID p \<noteq> j \<longrightarrow> p \<in> set (pools_of v w' i))"
    and pool_delete: "sane w \<Longrightarrow> api_pool_delete (Pools c) j w = (r, w') \<Longrightarrow>
      sane w' \<and> lb_keys v w' = lb_keys v w \<and> lns_of v w' = lns_of v w \<and> pools_of v w' i \<in> {pools_of v w i, filter (\<lambda>p. pool_ID p \<noteq> j) (pools_of v w i)}"
begin

text \<open>
  The store as seen from one load balancer: \<open>holds lb J\<close> says that the load balancer exists and that \<open>J\<close> is
  true of the keys of its listeners and of its pools.
\<close>

definition holds :: "loadbalancer \<Rightarrow> ((string \<times> string \<times> int) list \<Rightarrow> pool list \<Rightarrow> bool) \<Rightarrow> 'w st \<Rightarrow> bool" where
  "holds lb J s \<longleftrightarrow> sane (world s) \<and> lb_key lb \<in> lb_keys v (world s) \<and>
     J (map ln_key (lns_of v (world s) (lb_ID lb))) (pools_of v (world s) (lb_ID lb))"

text \<open>A part that leaves the whole store alone, and with it whatever holds.\<close>

definition stored ::
    "((string \<times> string) set \<Rightarrow> (string \<Rightarrow> listener list) \<Rightarrow> (string \<Rightarrow> pool list) \<Rightarrow> bool) \<Rightarrow> 'w st \<Rightarrow> bool" where
  "stored P s \<longleftrightarrow> sane (world s) \<and> P (lb_keys v (world s)) (lns_of v (world s)) (pools_of v (world s))"

definition calm :: "('w st, 'a) prog \<Rightarrow> bool" where
  "calm m \<longleftrightarrow> (\<forall>P. triple (stored P) m (\<lambda>_. stored P) (\<lambda>_. stored P))"

named_theorems calm_intros

lemma holds_stored: "holds lb J = stored (\<lambda>L lns ps. lb_key lb \<in> L \<and> J (map ln_key (lns (lb_ID lb))) (ps (lb_ID lb)))"
  by (intro ext) (simp add: holds_def stored_def)

lemma calmD: "calm m \<Longrightarrow> triple (holds lb J) m (\<lambda>_. holds lb J) (\<lambda>_. holds lb J)"
  by (simp add: calm_def holds_stored)

lemma calm_step: "calm m \<Longrightarrow> triple (holds lb J) m (\<lambda>_. holds lb J) any_error"
  by (rule triple_weaken, erule calmD) auto

lemma calm_basic [calm_intros]: "calm (retM x)" "calm (failM e)" "calm (panicM p)" "calm (liftM r)"
  by (simp_all add: calm_def triple_retM triple_failM triple_panicM triple_liftM)

lemma calm_tryM [calm_intros]: "calm m \<Longrightarrow> (\<And>e. calm (h e)) \<Longrightarrow> (\<And>x. calm (k x)) \<Longrightarrow> calm (tryM m h k)"
  unfolding calm_def by (blast intro: triple_tryM)

lemma calm_bindM [calm_intros]: "calm m \<Longrightarrow> (\<And>x. calm (k x)) \<Longrightarrow> calm (bindM m k)"
  unfolding bindM_tryM by (rule calm_tryM) (simp_all add: calm_basic)

lemma calm_wrapM [calm_intros]: "calm m \<Longrightarrow> calm (wrapM f m)"
  unfolding calm_def by (blast intro: triple_wrapM)

lemma calm_if [calm_intros]: "(b \<Longrightarrow> calm m) \<Longrightarrow> (\<not> b \<Longrightarrow> calm m') \<Longrightarrow> calm (if b then m else m')"
  by simp

lemma calm_case [calm_intros]:
  "calm m \<Longrightarrow> (\<And>x. calm (k x)) \<Longrightarrow> calm (case p of None \<Rightarrow> m | Some x \<Rightarrow> k x)"
  "(\<And>x y. calm (k' x y)) \<Longrightarrow> calm (case q of (x, y) \<Rightarrow> k' x y)"
  "calm (firstM xs)" "calm (derefM p)"
  by (cases p; cases q; cases xs; simp add: calm_basic)+

lemma calm_Let [calm_intros]: "(\<And>x. calm (k x)) \<Longrightarrow> calm (let x = y in k x)"
  by simp

lemma calm_foldM [calm_intros]: "(\<And>x a. calm (f x a)) \<Longrightarrow> calm (foldM f xs a)"
  by (induction xs arbitrary: a) (auto intro: calm_basic calm_bindM)

lemma calm_call: "undisturbed v sane f \<Longrightarrow> calm (call k f)"
  unfolding calm_def by (auto intro!: triple_call simp: undisturbed_def stored_def)

lemmas calm_calls [calm_intros] = quiet_lbs [THEN calm_call] quiet_pools [THEN calm_call] quiet_networks [THEN calm_call]
  quiet_instances [THEN calm_call]

section \<open>Waits and retries\<close>

lemma calm_stored: "calm m \<Longrightarrow> triple (stored P) m (\<lambda>_. stored P) (\<lambda>_. stored P)"
  by (simp add: calm_def)

lemma calm_lift:
  "calm m \<Longrightarrow> triple (\<lambda>t. stored P (fst t)) (lift_st m) (\<lambda>_ t. stored P (fst t)) (\<lambda>_ t. stored P (fst t))"
  by (rule triple_lift_st) (rule calm_stored)

lemma calm_wait_status:
  assumes "polling (ExponentialBackoff c)"
  shows "calm (waitLoadbalancerActiveProvisioningStatus c i)"
  unfolding calm_def waitLoadbalancerActiveProvisioningStatus_def
proof (intro allI triple_bindM triple_run_closure)
  fix P
  let ?I = "\<lambda>t. stored P (fst t)"
  have "calm (lb_get c i)" unfolding lb_get_def by (rule calm_intros)
  then have get: "triple ?I (lift_st (lb_get c i)) (\<lambda>_. ?I) (\<lambda>_. ?I)"
    unfolding calm_def by (intro triple_lift_st) blast
  have "triple ?I (wait_active_cond c i) (\<lambda>b t. if b then ?I t else ?I t) (\<lambda>_. ?I)"
    unfolding wait_active_cond_def
    by (rule triple_bindM [OF get], rule triple_bindM [OF triple_assign])
      (auto intro!: triple_if triple_retM triple_failM)
  from polling.drive_triple [OF assms this]
  show "triple ?I (ExponentialBackoff c active_backoff (wait_active_cond c i)) (\<lambda>_. ?I) (\<lambda>_. ?I)"
    by (rule triple_weaken) auto
qed (auto split: prod.splits intro: triple_retM)

lemma calm_wait [calm_intros]:
  assumes "polling (ExponentialBackoff c)"
  shows "calm (wait_active c i)" "calm (wait_phase c i after)"
  unfolding wait_active_def wait_phase_def by (intro calm_intros calm_wait_status assms)+

text \<open>A retried operation: an attempt that fails keeps \<open>P\<close>, a successful one establishes \<open>Q\<close>.\<close>

lemma triple_set_lastErr:
  "triple (\<lambda>t. stored P (fst t)) (set_lastErr e) (\<lambda>b t. \<not> b \<and> stored P (fst t)) E"
  unfolding set_lastErr_def by (rule triple_bindM [OF triple_assign]) (simp add: triple_retM)

text \<open>The same for one load balancer.\<close>

lemmas holds_lift = calm_lift [where P = "\<lambda>L lns ps. lb_key lb \<in> L \<and> J (map ln_key (lns (lb_ID lb))) (ps (lb_ID lb))" for lb J,
  folded holds_stored]

lemmas holds_set_lastErr = triple_set_lastErr [where P = "\<lambda>L lns ps. lb_key lb \<in> L \<and> J (map ln_key (lns (lb_ID lb))) (ps (lb_ID lb))" for lb J,
  folded holds_stored]

lemma stored_mono: "stored Q s \<Longrightarrow> (\<And>L lns ps. Q L lns ps \<Longrightarrow> P L lns ps) \<Longrightarrow> stored P s"
  by (auto simp: stored_def)

lemma retry_stored:
  assumes d: "drivers c" and op: "triple (stored P) op (\<lambda>_. stored Q) (\<lambda>_. stored P)"
    and QP: "\<And>L lns ps. Q L lns ps \<Longrightarrow> P L lns ps"
  shows "triple (stored P) (runLBOperationWithRetry c i opName rid op) (\<lambda>_. stored Q) (\<lambda>_. stored P)"
proof -
  let ?I = "\<lambda>P t. stored P (fst t)"
  from d have pol: "polling (ExponentialBackoff c)" "polling (ExponentialBackoffWithContext c)"
    by (simp_all add: drivers_def)
  note wait = calm_lift [OF calm_wait(1) [OF pol(1)]]
  have weak: "stored Q s \<Longrightarrow> stored P s" for s by (erule stored_mono) (rule QP)
  have "triple (?I P) (retry_cond c i opName rid op) (\<lambda>b t. if b then ?I Q t else ?I P t) (\<lambda>_. ?I P)"
    unfolding retry_cond_def
  proof (rule triple_tryM [OF wait])
    fix e
    show "triple (?I P) (set_lastErr e') (\<lambda>b t. if b then ?I Q t else ?I P t) (\<lambda>_. ?I P)" for e'
      by (rule triple_post [OF triple_set_lastErr]) auto
    show "triple (?I P) (tryM (lift_st op)
         (\<lambda>e. if isLoadBalancerImmutableError (Some e) then set_lastErr e else failM e)
         (\<lambda>_. tryM (lift_st (wait_active c i))
           (\<lambda>e. set_lastErr (Wrapf (''LB not ACTIVE after '' @ opName @ '' for '' @ rid @ '': '') e)) (\<lambda>_. retM True)))
         (\<lambda>b t. if b then ?I Q t else ?I P t) (\<lambda>_. ?I P)"
    proof (rule triple_tryM [OF triple_lift_st [OF op]])
      show "triple (?I Q) (tryM (lift_st (wait_active c i))
           (\<lambda>e. set_lastErr (Wrapf (''LB not ACTIVE after '' @ opName @ '' for '' @ rid @ '': '') e)) (\<lambda>_. retM True))
         (\<lambda>b t. if b then ?I Q t else ?I P t) (\<lambda>_. ?I P)"
        by (rule triple_tryM [OF wait], rule triple_retM, simp, rule triple_post [OF triple_set_lastErr]) (auto dest: weak)
      show "triple (?I P) (if isLoadBalancerImmutableError (Some e) then set_lastErr e else failM e)
         (\<lambda>b t. if b then ?I Q t else ?I P t) (\<lambda>_. ?I P)" for e
        by (auto intro!: triple_if triple_failM triple_post [OF triple_set_lastErr])
    qed
  qed
  from polling.drive_triple [OF pol(2) this]
  have "triple (?I P) (ExponentialBackoffWithContext c retry_backoff (retry_cond c i opName rid op)) (\<lambda>_. ?I Q) (\<lambda>_. ?I P)"
    by (rule triple_weaken) auto
  then show ?thesis
    unfolding runLBOperationWithRetry_def
    by (intro triple_bindM [where R = "\<lambda>(err, _) s. if err = None then stored Q s else stored P s"] triple_run_closure)
      (auto elim!: triple_weaken intro!: triple_retM triple_failM split: option.splits)
qed

lemma retry_triple:
  assumes "drivers c" "triple (holds lb J) op (\<lambda>_. holds lb K) (\<lambda>_. holds lb J)" "\<And>ks ps. K ks ps \<Longrightarrow> J ks ps"
  shows "triple (holds lb J) (runLBOperationWithRetry c i opName rid op) (\<lambda>_. holds lb K) any_error"
  by (rule triple_any_error, unfold holds_stored, rule retry_stored [OF assms(1) assms(2) [unfolded holds_stored]])
    (use assms(3) in blast)

section \<open>Reading and changing the store\<close>

abbreviation keys_at :: "loadbalancer \<Rightarrow> 'w \<Rightarrow> (string \<times> string \<times> int) list" where
  "keys_at lb w \<equiv> map ln_key (lns_of v w (lb_ID lb))"

abbreviation pools_at :: "loadbalancer \<Rightarrow> 'w \<Rightarrow> pool list" where
  "pools_at lb w \<equiv> pools_of v w (lb_ID lb)"

lemma holds_undisturbed:
  assumes "undisturbed v sane f" "f (world s) = (r, w)" "holds lb J s"
  shows "holds lb J (s\<lparr>world := w, calls := es\<rparr>)"
proof -
  have w: "snd (f (world s)) = w" using assms(2) by simp
  have "sane (world s)" using assms(3) by (simp add: holds_def)
  with assms(1) have "sane w \<and> lb_keys v w = lb_keys v (world s) \<and> lns_of v w = lns_of v (world s) \<and>
      pools_of v w = pools_of v (world s)"
    unfolding undisturbed_def w [symmetric] by blast
  with assms(3) show ?thesis by (simp add: holds_def)
qed

lemma triple_read:
  assumes f: "undisturbed v sane f"
    and R: "\<And>w x w'. sane w \<Longrightarrow> f w = (Ok x, w') \<Longrightarrow> J (keys_at lb w) (pools_at lb w) \<Longrightarrow> R x (keys_at lb w) (pools_at lb w)"
  shows "triple (holds lb J) (call k f) (\<lambda>x. holds lb (R x)) (\<lambda>_. holds lb J)"
proof (rule triple_call)
  fix s x w
  assume h: "holds lb J s" and run: "f (world s) = (Ok x, w)"
  then have "holds lb (R x) s" using R unfolding holds_def by blast
  then show "holds lb (R x) (s\<lparr>world := w, calls := calls s @ [k (Ok x)]\<rparr>)" by (rule holds_undisturbed [OF f run])
next
  fix s e w
  assume "holds lb J s" "f (world s) = (Err e, w)"
  then show "holds lb J (s\<lparr>world := w, calls := calls s @ [k (Err e)]\<rparr>)" using holds_undisturbed [OF f] by blast
qed

text \<open>A change that is not repeated when it fails, and one that is.\<close>

lemma triple_write:
  assumes "\<And>w x w'. sane w \<Longrightarrow> f w = (Ok x, w') \<Longrightarrow> J (keys_at lb w) (pools_at lb w) \<Longrightarrow>
    sane w' \<and> lb_keys v w' = lb_keys v w \<and> R x (keys_at lb w') (pools_at lb w')"
  shows "triple (holds lb J) (call k f) (\<lambda>x. holds lb (R x)) any_error"
  by (rule triple_call) (use assms in \<open>auto simp: holds_def\<close>)

lemma triple_rewrite:
  assumes "\<And>w r w'. sane w \<Longrightarrow> f w = (r, w') \<Longrightarrow> J (keys_at lb w) (pools_at lb w) \<Longrightarrow>
    sane w' \<and> lb_keys v w' = lb_keys v w \<and> J (keys_at lb w') (pools_at lb w') \<and>
    (\<forall>x. r = Ok x \<longrightarrow> R x (keys_at lb w') (pools_at lb w'))"
  shows "triple (holds lb J) (call k f) (\<lambda>x. holds lb (R x)) (\<lambda>_. holds lb J)"
proof (rule triple_call)
  fix s x w
  assume h: "holds lb J s" and run: "f (world s) = (Ok x, w)"
  with assms [of "world s" "Ok x" w] show "holds lb (R x) (s\<lparr>world := w, calls := calls s @ [k (Ok x)]\<rparr>)"
    by (simp add: holds_def)
next
  fix s e w
  assume h: "holds lb J s" and run: "f (world s) = (Err e, w)"
  with assms [of "world s" "Err e" w] show "holds lb J (s\<lparr>world := w, calls := calls s @ [k (Err e)]\<rparr>)"
    by (simp add: holds_def)
qed

lemma holds_mono: "holds lb J s \<Longrightarrow> (\<And>ks ps. J ks ps \<Longrightarrow> K ks ps) \<Longrightarrow> holds lb K s"
  by (auto simp: holds_def)

end

end
