(* ===== verification/StoreListeners.thy ===== *)
theory StoreListeners
  imports Store
begin

text \<open>
  The listeners phase on the store: after it every port has a listener that serves it, and what the phase
  calls obsolete is the rest.
\<close>

section \<open>The listeners phase\<close>

context store
begin

lemma unique_keys:
  "sane w \<Longrightarrow> k \<in> set (keys_at lb w) \<Longrightarrow> k' \<in> set (keys_at lb w) \<Longrightarrow> fst k = fst k' \<Longrightarrow> k = k'"
proof -
  assume "sane w" and k: "k \<in> set (keys_at lb w)" "k' \<in> set (keys_at lb w)" "fst k = fst k'"
  then have "inj_on ln_ID (set (lns_of v w (lb_ID lb)))" using unique [of w "lb_ID lb"] by (simp add: distinct_map)
  moreover from k obtain ln ln' where "ln \<in> set (lns_of v w (lb_ID lb))" "ln' \<in> set (lns_of v w (lb_ID lb))"
    "k = ln_key ln" "k' = ln_key ln'" by auto
  moreover from this k(3) have "ln_ID ln = ln_ID ln'" by (simp add: ln_key_def)
  ultimately show "k = k'" by (metis inj_onD)
qed

lemma triple_listener_list:
  "triple (holds lb J) (getListenersByLoadBalancerID c (lb_ID lb))
    (\<lambda>lns. holds lb (\<lambda>ks ps. J ks ps \<and> ks = map ln_key lns)) (\<lambda>_. holds lb J)"
  unfolding getListenersByLoadBalancerID_def
  by (rule triple_read [OF quiet_lbs(3)]) (auto dest: listener_list)

text \<open>Reading back a listener that exists.\<close>

lemma triple_listener_get:
  assumes "\<And>ks ps. J ks ps \<Longrightarrow> \<exists>k \<in> set ks. fst k = j \<and> N k"
  shows "triple (holds lb J) (listener_get c j)
    (\<lambda>ln. holds lb (\<lambda>ks ps. J ks ps \<and> ln_key ln \<in> set ks \<and> ln_ID ln = j \<and> N (ln_key ln))) (\<lambda>_. holds lb J)"
  unfolding listener_get_def
proof (rule triple_read [OF quiet_lbs(4)])
  fix w ln w'
  assume sane: "sane w" and run: "api_listener_get (Loadbalancers c) j w = (Ok ln, w')"
    and J: "J (keys_at lb w) (pools_at lb w)"
  from assms [OF J] obtain k where k: "k \<in> set (keys_at lb w)" "fst k = j" "N k" by blast
  then have "j \<in> ln_ID ` set (lns_of v w (lb_ID lb))" by (auto simp: ln_key_def)
  from listener_get [OF sane run this] have ln: "ln_ID ln = j" "ln_key ln \<in> set (keys_at lb w)" by auto
  then have "ln_key ln = k" using unique_keys [OF sane ln(2) k(1)] k(2) by (simp add: ln_key_def)
  with J ln k(3) show "J (keys_at lb w) (pools_at lb w) \<and> ln_key ln \<in> set (keys_at lb w) \<and> ln_ID ln = j \<and> N (ln_key ln)"
    by simp
qed

text \<open>
  What the loop over the ports knows of the listeners after the ports \<open>done\<close>; \<open>extra\<close> has the listener that
  is being made for the next port.
\<close>

definition listeners_upto ::
    "service_options \<Rightarrow> listener list \<Rightarrow> service_port list \<Rightarrow> (string \<rightharpoonup> listener) \<Rightarrow> string list \<Rightarrow> string list \<Rightarrow>
     (string \<times> string \<times> int) list \<Rightarrow> bool" where
  "listeners_upto opts existing done result used extra ks \<longleftrightarrow> distinct (map ln_ID existing) \<and>
     ln_key ` set existing \<subseteq> set ks \<and> fst ` set ks \<subseteq> ln_ID ` set existing \<union> set used \<union> set extra \<and>
     set used = (\<lambda>sp. ln_ID (the (result (servicePortKey sp)))) ` set done \<and>
     (\<forall>sp \<in> set done. \<exists>ln. result (servicePortKey sp) = Some ln \<and> serves opts sp (ln_key ln) \<and> ln_key ln \<in> set ks)"

definition listener_for :: "service_options \<Rightarrow> service_port \<Rightarrow> string \<Rightarrow> (string \<times> string \<times> int) list \<Rightarrow> bool" where
  "listener_for opts sp j ks \<longleftrightarrow> (\<exists>k \<in> set ks. fst k = j \<and> serves opts sp k)"

lemma listeners_upto_step:
  assumes "listeners_upto opts existing done result used [ln_ID ln] ks" "serves opts sp (ln_key ln)" "ln_key ln \<in> set ks"
    and "\<forall>sp' \<in> set done. servicePortKey sp' \<noteq> servicePortKey sp"
  shows "listeners_upto opts existing (done @ [sp]) (result(servicePortKey sp \<mapsto> ln)) (ln_ID ln # used) [] ks"
proof -
  have "(\<lambda>sp'. ln_ID (the ((result(servicePortKey sp \<mapsto> ln)) (servicePortKey sp')))) ` set done =
      (\<lambda>sp'. ln_ID (the (result (servicePortKey sp')))) ` set done"
    using assms(4) by (intro image_cong) auto
  with assms show ?thesis by (auto simp: listeners_upto_def)
qed

lemma listeners_upto_new:
  assumes "listeners_upto opts existing done result used [] ks"
  shows "listeners_upto opts existing done result used [fst k] (ks @ [k])"
proof -
  from assms have "fst ` set (ks @ [k]) \<subseteq> ln_ID ` set existing \<union> set used \<union> set [fst k]"
    unfolding listeners_upto_def by (simp add: image_Un) blast
  moreover from assms have "ln_key ` set existing \<subseteq> set (ks @ [k])" unfolding listeners_upto_def by auto
  moreover from assms have "\<forall>sp \<in> set done. \<exists>ln. result (servicePortKey sp) = Some ln \<and> serves opts sp (ln_key ln) \<and>
      ln_key ln \<in> set (ks @ [k])" unfolding listeners_upto_def by fastforce
  ultimately show ?thesis using assms unfolding listeners_upto_def by blast
qed

lemma listeners_upto_found:
  assumes "listeners_upto opts existing done result used [] ks" "ln \<in> set existing" "serves opts sp (ln_key ln)"
  shows "listeners_upto opts existing done result used [ln_ID ln] ks \<and> listener_for opts sp (ln_ID ln) ks"
proof -
  have "ln_key ln \<in> set ks" "fst (ln_key ln) = ln_ID ln" using assms(1,2) by (auto simp: listeners_upto_def ln_key_def)
  with assms show ?thesis unfolding listeners_upto_def listener_for_def by auto
qed

text \<open>Reading back the listener of a port.\<close>

lemma triple_read_back:
  "triple (holds lb (\<lambda>ks ps. I ks \<and> listener_for opts sp j ks)) (listener_get c j)
    (\<lambda>ln. holds lb (\<lambda>ks ps. I ks \<and> ln_ID ln = j \<and> listener_for opts sp (ln_ID ln) ks \<and>
      serves opts sp (ln_key ln) \<and> ln_key ln \<in> set ks)) any_error"
proof (rule triple_weaken [OF triple_listener_get [where N = "serves opts sp"]])
  show "\<exists>k \<in> set ks. fst k = j \<and> serves opts sp k" if "I ks \<and> listener_for opts sp j ks" for ks
    using that by (simp add: listener_for_def)
qed (auto elim!: holds_mono)

lemma triple_listener_create:
  "triple (holds lb (\<lambda>ks ps. listeners_upto opts existing done result used [] ks))
    (call k (api_listener_create (Loadbalancers c) (buildListenerCreateRequest (lb_ID lb) (lb_Name lb) sp opts)))
    (\<lambda>t. holds lb (\<lambda>ks ps. \<exists>j. task_Listeners t = [j] \<and> listeners_upto opts existing done result used [j] ks \<and>
      listener_for opts sp j ks)) any_error"
proof -
  let ?req = "buildListenerCreateRequest (lb_ID lb) (lb_Name lb) sp opts"
  have req: "lnc_LoadbalancerID ?req = lb_ID lb" "lnc_ProtocolPort ?req = sp_Port sp"
    "lnc_Protocol ?req = resolveListenerProtocol (sp_Protocol sp) (so_KeepClientIP opts) (so_SecretID opts)"
    by (simp_all add: buildListenerCreateRequest_def Let_def)
  show ?thesis
  proof (rule triple_write)
    fix w t w'
    assume "sane w" "api_listener_create (Loadbalancers c) ?req w = (Ok t, w')"
      and upto: "listeners_upto opts existing done result used [] (keys_at lb w)"
    from listener_create [OF this(1,2)] req obtain ln where
      new: "sane w'" "lb_keys v w' = lb_keys v w" "keys_at lb w' = keys_at lb w @ [ln_key ln]" "task_Listeners t = [ln_ID ln]"
        "serves opts sp (ln_key ln)" by (auto simp: serves_def ln_key_def)
    have id: "fst (ln_key ln) = ln_ID ln" by (simp add: ln_key_def)
    have "listeners_upto opts existing done result used [ln_ID ln] (keys_at lb w')"
      using listeners_upto_new [OF upto, of "ln_key ln"] unfolding new(3) id .
    moreover have "listener_for opts sp (ln_ID ln) (keys_at lb w')"
      unfolding listener_for_def new(3) using new(5) id by auto
    ultimately show "sane w' \<and> lb_keys v w' = lb_keys v w \<and> (\<exists>j. task_Listeners t = [j] \<and>
        listeners_upto opts existing done result used [j] (keys_at lb w') \<and> listener_for opts sp j (keys_at lb w'))"
      using new(1,2,4) by blast
  qed
qed

lemma triple_create_listener:
  assumes c: "l_client l = c"
  shows "triple (holds lb (\<lambda>ks ps. listeners_upto opts existing done result used [] ks))
    (createListener l (buildListenerCreateRequest (lb_ID lb) (lb_Name lb) sp opts))
    (\<lambda>ln. holds lb (\<lambda>ks ps. listeners_upto opts existing done result used [ln_ID ln] ks \<and> listener_for opts sp (ln_ID ln) ks))
    any_error"
  unfolding createListener_def c
proof (rule triple_bindM [OF triple_wrapM [OF triple_listener_create]], rule triple_bindM)
  show "triple (holds lb (\<lambda>ks ps. \<exists>j. task_Listeners t = [j] \<and> listeners_upto opts existing done result used [j] ks \<and>
      listener_for opts sp j ks)) (firstM (task_Listeners t))
    (\<lambda>j. holds lb (\<lambda>ks ps. listeners_upto opts existing done result used [j] ks \<and> listener_for opts sp j ks)) any_error" for t
    by (rule triple_firstM) (erule holds_mono, auto)
  show "triple (holds lb (\<lambda>ks ps. listeners_upto opts existing done result used [j] ks \<and> listener_for opts sp j ks))
    (wrapM f (listener_get c j))
    (\<lambda>ln. holds lb (\<lambda>ks ps. listeners_upto opts existing done result used [ln_ID ln] ks \<and> listener_for opts sp (ln_ID ln) ks))
    any_error" for j f
    by (rule triple_wrapM, rule triple_post [OF triple_read_back]) (erule holds_mono, auto)
qed

lemma triple_update_listener:
  assumes "l_client l = c" "polling (ExponentialBackoff c)"
  shows "triple (holds lb (\<lambda>ks ps. I ks)) (updateListenerIfNeeded l i ln opts) (\<lambda>_. holds lb (\<lambda>ks ps. I ks)) any_error"
proof -
  have upd: "triple (holds lb (\<lambda>ks ps. I ks)) (call k (api_listener_update (Loadbalancers c) (ln_ID ln) req))
      (\<lambda>_. holds lb (\<lambda>ks ps. I ks)) any_error" for k req
    by (rule triple_write) (metis listener_update unit.exhaust)
  have wait: "triple (holds lb (\<lambda>ks ps. I ks)) (wrapM f (wait_active c i)) (\<lambda>_. holds lb (\<lambda>ks ps. I ks)) any_error" for f
    by (rule calm_step [OF calm_wrapM [OF calm_wait(1) [OF assms(2)]]])
  show ?thesis
    unfolding updateListenerIfNeeded_def Let_def assms(1)
    by (cases "listener_update ln opts") (auto intro!: triple_if triple_retM triple_bindM [OF triple_wrapM [OF upd] wait])
qed

lemma triple_ensure_listener:
  assumes c: "l_client l = c" and d: "drivers c"
    and fresh: "\<forall>sp' \<in> set done. servicePortKey sp' \<noteq> servicePortKey sp"
  shows "triple (holds lb (\<lambda>ks ps. listeners_upto opts existing done result used [] ks))
    (ensure_listener l lb existing opts sp (result, used))
    (\<lambda>(result', used'). holds lb (\<lambda>ks ps. listeners_upto opts existing (done @ [sp]) result' used' [] ks)) any_error"
proof -
  from d have pol: "polling (ExponentialBackoff c)" by (simp add: drivers_def)
  let ?J = "\<lambda>ks ps. listeners_upto opts existing done result used [] ks"
  let ?K = "\<lambda>j ks ps. listeners_upto opts existing done result used [j] ks \<and> listener_for opts sp j ks"
  let ?M = "\<lambda>ln ks ps. listeners_upto opts existing done result used [ln_ID ln] ks \<and> serves opts sp (ln_key ln) \<and> ln_key ln \<in> set ks"
  have again: "triple (holds lb (?K (ln_ID ln))) (tryM (getListenerByID l (ln_ID ln)) (\<lambda>_. panicM ''nil pointer dereference'') retM)
      (\<lambda>ln. holds lb (?M ln)) any_error" for ln
    unfolding getListenerByID_def c
    by (rule triple_tryM [OF triple_read_back]) (auto intro!: triple_retM triple_panicM elim: holds_mono)
  show ?thesis
    unfolding ensure_listener_def Let_def prod.case
  proof (rule triple_bindM [where R = "\<lambda>ln. holds lb (?M ln)"])
    fix ln
    show "triple (holds lb (?M ln)) (retM (result(servicePortKey sp \<mapsto> ln), ln_ID ln # used))
        (\<lambda>(result', used'). holds lb (\<lambda>ks ps. listeners_upto opts existing (done @ [sp]) result' used' [] ks)) any_error"
      by (rule triple_retM) (auto elim!: holds_mono intro: listeners_upto_step [OF _ _ _ fresh])
  next
    show "triple (holds lb ?J) (case findListenerForServicePort existing sp opts of
          None \<Rightarrow>
            bindM (wrapM (Wrapf (''failed to create listener for key='' @ servicePortKey sp @ '': ''))
              (createListener l (buildListenerCreateRequest (lb_ID lb) (lb_Name lb) sp opts))) (\<lambda>ln.
            bindM (wrapM (flatten (''LB not ACTIVE after listener create for key='' @ servicePortKey sp @ '': ''))
              (wait_active (l_client l) (lb_ID lb))) (\<lambda>_.
              tryM (getListenerByID l (ln_ID ln)) (\<lambda>_. panicM ''nil pointer dereference'') retM))
        | Some ln \<Rightarrow>
            bindM (wrapM (Wrapf (''failed updating listener for key='' @ servicePortKey sp @ '': ''))
              (updateListenerIfNeeded l (lb_ID lb) ln opts)) (\<lambda>_.
              tryM (getListenerByID l (ln_ID ln)) (\<lambda>_. panicM ''nil pointer dereference'') retM))
      (\<lambda>ln. holds lb (?M ln)) any_error"
    proof (cases "findListenerForServicePort existing sp opts")
      case None
      have "triple (holds lb (?K (ln_ID ln))) (wrapM f (wait_active (l_client l) (lb_ID lb))) (\<lambda>_. holds lb (?K (ln_ID ln))) any_error" for f ln
        unfolding c by (rule calm_step [OF calm_wrapM [OF calm_wait(1) [OF pol]]])
      note step = triple_bindM [OF this again]
      show ?thesis
        unfolding None option.case by (rule triple_bindM [OF triple_wrapM [OF triple_create_listener [OF c]] step])
    next
      case (Some ln)
      then have ln: "ln \<in> set existing" "serves opts sp (ln_key ln)"
        by (auto simp: findListenerForServicePort_def serves_def ln_key_def dest: find_listener_Some)
      have "holds lb ?J s \<Longrightarrow> holds lb (?K (ln_ID ln)) s" for s
        by (erule holds_mono) (rule listeners_upto_found [OF _ ln])
      then have "triple (holds lb ?J) (updateListenerIfNeeded l (lb_ID lb) ln opts) (\<lambda>_. holds lb (?K (ln_ID ln))) any_error"
        by (rule triple_pre [OF triple_update_listener [OF c pol]])
      from triple_bindM [OF triple_wrapM [OF this] again] show ?thesis unfolding Some option.case .
    qed
  qed
qed

text \<open>After the phase: \<open>chosen\<close> has a listener for every port, and the others are obsolete.\<close>

definition listeners_chosen ::
    "service_options \<Rightarrow> service_port list \<Rightarrow> (string \<rightharpoonup> listener) \<Rightarrow> (string \<times> string \<times> int) list \<Rightarrow> bool" where
  "listeners_chosen opts ports chosen ks \<longleftrightarrow> (\<forall>sp \<in> set ports. \<exists>ln. chosen (servicePortKey sp) = Some ln \<and>
     serves opts sp (ln_key ln) \<and> ln_key ln \<in> set ks)"

definition chosen_ids :: "service_port list \<Rightarrow> (string \<rightharpoonup> 'r) \<Rightarrow> ('r \<Rightarrow> string) \<Rightarrow> string set" where
  "chosen_ids ports chosen ident = (\<lambda>sp. ident (the (chosen (servicePortKey sp)))) ` set ports"

lemma triple_listeners_read:
  "triple (holds lb (\<lambda>_ _. True)) (getListenersByLoadBalancerID c (lb_ID lb))
    (\<lambda>lns. holds lb (\<lambda>ks ps. listeners_upto opts lns [] Map.empty [] [] ks)) any_error"
proof (rule triple_weaken [OF triple_listener_list [where J = "\<lambda>_ _. True"]])
  fix lns s
  assume h: "holds lb (\<lambda>ks ps. True \<and> ks = map ln_key lns) s"
  then have d: "distinct (map ln_ID (lns_of v (world s) (lb_ID lb)))" and "map ln_key lns = keys_at lb (world s)"
    using unique by (simp_all add: holds_def)
  then have "map fst (map ln_key lns) = map fst (keys_at lb (world s))" by simp
  then have "map ln_ID lns = map ln_ID (lns_of v (world s) (lb_ID lb))" by (simp add: ln_key_def comp_def)
  with d have "distinct (map ln_ID lns)" by simp
  with h show "holds lb (\<lambda>ks ps. listeners_upto opts lns [] Map.empty [] [] ks) s"
    by (auto elim!: holds_mono simp: listeners_upto_def ln_key_def image_image)
qed simp_all

lemma triple_listeners_phase:
  assumes c: "l_client l = c" and d: "drivers c" and distinct: "distinct (map servicePortKey ports)"
  shows "triple (holds lb (\<lambda>_ _. True)) (ensureLoadBalancerListeners l lb ports opts)
    (\<lambda>(chosen, obsolete). holds lb (\<lambda>ks ps. listeners_chosen opts ports chosen ks \<and>
      fst ` set ks = ln_ID ` set obsolete \<union> chosen_ids ports chosen ln_ID \<and>
      ln_ID ` set obsolete \<inter> chosen_ids ports chosen ln_ID = {} \<and> distinct (map ln_ID obsolete))) any_error"
proof -
  let ?I = "\<lambda>existing done (result, used). holds lb (\<lambda>ks ps. listeners_upto opts existing done result used [] ks)"
  have loop: "triple (?I existing [] (Map.empty, [])) (foldM (ensure_listener l lb existing opts) ports (Map.empty, []))
      (?I existing ports) any_error" for existing
  proof (rule triple_foldM)
    fix "done" sp rest a
    assume ports: "ports = done @ sp # rest"
    obtain result :: "string \<rightharpoonup> listener" and used :: "string list" where a: "a = (result, used)" by fastforce
    have "\<forall>sp' \<in> set done. servicePortKey sp' \<noteq> servicePortKey sp"
      using distinct unfolding ports by (auto simp: image_iff)
    from triple_ensure_listener [OF c d this, where lb = lb and opts = opts and existing = existing and result = result and used = used]
    show "triple (?I existing done a) (ensure_listener l lb existing opts sp a) (?I existing (done @ [sp])) any_error"
      by (simp add: a)
  qed
  show ?thesis
    unfolding ensureLoadBalancerListeners_def c
  proof (rule triple_bindM [OF triple_wrapM [OF triple_listeners_read [where opts = opts]]], rule triple_bindM [OF triple_pre [OF loop]], simp, clarify, rule triple_retM, clarsimp, erule holds_mono)
    fix existing result used ks and ps :: "pool list"
    assume upto: "listeners_upto opts existing ports result used [] ks"
    then have used: "set used = chosen_ids ports result ln_ID"
      by (simp add: listeners_upto_def chosen_ids_def)
    note parts = upto [unfolded listeners_upto_def]
    from parts have dist: "distinct (map ln_ID existing)" by (elim conjE)
    from parts have keys: "ln_key ` set existing \<subseteq> set ks" by (elim conjE)
    from parts have all: "fst ` set ks \<subseteq> ln_ID ` set existing \<union> set used \<union> set []" by (elim conjE)
    from parts have chosen: "listeners_chosen opts ports result ks" unfolding listeners_chosen_def by (elim conjE)
    from keys have "fst ` ln_key ` set existing \<subseteq> fst ` set ks" by blast
    then have ids: "ln_ID ` set existing \<subseteq> fst ` set ks" by (simp add: image_image ln_key_def)
    have old: "chosen_ids ports result ln_ID \<subseteq> fst ` set ks"
    proof
      fix i assume "i \<in> chosen_ids ports result ln_ID"
      then obtain sp where sp: "sp \<in> set ports" "i = ln_ID (the (result (servicePortKey sp)))" by (auto simp: chosen_ids_def)
      with chosen obtain ln where "result (servicePortKey sp) = Some ln" "ln_key ln \<in> set ks" unfolding listeners_chosen_def by blast
      with sp(2) show "i \<in> fst ` set ks" by (force simp: ln_key_def)
    qed
    have rest: "ln_ID ` {x \<in> set existing. ln_ID x \<notin> set used} = ln_ID ` set existing - chosen_ids ports result ln_ID"
      unfolding used by blast
    show "listeners_chosen opts ports result ks \<and>
      fst ` set ks = ln_ID ` {x \<in> set existing. ln_ID x \<notin> set used} \<union> chosen_ids ports result ln_ID \<and>
      ln_ID ` {x \<in> set existing. ln_ID x \<notin> set used} \<inter> chosen_ids ports result ln_ID = {} \<and>
      distinct (map ln_ID (filter (\<lambda>x. ln_ID x \<notin> set used) existing))"
      unfolding rest using chosen ids old all dist by (intro conjI distinct_map_filter) (auto simp: used)
  qed
qed

end

end
