(* ===== verification/StorePools.thy ===== *)
theory StorePools
  imports StoreListeners
begin

text \<open>
  The pools phase on the store: after it every port has a pool of its listener, and what the phase calls
  obsolete is the rest.
\<close>

section \<open>The pools phase\<close>

context store
begin

lemma unique_pools:
  "sane w \<Longrightarrow> p \<in> set (pools_at lb w) \<Longrightarrow> q \<in> set (pools_at lb w) \<Longrightarrow> pool_ID p = pool_ID q \<Longrightarrow> p = q"
  using unique [of w "lb_ID lb"] by (metis distinct_map inj_onD)

lemma triple_pool_get:
  assumes "\<And>ks ps. J ks ps \<Longrightarrow> \<exists>p \<in> set ps. pool_ID p = j \<and> N p"
  shows "triple (holds lb J) (pool_get c j)
    (\<lambda>r. holds lb (\<lambda>ks ps. J ks ps \<and> (\<forall>p. r = Some p \<longrightarrow> p \<in> set ps \<and> pool_ID p = j \<and> N p))) (\<lambda>_. holds lb J)"
  unfolding pool_get_def
proof (rule triple_read [OF quiet_pools(2)])
  fix w r w'
  assume sane: "sane w" and run: "api_pool_get (Pools c) j w = (Ok r, w')" and J: "J (keys_at lb w) (pools_at lb w)"
  from assms [OF J] obtain q where q: "q \<in> set (pools_at lb w)" "pool_ID q = j" "N q" by blast
  have "p \<in> set (pools_at lb w) \<and> pool_ID p = j \<and> N p" if "r = Some p" for p
  proof -
    from q have "j \<in> pool_ID ` set (pools_at lb w)" by auto
    with pool_get [OF sane, of j p w' "lb_ID lb"] run that have "pool_ID p = j" "p \<in> set (pools_at lb w)" by simp_all
    with unique_pools [OF sane this(2) q(1)] q show ?thesis by simp
  qed
  with J show "J (keys_at lb w) (pools_at lb w) \<and> (\<forall>p. r = Some p \<longrightarrow> p \<in> set (pools_at lb w) \<and> pool_ID p = j \<and> N p)"
    by blast
qed

text \<open>What the loop over the ports knows of the pools; \<open>chosen\<close> has the listeners.\<close>

definition pools_upto ::
    "(string \<rightharpoonup> listener) \<Rightarrow> pool list \<Rightarrow> service_port list \<Rightarrow> (string \<rightharpoonup> pool) \<Rightarrow> string list \<Rightarrow> string list \<Rightarrow> pool list \<Rightarrow> bool" where
  "pools_upto chosen existing done result used extra ps \<longleftrightarrow> distinct (map pool_ID existing) \<and>
     set existing \<subseteq> set ps \<and> pool_ID ` set ps \<subseteq> pool_ID ` set existing \<union> set used \<union> set extra \<and>
     set used = chosen_ids done result pool_ID \<and>
     (\<forall>sp \<in> set done. \<exists>p ln. result (servicePortKey sp) = Some p \<and> p \<in> set ps \<and>
        chosen (servicePortKey sp) = Some ln \<and> pool_Listeners p = [ln_ID ln])"

definition pool_for :: "string \<Rightarrow> listener \<Rightarrow> pool list \<Rightarrow> bool" where
  "pool_for j ln ps \<longleftrightarrow> (\<exists>p \<in> set ps. pool_ID p = j \<and> pool_Listeners p = [ln_ID ln])"

lemma pools_upto_new:
  assumes "pools_upto chosen existing done result used [] ps"
  shows "pools_upto chosen existing done result used [pool_ID p] (ps @ [p])"
proof -
  from assms have "pool_ID ` set (ps @ [p]) \<subseteq> pool_ID ` set existing \<union> set used \<union> set [pool_ID p]"
    unfolding pools_upto_def by (simp add: image_Un) blast
  moreover from assms have "\<forall>sp \<in> set done. \<exists>q ln. result (servicePortKey sp) = Some q \<and> q \<in> set (ps @ [p]) \<and>
      chosen (servicePortKey sp) = Some ln \<and> pool_Listeners q = [ln_ID ln]" unfolding pools_upto_def by fastforce
  ultimately show ?thesis using assms unfolding pools_upto_def by auto
qed

lemma pools_upto_step:
  assumes "pools_upto chosen existing done result used [pool_ID p] ps" "p \<in> set ps"
    and "chosen (servicePortKey sp) = Some ln" "pool_Listeners p = [ln_ID ln]"
    and "\<forall>sp' \<in> set done. servicePortKey sp' \<noteq> servicePortKey sp"
  shows "pools_upto chosen existing (done @ [sp]) (result(servicePortKey sp \<mapsto> p)) (pool_ID p # used) [] ps"
proof -
  have "(\<lambda>sp'. pool_ID (the ((result(servicePortKey sp \<mapsto> p)) (servicePortKey sp')))) ` set done =
      (\<lambda>sp'. pool_ID (the (result (servicePortKey sp')))) ` set done"
    using assms(5) by (intro image_cong) auto
  with assms show ?thesis by (auto simp: pools_upto_def chosen_ids_def)
qed

lemma pools_upto_found:
  assumes "pools_upto chosen existing done result used [] ps" "p \<in> set existing"
  shows "pools_upto chosen existing done result used [pool_ID p] ps \<and> p \<in> set ps"
  using assms unfolding pools_upto_def by auto

lemma pools_by_listener_Some:
  assumes "pools_by_listener ps ref = Some p"
  shows "p \<in> set ps \<and> ref \<in> set (pool_Listeners p)"
proof -
  have inner: "foldl (\<lambda>m ref. if ref = [] then m else m(ref \<mapsto> q)) m refs x = Some p \<Longrightarrow>
      m x = Some p \<or> p = q \<and> x \<in> set refs" for m q refs x
  proof (induction refs arbitrary: m)
    case (Cons r refs)
    from Cons.IH [OF Cons.prems [unfolded foldl.simps]] show ?case by (auto split: if_splits)
  qed simp
  have "foldl (\<lambda>m p. foldl (\<lambda>m ref. if ref = [] then m else m(ref \<mapsto> p)) m (pool_Listeners p)) m ps ref = Some p \<Longrightarrow>
      m ref = Some p \<or> p \<in> set ps \<and> ref \<in> set (pool_Listeners p)" for m
  proof (induction ps arbitrary: m)
    case (Cons q ps)
    from Cons.IH [OF Cons.prems [unfolded foldl.simps]] show ?case
    proof
      assume "foldl (\<lambda>m ref. if ref = [] then m else m(ref \<mapsto> q)) m (pool_Listeners q) ref = Some p"
      then show ?thesis by (auto dest: inner)
    qed simp
  qed simp
  with assms show ?thesis unfolding pools_by_listener_def by fastforce
qed

text \<open>
  The loop over the ports keeps what is known of the listeners, \<open>A\<close>, among it that the listeners of \<open>chosen\<close>
  exist, which the creation of a pool needs.
\<close>

lemma triple_pool_create:
  assumes A: "\<And>ks. A ks \<Longrightarrow> ln_key ln \<in> set ks"
  shows "triple (holds lb (\<lambda>ks ps. A ks \<and> pools_upto chosen existing done result used [] ps))
    (call k (api_pool_create (Pools c) (buildPoolCreateRequest l ln name sp opts)))
    (\<lambda>t. holds lb (\<lambda>ks ps. A ks \<and> (\<exists>j. task_Pools t = [j] \<and> pool_for j ln ps \<and>
      pools_upto chosen existing done result used [j] ps))) any_error"
proof (rule triple_write)
  let ?req = "buildPoolCreateRequest l ln name sp opts"
  have req: "pc_ListenerID ?req = ln_ID ln" by (simp add: buildPoolCreateRequest_def)
  fix w t w'
  assume sane: "sane w" and run: "api_pool_create (Pools c) ?req w = (Ok t, w')"
    and J: "A (keys_at lb w) \<and> pools_upto chosen existing done result used [] (pools_at lb w)"
  then have "ln_key ln \<in> set (keys_at lb w)" using A by blast
  then have "pc_ListenerID ?req \<in> ln_ID ` set (lns_of v w (lb_ID lb))" unfolding req by (auto simp: ln_key_def)
  from pool_create [OF sane run this] obtain p where
    new: "sane w'" "lb_keys v w' = lb_keys v w" "lns_of v w' = lns_of v w" "pools_at lb w' = pools_at lb w @ [p]"
      "task_Pools t = [pool_ID p]" "pool_Listeners p = [ln_ID ln]" unfolding req by blast
  have "pool_for (pool_ID p) ln (pools_at lb w') \<and> pools_upto chosen existing done result used [pool_ID p] (pools_at lb w')"
    unfolding new(4) pool_for_def using pools_upto_new [OF conjunct2 [OF J]] new(6) by simp
  with new J show "sane w' \<and> lb_keys v w' = lb_keys v w \<and> A (keys_at lb w') \<and>
      (\<exists>j. task_Pools t = [j] \<and> pool_for j ln (pools_at lb w') \<and> pools_upto chosen existing done result used [j] (pools_at lb w'))"
    by simp
qed

lemma triple_create_pool:
  assumes c: "l_client l = c" and A: "\<And>ks. A ks \<Longrightarrow> ln_key ln \<in> set ks"
  shows "triple (holds lb (\<lambda>ks ps. A ks \<and> pools_upto chosen existing done result used [] ps))
    (createPool l (buildPoolCreateRequest l ln name sp opts))
    (\<lambda>r. holds lb (\<lambda>ks ps. A ks \<and> (\<forall>p. r = Some p \<longrightarrow> p \<in> set ps \<and> pool_Listeners p = [ln_ID ln] \<and>
      pools_upto chosen existing done result used [pool_ID p] ps))) any_error"
proof -
  let ?K = "\<lambda>j ps. pool_for j ln ps \<and> pools_upto chosen existing done result used [j] ps"
  show ?thesis
    unfolding createPool_def c
  proof (rule triple_bindM [OF triple_wrapM [OF triple_pool_create [OF A]]], assumption, rule triple_bindM)
    show "triple (holds lb (\<lambda>ks ps. A ks \<and> (\<exists>j. task_Pools t = [j] \<and> ?K j ps))) (firstM (task_Pools t))
      (\<lambda>j. holds lb (\<lambda>ks ps. A ks \<and> ?K j ps)) any_error" for t
      by (rule triple_firstM) (erule holds_mono, auto)
    show "triple (holds lb (\<lambda>ks ps. A ks \<and> ?K j ps)) (wrapM f (pool_get c j))
      (\<lambda>r. holds lb (\<lambda>ks ps. A ks \<and> (\<forall>p. r = Some p \<longrightarrow> p \<in> set ps \<and> pool_Listeners p = [ln_ID ln] \<and>
        pools_upto chosen existing done result used [pool_ID p] ps))) any_error" for j f
      by (rule triple_wrapM, rule triple_weaken [OF triple_pool_get [where N = "\<lambda>p. pool_Listeners p = [ln_ID ln]"]])
        (auto simp: pool_for_def elim!: holds_mono)
  qed
qed

lemma triple_ensure_pool:
  assumes c: "l_client l = c" and d: "drivers c"
    and A: "\<And>ks. A ks \<Longrightarrow> \<exists>ln. chosen (servicePortKey sp) = Some ln \<and> ln_key ln \<in> set ks"
    and ones: "\<forall>p \<in> set existing. length (pool_Listeners p) \<le> 1"
    and fresh: "\<forall>sp' \<in> set done. servicePortKey sp' \<noteq> servicePortKey sp"
  shows "triple (holds lb (\<lambda>ks ps. A ks \<and> pools_upto chosen existing done result used [] ps))
    (ensure_pool l lb chosen opts (pools_by_listener existing) sp (result, used))
    (\<lambda>(result', used'). holds lb (\<lambda>ks ps. A ks \<and> pools_upto chosen existing (done @ [sp]) result' used' [] ps)) any_error"
proof (cases "chosen (servicePortKey sp)")
  case None
  show ?thesis unfolding ensure_pool_def Let_def prod.case None option.case by (rule triple_failM) simp
next
  case (Some ln)
  from d have pol: "polling (ExponentialBackoff c)" by (simp add: drivers_def)
  let ?J = "\<lambda>ks ps. A ks \<and> pools_upto chosen existing done result used [] ps"
  let ?M = "\<lambda>p ps. p \<in> set ps \<and> pool_Listeners p = [ln_ID ln] \<and> pools_upto chosen existing done result used [pool_ID p] ps"
  let ?R = "\<lambda>r. holds lb (\<lambda>ks ps. A ks \<and> (\<forall>p. r = Some p \<longrightarrow> ?M p ps))"
  have A': "ln_key ln \<in> set ks" if "A ks" for ks using A [OF that] Some by simp
  have wait: "triple (?R r) (wrapM f (wait_active c (lb_ID lb))) (\<lambda>_. ?R r) any_error" for f r
    by (rule calm_step [OF calm_wrapM [OF calm_wait(1) [OF pol]]])
  show ?thesis
    unfolding ensure_pool_def Let_def prod.case Some option.case
  proof (rule triple_bindM [where R = ?R], goal_cases)
    case 1
    show ?case
    proof (cases "pools_by_listener existing (ln_ID ln)")
      case None
      show ?thesis
        unfolding None option.case c
        by (rule triple_bindM [OF triple_wrapM [OF triple_create_pool [OF c A']]], assumption,
            rule triple_bindM [OF wait triple_retM])
    next
      case found: (Some p)
      from pools_by_listener_Some [OF this] ones have "p \<in> set existing" "pool_Listeners p = [ln_ID ln]"
        by (auto simp: le_Suc_eq length_Suc_conv)
      then show ?thesis
        unfolding found option.case
        by (intro triple_retM) (erule holds_mono, auto dest: pools_upto_found)
    qed
  next
    case (2 r)
    have step: "pools_upto chosen existing (done @ [sp]) (result(servicePortKey sp \<mapsto> p)) (pool_ID p # used) [] ps" if "?M p ps" for p ps
      by (rule pools_upto_step) (use that Some fresh in simp_all)
    show ?case
      by (rule triple_bindM [OF triple_derefM [where Q = "\<lambda>p. holds lb (\<lambda>ks ps. A ks \<and> ?M p ps)"]])
        (auto elim!: holds_mono intro!: triple_retM intro: step)
  qed
qed

text \<open>The pool of a port, and after the phase: a pool for every port, the others obsolete.\<close>

definition port_pool :: "(string \<rightharpoonup> listener) \<Rightarrow> (string \<rightharpoonup> pool) \<Rightarrow> pool list \<Rightarrow> service_port \<Rightarrow> bool" where
  "port_pool chosen pools ps sp \<longleftrightarrow> (\<exists>p ln. pools (servicePortKey sp) = Some p \<and> p \<in> set ps \<and>
     chosen (servicePortKey sp) = Some ln \<and> pool_Listeners p = [ln_ID ln])"

lemma pools_upto_done:
  assumes "pools_upto chosen existing ports result used [] ps"
  shows "(\<forall>sp \<in> set ports. port_pool chosen result ps sp) \<and>
    pool_ID ` set ps = pool_ID ` set (filter (\<lambda>p. pool_ID p \<notin> set used) existing) \<union> chosen_ids ports result pool_ID \<and>
    pool_ID ` set (filter (\<lambda>p. pool_ID p \<notin> set used) existing) \<inter> chosen_ids ports result pool_ID = {} \<and>
    distinct (map pool_ID (filter (\<lambda>p. pool_ID p \<notin> set used) existing))"
proof -
  note parts = assms [unfolded pools_upto_def]
  from parts have dist: "distinct (map pool_ID existing)" by (elim conjE)
  from parts have "set existing \<subseteq> set ps" by (elim conjE)
  then have ids: "pool_ID ` set existing \<subseteq> pool_ID ` set ps" by blast
  from parts have all: "pool_ID ` set ps \<subseteq> pool_ID ` set existing \<union> set used \<union> set []" by (elim conjE)
  from parts have used: "set used = chosen_ids ports result pool_ID" by (elim conjE)
  have at: "\<forall>sp \<in> set ports. port_pool chosen result ps sp" using assms unfolding pools_upto_def port_pool_def by fast
  have old: "chosen_ids ports result pool_ID \<subseteq> pool_ID ` set ps"
    using at by (force simp: chosen_ids_def port_pool_def)
  have rest: "pool_ID ` set (filter (\<lambda>p. pool_ID p \<notin> set used) existing) = pool_ID ` set existing - chosen_ids ports result pool_ID"
    unfolding used by auto
  show ?thesis
    unfolding rest using at ids old all dist by (intro conjI distinct_map_filter) (auto simp: used)
qed

lemma triple_pool_list:
  "triple (holds lb (\<lambda>ks ps. A ks)) (listPoolsByLoadBalancerID l (lb_ID lb) True)
    (\<lambda>pools. holds lb (\<lambda>ks ps. A ks \<and> ps = pools \<and>
      ((\<forall>p \<in> set pools. length (pool_Listeners p) \<le> 1) \<and> distinct (map pool_ID pools)))) any_error"
  if "l_client l = c"
  unfolding listPoolsByLoadBalancerID_def Pools.pool_list_def that
  by (rule triple_any_error [OF triple_read [OF quiet_pools(1)]]) (use one_listener pool_list unique in blast)

lemma triple_pools_phase:
  assumes c: "l_client l = c" and d: "drivers c" and distinct: "distinct (map servicePortKey (svc_Ports svc))"
    and A: "\<And>ks sp. A ks \<Longrightarrow> sp \<in> set (svc_Ports svc) \<Longrightarrow> \<exists>ln. chosen (servicePortKey sp) = Some ln \<and> ln_key ln \<in> set ks"
  shows "triple (holds lb (\<lambda>ks ps. A ks)) (ensureLoadBalancerPools l lb svc chosen opts)
    (\<lambda>(pools, obsolete). holds lb (\<lambda>ks ps. A ks \<and> (\<forall>sp \<in> set (svc_Ports svc). port_pool chosen pools ps sp) \<and>
      pool_ID ` set ps = pool_ID ` set obsolete \<union> chosen_ids (svc_Ports svc) pools pool_ID \<and>
      pool_ID ` set obsolete \<inter> chosen_ids (svc_Ports svc) pools pool_ID = {} \<and> distinct (map pool_ID obsolete))) any_error"
proof -
  let ?ports = "svc_Ports svc"
  let ?I = "\<lambda>existing done (result, used). holds lb (\<lambda>ks ps. A ks \<and> pools_upto chosen existing done result used [] ps)"
  let ?ones = "\<lambda>existing. (\<forall>p \<in> set existing. length (pool_Listeners p) \<le> 1) \<and> distinct (map pool_ID existing)"
  have loop: "triple (?I existing [] (Map.empty, [])) (foldM (ensure_pool l lb chosen opts (pools_by_listener existing)) ?ports (Map.empty, []))
      (?I existing ?ports) any_error" if ones: "?ones existing" for existing
  proof (rule triple_foldM)
    fix "done" sp rest a
    assume ports: "?ports = done @ sp # rest"
    obtain result :: "string \<rightharpoonup> pool" and used :: "string list" where a: "a = (result, used)" by fastforce
    have "\<forall>sp' \<in> set done. servicePortKey sp' \<noteq> servicePortKey sp"
      using distinct unfolding ports by (auto simp: image_iff)
    moreover have "sp \<in> set ?ports" unfolding ports by simp
    ultimately show "triple (?I existing done a) (ensure_pool l lb chosen opts (pools_by_listener existing) sp a)
        (?I existing (done @ [sp])) any_error"
      unfolding a prod.case by (intro triple_ensure_pool c d A conjunct1 [OF ones])
  qed
  show ?thesis
    unfolding ensureLoadBalancerPools_def
  proof (rule triple_bindM [OF triple_wrapM [OF triple_pool_list [OF c]]])
    fix existing
    show "triple (holds lb (\<lambda>ks ps. A ks \<and> ps = existing \<and> ?ones existing))
      (bindM (foldM (ensure_pool l lb chosen opts (pools_by_listener existing)) ?ports (Map.empty, [])) (\<lambda>(result, used).
         retM (result, filter (\<lambda>pool. pool_ID pool \<notin> set used) existing)))
      (\<lambda>(pools, obsolete). holds lb (\<lambda>ks ps. A ks \<and> (\<forall>sp \<in> set ?ports. port_pool chosen pools ps sp) \<and>
        pool_ID ` set ps = pool_ID ` set obsolete \<union> chosen_ids ?ports pools pool_ID \<and>
        pool_ID ` set obsolete \<inter> chosen_ids ?ports pools pool_ID = {} \<and> distinct (map pool_ID obsolete))) any_error"
    proof (rule triple_fact [where A = "?ones existing"])
      assume ones: "?ones existing"
      show "triple (holds lb (\<lambda>ks ps. A ks \<and> ps = existing \<and> ?ones existing))
        (bindM (foldM (ensure_pool l lb chosen opts (pools_by_listener existing)) ?ports (Map.empty, [])) (\<lambda>(result, used).
           retM (result, filter (\<lambda>pool. pool_ID pool \<notin> set used) existing)))
        (\<lambda>(pools, obsolete). holds lb (\<lambda>ks ps. A ks \<and> (\<forall>sp \<in> set ?ports. port_pool chosen pools ps sp) \<and>
          pool_ID ` set ps = pool_ID ` set obsolete \<union> chosen_ids ?ports pools pool_ID \<and>
          pool_ID ` set obsolete \<inter> chosen_ids ?ports pools pool_ID = {} \<and> distinct (map pool_ID obsolete))) any_error"
      proof (rule triple_bindM [OF triple_pre [OF loop [OF ones]]])
        show "?I existing [] (Map.empty, []) s" if "holds lb (\<lambda>ks ps. A ks \<and> ps = existing \<and> ?ones existing) s" for s
          using that unfolding prod.case by (rule holds_mono) (simp add: pools_upto_def chosen_ids_def)
      qed (clarify, rule triple_retM, simp only: prod.case, erule holds_mono, erule conjE, drule pools_upto_done, simp)
    qed (simp add: holds_def)
  qed
qed

end

end
