(* ===== verification/StoreMembers.thy ===== *)
theory StoreMembers
  imports StorePools
begin

text \<open>
  The members phase on the store: an update concerns the pool of its port alone, and the wait behind it hands
  out a pool as it is in the store.
\<close>

section \<open>The members phase\<close>

context store
begin

text \<open>
  While the members of a port's pool \<open>p\<close> are updated, the other ports' pools stay and \<open>p\<close> keeps its ID and
  listener; no pool is added.
\<close>

definition pools_but ::
    "(string \<rightharpoonup> listener) \<Rightarrow> service_port list \<Rightarrow> (string \<rightharpoonup> pool) \<Rightarrow> string set \<Rightarrow> service_port \<Rightarrow> pool \<Rightarrow> pool list \<Rightarrow> bool" where
  "pools_but chosen ports pools ids sp p ps \<longleftrightarrow>
     (\<forall>sp' \<in> set ports. servicePortKey sp' \<noteq> servicePortKey sp \<longrightarrow> port_pool chosen pools ps sp') \<and>
     pool_key p \<in> pool_key ` set ps \<and> pool_ID ` set ps = ids"

lemma pool_key_eq: "pool_key p = pool_key q \<longleftrightarrow> pool_ID p = pool_ID q \<and> pool_Listeners p = pool_Listeners q"
  by (simp add: pool_key_def)

lemma pools_but_update:
  assumes run: "sane w" "api_pool_update (Pools c) (pool_ID p) req w = (r, w')"
    and J: "pools_but chosen ports pools ids sp p (pools_at lb w)"
    and p: "pool_Listeners p = [ln_ID ln]" "chosen (servicePortKey sp) = Some ln" "sp \<in> set ports"
    and apart: "inj_on (\<lambda>k. ln_ID (the (chosen k))) (servicePortKey ` set ports)"
  shows "sane w' \<and> lb_keys v w' = lb_keys v w \<and> lns_of v w' = lns_of v w \<and> pools_but chosen ports pools ids sp p (pools_at lb w')"
proof -
  let ?ps = "pools_at lb w" and ?ps' = "pools_at lb w'"
  from pool_update [OF run] have keys: "map pool_key ?ps' = map pool_key ?ps"
    and others: "\<And>q. q \<in> set ?ps \<Longrightarrow> pool_ID q \<noteq> pool_ID p \<Longrightarrow> q \<in> set ?ps'" by blast+
  from keys have keyset: "pool_key ` set ?ps' = pool_key ` set ?ps" by (metis set_map)
  then have "fst ` pool_key ` set ?ps' = fst ` pool_key ` set ?ps" by simp
  then have ids: "pool_ID ` set ?ps' = pool_ID ` set ?ps" by (simp add: image_image pool_key_def)
  from J obtain q where q: "q \<in> set ?ps" "pool_key q = pool_key p" unfolding pools_but_def by (metis imageE)
  have "port_pool chosen pools ?ps' sp'" if sp': "sp' \<in> set ports" "servicePortKey sp' \<noteq> servicePortKey sp" for sp'
  proof -
    from J sp' obtain p' ln' where p': "pools (servicePortKey sp') = Some p'" "p' \<in> set ?ps"
      "chosen (servicePortKey sp') = Some ln'" "pool_Listeners p' = [ln_ID ln']"
      unfolding pools_but_def port_pool_def by blast
    have "ln_ID ln' \<noteq> ln_ID ln"
      using inj_onD [OF apart, of "servicePortKey sp'" "servicePortKey sp"] sp' p(2,3) p'(3) by auto
    then have "pool_ID p' \<noteq> pool_ID p"
      using unique_pools [OF run(1) p'(2) q(1)] q(2) p(1) p'(4) by (auto simp: pool_key_eq)
    with others p' show ?thesis unfolding port_pool_def by blast
  qed
  moreover have "pool_key p \<in> pool_key ` set ?ps'" using J unfolding keyset pools_but_def by simp
  moreover have "pool_ID ` set ?ps' = ids" using J unfolding ids pools_but_def by simp
  ultimately have "pools_but chosen ports pools ids sp p ?ps'" unfolding pools_but_def by blast
  with pool_update [OF run] show ?thesis by blast
qed

lemma triple_update_members:
  assumes c: "l_client l = c" and d: "drivers c"
    and p: "pool_Listeners p = [ln_ID ln]" "chosen (servicePortKey sp) = Some ln" "sp \<in> set ports"
    and apart: "inj_on (\<lambda>k. ln_ID (the (chosen k))) (servicePortKey ` set ports)"
  shows "triple (holds lb (\<lambda>ks ps. A ks \<and> pools_but chosen ports pools ids sp p ps))
    (updatePoolMembersWithRetry l (lb_ID lb) (pool_ID p) req)
    (\<lambda>_. holds lb (\<lambda>ks ps. A ks \<and> pools_but chosen ports pools ids sp p ps)) any_error"
proof -
  let ?J = "\<lambda>ks ps. A ks \<and> pools_but chosen ports pools ids sp p ps"
  have "triple (holds lb ?J) (call k (api_pool_update (Pools c) (pool_ID p) req)) (\<lambda>_. holds lb ?J) (\<lambda>_. holds lb ?J)" for k
  proof (rule triple_rewrite)
    fix w r w'
    assume run: "sane w" "api_pool_update (Pools c) (pool_ID p) req w = (r, w')" and J: "?J (keys_at lb w) (pools_at lb w)"
    from pools_but_update [OF run conjunct2 [OF J] p apart] conjunct1 [OF J]
    show "sane w' \<and> lb_keys v w' = lb_keys v w \<and> ?J (keys_at lb w') (pools_at lb w') \<and>
        (\<forall>x. r = Ok x \<longrightarrow> ?J (keys_at lb w') (pools_at lb w'))" by simp
  qed
  then show ?thesis unfolding updatePoolMembersWithRetry_def c by (rule retry_triple [OF d]) simp
qed

text \<open>The wait for the members hands out a pool as it is in the store, with the members that were asked for.\<close>

lemma triple_members_applied:
  assumes c: "l_client l = c" and d: "drivers c" and J: "\<And>ks ps. J ks ps \<Longrightarrow> pool_key p \<in> pool_key ` set ps"
  shows "triple (holds lb J) (waitPoolMembersApplied l (lb_ID lb) (pool_ID p) desired)
    (\<lambda>(r, err) s. err = None \<longrightarrow> (\<exists>q. r = Some q \<and> \<not> membersChanged (pool_Members q) desired \<and>
      holds lb (\<lambda>ks ps. J ks ps \<and> q \<in> set ps \<and> pool_key q = pool_key p) s)) any_error"
proof -
  from d have pol: "polling (ExponentialBackoff c)" "polling (ExponentialBackoffWithContext c)" by (simp_all add: drivers_def)
  let ?I = "\<lambda>t. holds lb J (fst t)"
  let ?at = "\<lambda>q. holds lb (\<lambda>ks ps. J ks ps \<and> q \<in> set ps \<and> pool_key q = pool_key p)"
  let ?Q = "\<lambda>t. \<exists>q. v_lastPool (snd t) = Some q \<and> \<not> membersChanged (pool_Members q) desired \<and> ?at q (fst t)"
  let ?R = "\<lambda>r ks ps. J ks ps \<and> (\<forall>q. r = Some q \<longrightarrow> q \<in> set ps \<and> pool_ID q = pool_ID p \<and> pool_key q = pool_key p)"
  have get: "triple (holds lb J) (pool_get c (pool_ID p)) (\<lambda>r. holds lb (?R r)) (\<lambda>_. holds lb J)"
    by (rule triple_pool_get) (use J in \<open>force simp: pool_key_eq\<close>)
  have no: "triple ?I (set_lastErr e) (\<lambda>b t. if b then ?Q t else ?I t) any_error" for e
    by (rule triple_post [OF holds_set_lastErr]) simp
  have "triple ?I (applied_cond c (lb_ID lb) (pool_ID p) desired) (\<lambda>b t. if b then ?Q t else ?I t) any_error"
    unfolding applied_cond_def
  proof (rule triple_tryM [OF holds_lift [OF calm_wait(1) [OF pol(1)]] triple_tryM [OF triple_lift_st [OF get]]])
    fix r
    show "triple (\<lambda>t. holds lb (?R r) (fst t)) (case r of
        None \<Rightarrow> set_lastErr (Errorf (''pool '' @ pool_ID p @ '' not found after update''))
      | Some pool \<Rightarrow> bindM (assign (\<lambda>v. v\<lparr>v_lastPool := Some pool\<rparr>)) (\<lambda>_.
          if membersChanged (pool_Members pool) desired then retM False else retM True))
      (\<lambda>b t. if b then ?Q t else ?I t) any_error"
    proof (cases r)
      case None
      show ?thesis unfolding None option.case by (rule triple_pre [OF no]) (erule holds_mono, simp)
    next
      case (Some q)
      have read: "triple (\<lambda>t. holds lb (?R r) (fst t)) (assign (\<lambda>v. v\<lparr>v_lastPool := Some q\<rparr>))
          (\<lambda>_ t. ?at q (fst t) \<and> v_lastPool (snd t) = Some q) any_error"
        by (rule tripleI) (auto simp: assign_def Some elim!: holds_mono)
      have at: "holds lb J s" if "?at q s" for s using that by (rule holds_mono) simp
      show ?thesis
        unfolding Some option.case
        by (rule triple_bindM [OF read [unfolded Some]]) (auto intro!: triple_if triple_retM dest: at)
    qed
  qed (rule no)+
  from polling.drive_triple [OF pol(2) this]
  have "triple ?I (ExponentialBackoffWithContext c retry_backoff (applied_cond c (lb_ID lb) (pool_ID p) desired))
      (\<lambda>_ t. ?Q t) (\<lambda>_ _. True)" by (rule triple_any_error)
  then have "triple (holds lb J) (run_closure (ExponentialBackoffWithContext c retry_backoff
      (applied_cond c (lb_ID lb) (pool_ID p) desired))) (\<lambda>(err, w) s. err = None \<longrightarrow> ?Q (s, w)) any_error"
    by (intro triple_run_closure) (erule triple_weaken, simp_all)
  then show ?thesis
    unfolding waitPoolMembersApplied_def c
    by (rule triple_bindM) (auto intro!: triple_retM split: option.splits)
qed

text \<open>After the ports \<open>done\<close>: their pools have the members; all ports have the pools they had, by ID.\<close>

definition members_upto ::
    "service_options \<Rightarrow> string list \<Rightarrow> (string \<rightharpoonup> pool) \<Rightarrow> service_port list \<Rightarrow> service_port list \<Rightarrow> (string \<rightharpoonup> pool) \<Rightarrow> bool" where
  "members_upto opts ips first ports done pools \<longleftrightarrow>
     (\<forall>sp \<in> set done. \<not> membersChanged (pool_Members (the (pools (servicePortKey sp)))) (desired_members opts sp ips)) \<and>
     (\<forall>sp \<in> set ports. map_option pool_ID (pools (servicePortKey sp)) = map_option pool_ID (first (servicePortKey sp)))"

lemma triple_reconcile_port:
  assumes c: "l_client l = c" and d: "drivers c"
    and sp: "sp \<in> set ports" "\<forall>sp' \<in> set done. servicePortKey sp' \<noteq> servicePortKey sp"
    and apart: "inj_on (\<lambda>k. ln_ID (the (chosen k))) (servicePortKey ` set ports)"
    and upto: "members_upto opts ips first ports done pools"
  shows "triple (holds lb (\<lambda>ks ps. A ks \<and> (\<forall>sp \<in> set ports. port_pool chosen pools ps sp) \<and> pool_ID ` set ps = ids))
    (reconcile_port l lb opts ips sp pools)
    (\<lambda>pools' s. members_upto opts ips first ports (done @ [sp]) pools' \<and>
      holds lb (\<lambda>ks ps. A ks \<and> (\<forall>sp \<in> set ports. port_pool chosen pools' ps sp) \<and> pool_ID ` set ps = ids) s) any_error"
proof (cases "pools (servicePortKey sp)")
  case None
  show ?thesis unfolding reconcile_port_def Let_def None option.case by (rule triple_failM) simp
next
  case (Some p)
  let ?P = "\<lambda>pools ks ps. A ks \<and> (\<forall>sp \<in> set ports. port_pool chosen pools ps sp) \<and> pool_ID ` set ps = ids"
  let ?J = "\<lambda>ks ps. A ks \<and> pools_but chosen ports pools ids sp p ps"
  let ?want = "desired_members opts sp ips"
  show ?thesis
  proof (rule triple_fact [where A = "\<exists>ln. chosen (servicePortKey sp) = Some ln \<and> pool_Listeners p = [ln_ID ln]"])
    assume "\<exists>ln. chosen (servicePortKey sp) = Some ln \<and> pool_Listeners p = [ln_ID ln]"
    then obtain ln where ln: "chosen (servicePortKey sp) = Some ln" "pool_Listeners p = [ln_ID ln]" by blast
    have changed: "triple (holds lb (?P pools)) (wrapM f (updatePoolMembersWithRetry l (lb_ID lb) (pool_ID p) req)) (\<lambda>_. holds lb ?J) any_error" for f req
    proof (rule triple_wrapM, rule triple_pre [OF triple_update_members [OF c d ln(2,1) sp(1) apart]], erule holds_mono)
      fix ks ps
      assume P: "?P pools ks ps"
      with sp(1) Some have "p \<in> set ps" by (auto simp: port_pool_def)
      with P show "?J ks ps" by (simp add: pools_but_def)
    qed
    have step: "members_upto opts ips first ports (done @ [sp]) (pools(servicePortKey sp \<mapsto> q)) \<and> ?P (pools(servicePortKey sp \<mapsto> q)) ks ps"
      if "\<not> membersChanged (pool_Members q) ?want" "?J ks ps" "q \<in> set ps" "pool_key q = pool_key p" for q ks ps
      using that upto sp Some ln
      by (auto simp: members_upto_def pools_but_def port_pool_def pool_key_eq)
    have stay: "members_upto opts ips first ports (done @ [sp]) pools" if "\<not> membersChanged (pool_Members p) ?want"
      using that upto Some by (auto simp: members_upto_def)
    have wait: "triple (holds lb ?J) (waitPoolMembersApplied l (lb_ID lb) (pool_ID p) ?want)
      (\<lambda>(r, err) s. err = None \<longrightarrow> (\<exists>q. r = Some q \<and> \<not> membersChanged (pool_Members q) ?want \<and>
        holds lb (\<lambda>ks ps. ?J ks ps \<and> q \<in> set ps \<and> pool_key q = pool_key p) s)) any_error"
      by (rule triple_members_applied [OF c d]) (simp add: pools_but_def)
    show ?thesis
      unfolding reconcile_port_def Let_def Some option.case
    proof (intro triple_if triple_bindM [OF changed triple_bindM [OF wait]])
      show "triple (holds lb (?P pools)) (failM e) Q any_error" for e Q by (rule triple_failM) simp
    next
      fix rr
      show "triple (case rr of (r, err) \<Rightarrow> \<lambda>s. err = None \<longrightarrow> (\<exists>q. r = Some q \<and> \<not> membersChanged (pool_Members q) ?want \<and>
          holds lb (\<lambda>ks ps. ?J ks ps \<and> q \<in> set ps \<and> pool_key q = pool_key p) s))
        (case rr of (refreshed, err) \<Rightarrow> case err of
            Some e \<Rightarrow> failM (Wrapf (''pool '' @ pool_ID p @ '' members were not observed after update: '') e)
          | None \<Rightarrow> retM (pools(servicePortKey sp := refreshed)))
        (\<lambda>pools' s. members_upto opts ips first ports (done @ [sp]) pools' \<and> holds lb (?P pools') s) any_error"
      proof (cases rr)
        case (Pair r err)
        show ?thesis
        proof (cases err)
          case None
          show ?thesis
            unfolding Pair None prod.case option.case
          proof (rule triple_retM)
            fix s
            assume "None = None \<longrightarrow> (\<exists>q. r = Some q \<and> \<not> membersChanged (pool_Members q) ?want \<and>
              holds lb (\<lambda>ks ps. ?J ks ps \<and> q \<in> set ps \<and> pool_key q = pool_key p) s)"
            then obtain q where q: "r = Some q" "\<not> membersChanged (pool_Members q) ?want"
              "holds lb (\<lambda>ks ps. ?J ks ps \<and> q \<in> set ps \<and> pool_key q = pool_key p) s" by auto
            from q(3) have "holds lb (?P (pools(servicePortKey sp \<mapsto> q))) s"
              by (rule holds_mono) (use step [OF q(2)] in blast)
            moreover from q(3) have "members_upto opts ips first ports (done @ [sp]) (pools(servicePortKey sp \<mapsto> q))"
              unfolding holds_def using step [OF q(2)] by blast
            ultimately show "members_upto opts ips first ports (done @ [sp]) (pools(servicePortKey sp := r)) \<and>
              holds lb (?P (pools(servicePortKey sp := r))) s" by (simp add: q(1))
          qed
        next
          case (Some e)
          show ?thesis unfolding Pair Some prod.case option.case by (rule triple_failM) simp
        qed
      qed
    next
      show "triple (holds lb (?P pools)) (retM pools)
        (\<lambda>pools' s. members_upto opts ips first ports (done @ [sp]) pools' \<and> holds lb (?P pools') s) any_error"
        if "\<not> membersChanged (pool_Members p) ?want"
        by (rule triple_retM) (simp add: stay that)
    qed
  qed (use Some sp(1) in \<open>auto simp: holds_def port_pool_def\<close>)
qed

lemma triple_members_phase:
  assumes c: "l_client l = c" and d: "drivers c" and distinct: "distinct (map servicePortKey (svc_Ports svc))"
    and apart: "inj_on (\<lambda>k. ln_ID (the (chosen k))) (servicePortKey ` set (svc_Ports svc))"
  shows "triple (holds lb (\<lambda>ks ps. A ks \<and> (\<forall>sp \<in> set (svc_Ports svc). port_pool chosen pools ps sp) \<and> pool_ID ` set ps = ids))
    (reconcilePoolMembers l lb svc pools opts nodes)
    (\<lambda>pools' s. \<exists>ips. node_addresses nodes = Ok ips \<and> members_upto opts ips pools (svc_Ports svc) (svc_Ports svc) pools' \<and>
      holds lb (\<lambda>ks ps. A ks \<and> (\<forall>sp \<in> set (svc_Ports svc). port_pool chosen pools' ps sp) \<and> pool_ID ` set ps = ids) s) any_error"
proof (cases "node_addresses nodes")
  case (Ok ips)
  let ?ports = "svc_Ports svc"
  let ?P = "\<lambda>pools ks ps. A ks \<and> (\<forall>sp \<in> set ?ports. port_pool chosen pools ps sp) \<and> pool_ID ` set ps = ids"
  let ?I = "\<lambda>done pools' s. members_upto opts ips pools ?ports done pools' \<and> holds lb (?P pools') s"
  have "triple (?I [] pools) (foldM (reconcile_port l lb opts ips) ?ports pools) (?I ?ports) any_error"
  proof (rule triple_foldM)
    fix "done" sp rest a
    assume ports: "?ports = done @ sp # rest"
    have fresh: "\<forall>sp' \<in> set done. servicePortKey sp' \<noteq> servicePortKey sp" using distinct unfolding ports by (auto simp: image_iff)
    have "sp \<in> set ?ports" unfolding ports by simp
    then show "triple (?I done a) (reconcile_port l lb opts ips sp a) (?I (done @ [sp])) any_error"
      by (intro triple_pure triple_reconcile_port c d fresh apart)
  qed
  then have "triple (holds lb (?P pools)) (foldM (reconcile_port l lb opts ips) ?ports pools) (?I ?ports) any_error"
    by (rule triple_pre) (simp add: members_upto_def)
  moreover have "bindM (liftM (Ok ips)) (\<lambda>ips. foldM (reconcile_port l lb opts ips) ?ports pools) =
      foldM (reconcile_port l lb opts ips) ?ports pools" by (intro ext) (simp add: bindM_def liftM_def)
  ultimately show ?thesis
    unfolding reconcilePoolMembers_def Ok by (auto elim!: triple_post)
qed (auto simp: reconcilePoolMembers_def bindM_def liftM_def intro!: tripleI)

end

end
