(* ===== verification/StoreCleanup.thy ===== *)
theory StoreCleanup
  imports StoreMembers
begin

text \<open>
  The cleanup on the store: the obsolete pools and listeners go, the chosen ones stay, and nothing else is left.
\<close>

section \<open>The cleanup\<close>

context store
begin

lemma triple_delete_pool:
  assumes c: "l_client l = c" and d: "drivers c"
    and less: "\<And>ks ps. J ks ps \<Longrightarrow> J ks (filter (\<lambda>p. pool_ID p \<noteq> j) ps)"
  shows "triple (holds lb J) (deletePoolWithRetry l (lb_ID lb) j)
    (\<lambda>_. holds lb (\<lambda>ks ps. J ks ps \<and> j \<notin> pool_ID ` set ps)) any_error"
proof -
  let ?K = "\<lambda>ks ps. J ks ps \<and> j \<notin> pool_ID ` set ps"
  have del: "triple (holds lb J) (call k (api_pool_delete (Pools c) j)) (\<lambda>_. holds lb J) (\<lambda>_. holds lb J)" for k
  proof (rule triple_rewrite)
    fix w r w'
    assume run: "sane w" "api_pool_delete (Pools c) j w = (r, w')" and J: "J (keys_at lb w) (pools_at lb w)"
    from pool_delete [OF run, of "lb_ID lb"] J less [OF J]
    show "sane w' \<and> lb_keys v w' = lb_keys v w \<and> J (keys_at lb w') (pools_at lb w') \<and>
        (\<forall>x. r = Ok x \<longrightarrow> J (keys_at lb w') (pools_at lb w'))" by auto
  qed
  have ex: "triple (holds lb J) (call k (api_pool_exists (Pools c) j)) (\<lambda>b. holds lb (\<lambda>ks ps. J ks ps \<and> (\<not> b \<longrightarrow> j \<notin> pool_ID ` set ps)))
      (\<lambda>_. holds lb J)" for k
  proof (rule triple_read [OF quiet_pools(3)])
    show "J (keys_at lb w) (pools_at lb w) \<and> (\<not> b \<longrightarrow> j \<notin> pool_ID ` set (pools_at lb w))"
      if "sane w" "api_pool_exists (Pools c) j w = (Ok b, w')" "J (keys_at lb w) (pools_at lb w)" for w b w'
      using that pool_exists [of w j w'] by (cases b) simp_all
  qed
  have "triple (holds lb J) (deletePool l j) (\<lambda>_. holds lb ?K) (\<lambda>_. holds lb J)"
    unfolding deletePool_def c
    by (rule triple_bindM [OF triple_wrapM [OF del]], rule triple_bindM [OF triple_wrapM [OF ex]])
      (auto intro!: triple_if triple_retM triple_failM elim!: holds_mono)
  then show ?thesis unfolding deletePoolWithRetry_def c by (rule retry_triple [OF d]) simp
qed

lemma keys_filter: "map ln_key (filter (\<lambda>ln. ln_ID ln \<noteq> j) lns) = filter (\<lambda>k. fst k \<noteq> j) (map ln_key lns)"
  by (simp add: filter_map comp_def ln_key_def)

lemma keys_ids: "j \<notin> ln_ID ` set lns \<longleftrightarrow> j \<notin> fst ` set (map ln_key lns)"
  by (simp add: image_image ln_key_def)

lemma triple_delete_listener:
  assumes c: "l_client l = c" and d: "drivers c"
    and less: "\<And>ks ps. J ks ps \<Longrightarrow> J (filter (\<lambda>k. fst k \<noteq> j) ks) ps"
  shows "triple (holds lb J) (deleteListenerWithRetry l (lb_ID lb) j)
    (\<lambda>_. holds lb (\<lambda>ks ps. J ks ps \<and> j \<notin> fst ` set ks)) any_error"
proof -
  let ?K = "\<lambda>ks ps. J ks ps \<and> j \<notin> fst ` set ks"
  let ?T = "\<lambda>t ks ps. J ks ps \<and> (case task_Listeners t of [] \<Rightarrow> j \<notin> fst ` set ks | k # _ \<Rightarrow> k = j)"
  have del: "triple (holds lb J) (call k (api_listener_delete (Loadbalancers c) j)) (\<lambda>t. holds lb (?T t)) (\<lambda>_. holds lb J)" for k
  proof (rule triple_rewrite)
    fix w r w'
    assume run: "sane w" "api_listener_delete (Loadbalancers c) j w = (r, w')" and J: "J (keys_at lb w) (pools_at lb w)"
    from listener_delete [OF run, of "lb_ID lb"]
    have new: "sane w'" "lb_keys v w' = lb_keys v w" "pools_of v w' = pools_of v w"
      and lns: "lns_of v w' (lb_ID lb) \<in> {lns_of v w (lb_ID lb), filter (\<lambda>ln. ln_ID ln \<noteq> j) (lns_of v w (lb_ID lb))}"
      and task: "\<And>t. r = Ok t \<Longrightarrow> case task_Listeners t of [] \<Rightarrow> j \<notin> fst ` set (keys_at lb w') | k # _ \<Rightarrow> k = j"
      unfolding keys_ids by blast+
    from lns J less [OF J] have "J (keys_at lb w') (pools_at lb w')" unfolding new(3) by (auto simp: keys_filter)
    with new(1,2) task show "sane w' \<and> lb_keys v w' = lb_keys v w \<and> J (keys_at lb w') (pools_at lb w') \<and>
        (\<forall>t. r = Ok t \<longrightarrow> ?T t (keys_at lb w') (pools_at lb w'))" by blast
  qed
  have ex: "triple (holds lb J) (call k (api_listener_exists (Loadbalancers c) j))
      (\<lambda>b. holds lb (\<lambda>ks ps. J ks ps \<and> (\<not> b \<longrightarrow> j \<notin> fst ` set ks))) (\<lambda>_. holds lb J)" for k
  proof (rule triple_read [OF quiet_lbs(5)])
    show "J (keys_at lb w) (pools_at lb w) \<and> (\<not> b \<longrightarrow> j \<notin> fst ` set (keys_at lb w))"
      if "sane w" "api_listener_exists (Loadbalancers c) j w = (Ok b, w')" "J (keys_at lb w) (pools_at lb w)" for w b w'
      using that listener_exists [of w j w' "lb_ID lb"] unfolding keys_ids by (cases b) simp_all
  qed
  have "triple (holds lb J) (deleteListener l j) (\<lambda>_. holds lb ?K) (\<lambda>_. holds lb J)"
    unfolding deleteListener_def c
  proof (rule triple_bindM [OF triple_wrapM [OF del]])
    fix t
    show "triple (holds lb (?T t)) (case task_Listeners t of
         [] \<Rightarrow> retM ()
       | remaining # _ \<Rightarrow>
           bindM (wrapM (Wrapf (''deleteListener: failed to check existence of listener '' @ quoted remaining @ '': ''))
             (call (\<lambda>r. LB (Listener_Exists remaining r)) (api_listener_exists (Loadbalancers c) remaining)))
           (\<lambda>isExist. if \<not> isExist then retM ()
             else failM (Errorf (''deleteListener: listener '' @ quoted remaining @ '' still exists after deletion attempt''))))
      (\<lambda>_. holds lb ?K) (\<lambda>_. holds lb J)"
    proof (cases "task_Listeners t")
      case Nil
      show ?thesis unfolding Nil list.case by (rule triple_retM) simp
    next
      case (Cons k rest)
      show ?thesis
      proof (rule triple_fact [where A = "k = j"])
        assume k: "k = j"
        have "triple (holds lb J) (bindM (wrapM f (call g (api_listener_exists (Loadbalancers c) j)))
           (\<lambda>isExist. if \<not> isExist then retM () else failM e)) (\<lambda>_. holds lb ?K) (\<lambda>_. holds lb J)" for f g e
          by (rule triple_bindM [OF triple_wrapM [OF ex]]) (auto intro!: triple_if triple_retM triple_failM elim!: holds_mono)
        then show ?thesis unfolding Cons list.case k by (rule triple_pre) (auto elim: holds_mono)
      qed (simp add: holds_def Cons)
    qed
  qed
  then show ?thesis unfolding deleteListenerWithRetry_def c by (rule retry_triple [OF d]) simp
qed

text \<open>
  A cleanup loop: \<open>kept\<close> stays, what is \<open>gone\<close> goes, and there is nothing else; so after the loop \<open>kept\<close>
  is all that is left.
\<close>

definition dwindled :: "('a \<Rightarrow> string) \<Rightarrow> 'a set \<Rightarrow> string set \<Rightarrow> string set \<Rightarrow> 'a list \<Rightarrow> bool" where
  "dwindled f kept gone done xs \<longleftrightarrow> kept \<subseteq> set xs \<and> f ` set xs \<subseteq> gone \<union> f ` kept \<and> f ` set xs \<inter> done = {}"

lemma dwindled_filter:
  assumes "dwindled f kept gone done xs" "j \<notin> f ` kept"
  shows "dwindled f kept gone done (filter (\<lambda>x. f x \<noteq> j) xs)"
proof -
  have "f ` set (filter (\<lambda>x. f x \<noteq> j) xs) \<subseteq> f ` set xs" by auto
  moreover have "kept \<subseteq> set (filter (\<lambda>x. f x \<noteq> j) xs)"
    using assms by (auto simp: dwindled_def)
  ultimately show ?thesis using assms(1) unfolding dwindled_def by (meson disjoint_iff subset_iff)
qed

lemma dwindled_step: "dwindled f kept gone done xs \<Longrightarrow> j \<notin> f ` set xs \<Longrightarrow> dwindled f kept gone (insert j done) xs"
  unfolding dwindled_def by simp

lemma dwindled_all:
  assumes "dwindled f kept gone gone xs" "inj_on f (set xs)"
  shows "set xs = kept"
proof (rule equalityI)
  from assms(1) have kept: "kept \<subseteq> set xs" and sub: "f ` set xs \<subseteq> f ` kept"
    unfolding dwindled_def by blast+
  show "set xs \<subseteq> kept"
  proof
    fix x assume x: "x \<in> set xs"
    with sub obtain y where y: "y \<in> kept" "f x = f y" by blast
    with inj_onD [OF assms(2) y(2) x] kept show "x \<in> kept" by blast
  qed
  show "kept \<subseteq> set xs" by (rule kept)
qed

lemma triple_cleanup:
  assumes c: "l_client l = c" and d: "drivers c"
    and pools: "pool_ID ` set obsoletePools \<inter> pool_ID ` Ps = {}" and lns: "ln_ID ` set obsoleteListeners \<inter> fst ` Ks = {}"
  shows "triple (holds lb (\<lambda>ks ps. dwindled fst Ks (ln_ID ` set obsoleteListeners) {} ks \<and>
      dwindled pool_ID Ps (pool_ID ` set obsoletePools) {} ps))
    (deleteObsoleteListenersAndPools l lb obsoleteListeners obsoletePools)
    (\<lambda>_. holds lb (\<lambda>ks ps. set ks = Ks \<and> set ps = Ps)) any_error"
proof -
  let ?K = "\<lambda>done ks. dwindled fst Ks (ln_ID ` set obsoleteListeners) (ln_ID ` set (done :: listener list)) ks"
  let ?P = "\<lambda>done ps. dwindled pool_ID Ps (pool_ID ` set obsoletePools) (pool_ID ` set (done :: pool list)) ps"
  let ?I = "\<lambda>done (_ :: unit). holds lb (\<lambda>ks ps. ?K [] ks \<and> ?P done ps)"
  let ?J = "\<lambda>done (_ :: unit). holds lb (\<lambda>ks ps. ?K done ks \<and> set ps = Ps)"
  have first: "triple (?I [] ()) (foldM (\<lambda>pool _. wrapM (g pool) (deletePoolWithRetry l (lb_ID lb) (pool_ID pool))) obsoletePools ())
      (?I obsoletePools) any_error" for g
  proof (rule triple_foldM [where I = ?I])
    fix "done" x rest a
    assume "obsoletePools = done @ x # rest"
    then have keep: "pool_ID x \<notin> pool_ID ` Ps" using pools by auto
    have "triple (?I done a) (deletePoolWithRetry l (lb_ID lb) (pool_ID x))
        (\<lambda>_. holds lb (\<lambda>ks ps. (?K [] ks \<and> ?P done ps) \<and> pool_ID x \<notin> pool_ID ` set ps)) any_error"
      by (rule triple_delete_pool [OF c d]) (simp add: dwindled_filter keep)
    then show "triple (?I done a) (wrapM (g x) (deletePoolWithRetry l (lb_ID lb) (pool_ID x))) (?I (done @ [x])) any_error"
      by (intro triple_wrapM) (erule triple_post, erule holds_mono, simp add: dwindled_step)
  qed
  have second: "triple (?J [] ()) (foldM (\<lambda>ln _. wrapM (g ln) (deleteListenerWithRetry l (lb_ID lb) (ln_ID ln))) obsoleteListeners ())
      (?J obsoleteListeners) any_error" for g
  proof (rule triple_foldM [where I = ?J])
    fix "done" x rest a
    assume "obsoleteListeners = done @ x # rest"
    then have keep: "ln_ID x \<notin> fst ` Ks" using lns by auto
    have "triple (?J done a) (deleteListenerWithRetry l (lb_ID lb) (ln_ID x))
        (\<lambda>_. holds lb (\<lambda>ks ps. (?K done ks \<and> set ps = Ps) \<and> ln_ID x \<notin> fst ` set ks)) any_error"
      by (rule triple_delete_listener [OF c d]) (simp add: dwindled_filter keep)
    then show "triple (?J done a) (wrapM (g x) (deleteListenerWithRetry l (lb_ID lb) (ln_ID x))) (?J (done @ [x])) any_error"
      by (intro triple_wrapM) (erule triple_post, erule holds_mono, simp add: dwindled_step)
  qed
  have between: "?J [] () s" if h: "?I obsoletePools u s" for s u
  proof -
    let ?w = "world s"
    from h have "sane ?w" and "?P obsoletePools (pools_at lb ?w)" by (auto simp: holds_def)
    then have "set (pools_at lb ?w) = Ps" by (intro dwindled_all inj_onI unique_pools) simp_all
    with h show ?thesis by (simp add: holds_def)
  qed
  have after: "holds lb (\<lambda>ks ps. set ks = Ks \<and> set ps = Ps) s" if h: "?J obsoleteListeners u s" for s u
  proof -
    let ?w = "world s"
    from h have "sane ?w" and "?K obsoleteListeners (keys_at lb ?w)" by (auto simp: holds_def)
    then have "set (keys_at lb ?w) = Ks" by (intro dwindled_all inj_onI unique_keys) simp_all
    with h show ?thesis by (simp add: holds_def)
  qed
  show ?thesis
    unfolding deleteObsoleteListenersAndPools_def
    by (rule triple_bindM [OF triple_pre [OF triple_post [OF first between]] triple_post [OF second after]]) simp_all
qed

end

end
