(* ===== verification/Converge.thy ===== *)
theory Converge
  imports StoreCleanup
begin

text \<open>
  A whole run on the store: the options are resolved, the load balancer is found or made, the phases follow;
  a successful run has realised the service.
\<close>

section \<open>A whole run\<close>

context store
begin

lemma calm_instances [calm_intros]: "calm (getInstanceByName c name)" "calm (inst_get c i)"
  unfolding getInstanceByName_def inst_get_def Let_def by (intro calm_intros)+

lemma calm_fip [calm_intros]: "l_client l = c \<Longrightarrow> calm (ensureServiceFloatingIP l svc lb')"
  unfolding ensureServiceFloatingIP_def EnsureFloatingIP_def fip_list_def Let_def
  by (simp only: if_False) (intro calm_intros)

lemma calm_sg [calm_intros]: "calm (ensureSecurityGroup c cl svc nodes opts)"
  unfolding ensureSecurityGroup_def ensure_rule_def getSecurityGroupRules_def sg_list_def rule_create_def
    applyNodeSecurityGroupIDForLB_def apply_node_def getInstanceByNode_def getNodeInstanceID_def Let_def
  by (intro calm_intros)

text \<open>The listeners of separate ports differ.\<close>

lemma chosen_apart:
  assumes "sane w" "listeners_chosen opts ports chosen (keys_at lb w)" "separate opts ports"
  shows "inj_on (\<lambda>k. ln_ID (the (chosen k))) (servicePortKey ` set ports)"
proof (rule inj_onI, clarify)
  fix sp sp'
  assume sp: "sp \<in> set ports" "sp' \<in> set ports"
    and eq: "ln_ID (the (chosen (servicePortKey sp))) = ln_ID (the (chosen (servicePortKey sp')))"
  from assms(2) sp obtain ln ln' where ln: "chosen (servicePortKey sp) = Some ln" "serves opts sp (ln_key ln)"
      "ln_key ln \<in> set (keys_at lb w)" and ln': "chosen (servicePortKey sp') = Some ln'" "serves opts sp' (ln_key ln')"
      "ln_key ln' \<in> set (keys_at lb w)" unfolding listeners_chosen_def by blast
  have "ln_key ln = ln_key ln'"
    using unique_keys [OF assms(1) ln(3) ln'(3)] eq ln(1) ln'(1) by (simp add: ln_key_def)
  with ln(2) ln'(2) have "sp = sp'"
    using inj_onD [OF assms(3) [unfolded separate_def] _ sp] by (simp add: serves_def)
  then show "servicePortKey sp = servicePortKey sp'" by simp
qed

text \<open>What is known before the cleanup, and what it leaves.\<close>

lemma before_cleanup:
  assumes "listeners_chosen opts ports chosen ks" "fst ` set ks \<subseteq> lnids \<union> chosen_ids ports chosen ln_ID"
    and "\<forall>sp \<in> set ports. port_pool chosen pools' ps sp" "pool_ID ` set ps \<subseteq> poolids \<union> chosen_ids ports pools' pool_ID"
  shows "dwindled fst ((\<lambda>sp. ln_key (the (chosen (servicePortKey sp)))) ` set ports) lnids {} ks \<and>
    dwindled pool_ID ((\<lambda>sp. the (pools' (servicePortKey sp))) ` set ports) poolids {} ps"
proof -
  have "(\<lambda>sp. ln_key (the (chosen (servicePortKey sp)))) ` set ports \<subseteq> set ks"
    using assms(1) by (force simp: listeners_chosen_def)
  moreover have "(\<lambda>sp. the (pools' (servicePortKey sp))) ` set ports \<subseteq> set ps"
    using assms(3) by (force simp: port_pool_def)
  ultimately show ?thesis
    using assms(2,4) by (simp add: dwindled_def chosen_ids_def image_image ln_key_def)
qed

lemma after_cleanup:
  assumes "listeners_chosen opts ports chosen ks'" "\<forall>sp \<in> set ports. port_pool chosen pools' ps' sp"
    and "members_upto opts ips pools ports ports pools'"
    and "ln_key ` set lns = (\<lambda>sp. ln_key (the (chosen (servicePortKey sp)))) ` set ports"
    and "set ps = (\<lambda>sp. the (pools' (servicePortKey sp))) ` set ports"
  shows "realised opts ports ips lns ps"
  unfolding realised_def
proof (intro exI conjI)
  show "ln_key ` set lns = (\<lambda>sp. ln_key (the (chosen (servicePortKey sp)))) ` set ports" by (rule assms(4))
  show "set ps = (\<lambda>sp. the (pools' (servicePortKey sp))) ` set ports" by (rule assms(5))
  show "\<forall>sp \<in> set ports. serves opts sp (ln_key (the (chosen (servicePortKey sp)))) \<and>
      pool_Listeners (the (pools' (servicePortKey sp))) = [fst (ln_key (the (chosen (servicePortKey sp))))] \<and>
      \<not> membersChanged (pool_Members (the (pools' (servicePortKey sp)))) (desired_members opts sp ips)"
    using assms(1-3) by (fastforce simp: listeners_chosen_def port_pool_def members_upto_def ln_key_def)
qed

lemma triple_last_parts:
  assumes c: "l_client l = c"
    and left: "\<And>lns ps. ln_key ` set lns = Ks \<Longrightarrow> set ps = Ps \<Longrightarrow> realised opts ports ips lns ps"
  shows "triple (holds lb (\<lambda>ks ps. set ks = Ks \<and> set ps = Ps))
    (bindM (if \<not> so_Internal opts then ensureServiceFloatingIP l svc lb else retM (lb_VipAddress lb)) (\<lambda>address.
     bindM (if so_ManageSecurityGroups opts then wrapM f (ensureSecurityGroup c cl svc nodes opts) else retM ()) (\<lambda>_.
       retM [ip_string address])))
    (\<lambda>_ s. sane (world s) \<and> lb_key lb \<in> lb_keys v (world s) \<and>
      realised opts ports ips (lns_of v (world s) (lb_ID lb)) (pools_of v (world s) (lb_ID lb))) any_error"
proof -
  let ?m = "bindM (if \<not> so_Internal opts then ensureServiceFloatingIP l svc lb else retM (lb_VipAddress lb)) (\<lambda>address.
     bindM (if so_ManageSecurityGroups opts then wrapM f (ensureSecurityGroup c cl svc nodes opts) else retM ()) (\<lambda>_.
       retM [ip_string address]))"
  have "calm ?m" by (intro calm_intros c)
  then show ?thesis by (rule triple_post [OF calm_step]) (use left in \<open>auto simp: holds_def\<close>)
qed

lemma triple_members_parts:
  assumes c: "l_client l = c" and d: "drivers c" and distinct: "distinct (map servicePortKey (svc_Ports svc))"
    and sep: "separate opts (svc_Ports svc)"
  shows "triple (holds lb (\<lambda>ks ps.
      (listeners_chosen opts (svc_Ports svc) chosen ks \<and>
        fst ` set ks = ln_ID ` set obsl \<union> chosen_ids (svc_Ports svc) chosen ln_ID \<and>
        ln_ID ` set obsl \<inter> chosen_ids (svc_Ports svc) chosen ln_ID = {} \<and> distinct (map ln_ID obsl)) \<and>
      (\<forall>sp \<in> set (svc_Ports svc). port_pool chosen pools ps sp) \<and>
      pool_ID ` set ps = pool_ID ` set obsp \<union> chosen_ids (svc_Ports svc) pools pool_ID \<and>
      pool_ID ` set obsp \<inter> chosen_ids (svc_Ports svc) pools pool_ID = {} \<and> distinct (map pool_ID obsp)))
    (bindM (reconcilePoolMembers l lb svc pools opts nodes) (\<lambda>_.
     bindM (deleteObsoleteListenersAndPools l lb obsl obsp) (\<lambda>_.
     bindM (if \<not> so_Internal opts then ensureServiceFloatingIP l svc lb else retM (lb_VipAddress lb)) (\<lambda>address.
     bindM (if so_ManageSecurityGroups opts then wrapM f (ensureSecurityGroup c cl svc nodes opts) else retM ()) (\<lambda>_.
       retM [ip_string address])))))
    (\<lambda>_ s. \<exists>ips. node_addresses nodes = Ok ips \<and> sane (world s) \<and> lb_key lb \<in> lb_keys v (world s) \<and>
      realised opts (svc_Ports svc) ips (lns_of v (world s) (lb_ID lb)) (pools_of v (world s) (lb_ID lb))) any_error"
proof -
  let ?ports = "svc_Ports svc"
  let ?Ks = "(\<lambda>sp. ln_key (the (chosen (servicePortKey sp)))) ` set ?ports"
  let ?Ps = "\<lambda>pools. (\<lambda>sp. the (pools (servicePortKey sp))) ` set ?ports"
  let ?A = "\<lambda>ks. listeners_chosen opts ?ports chosen ks \<and> fst ` set ks = ln_ID ` set obsl \<union> chosen_ids ?ports chosen ln_ID"
  let ?ids = "pool_ID ` set obsp \<union> chosen_ids ?ports pools pool_ID"
  let ?B = "\<lambda>pools ps. (\<forall>sp \<in> set ?ports. port_pool chosen pools ps sp) \<and> pool_ID ` set ps = ?ids"
  have ids: "chosen_ids ?ports chosen ln_ID = fst ` ?Ks" "pool_ID ` ?Ps pools' = chosen_ids ?ports pools' pool_ID" for pools'
    by (simp_all add: chosen_ids_def image_image ln_key_def)
  show ?thesis
  proof (rule triple_fact [where A = "inj_on (\<lambda>k. ln_ID (the (chosen k))) (servicePortKey ` set ?ports) \<and>
        ln_ID ` set obsl \<inter> fst ` ?Ks = {} \<and> pool_ID ` set obsp \<inter> chosen_ids ?ports pools pool_ID = {}"], elim conjE)
    assume apart: "inj_on (\<lambda>k. ln_ID (the (chosen k))) (servicePortKey ` set ?ports)"
      and obsl: "ln_ID ` set obsl \<inter> fst ` ?Ks = {}" and obsp: "pool_ID ` set obsp \<inter> chosen_ids ?ports pools pool_ID = {}"
    have tail: "triple (holds lb (\<lambda>ks ps. ?A ks \<and> ?B pools' ps))
      (bindM (deleteObsoleteListenersAndPools l lb obsl obsp) (\<lambda>_.
       bindM (if \<not> so_Internal opts then ensureServiceFloatingIP l svc lb else retM (lb_VipAddress lb)) (\<lambda>address.
       bindM (if so_ManageSecurityGroups opts then wrapM f (ensureSecurityGroup c cl svc nodes opts) else retM ()) (\<lambda>_.
         retM [ip_string address]))))
      (\<lambda>_ s. sane (world s) \<and> lb_key lb \<in> lb_keys v (world s) \<and>
        realised opts ?ports ips (lns_of v (world s) (lb_ID lb)) (pools_of v (world s) (lb_ID lb))) any_error"
      if upto: "members_upto opts ips pools ?ports ?ports pools'" for ips pools'
    proof (rule triple_fact [where A = "\<exists>ks ps. ?A ks \<and> ?B pools' ps"], elim exE)
      fix ks ps
      assume at: "?A ks \<and> ?B pools' ps"
      have same: "chosen_ids ?ports pools' pool_ID = chosen_ids ?ports pools pool_ID"
        unfolding chosen_ids_def
      proof (rule image_cong [OF refl])
        fix sp assume sp: "sp \<in> set ?ports"
        with at obtain p where "pools' (servicePortKey sp) = Some p" by (auto simp: port_pool_def)
        moreover from sp upto have "map_option pool_ID (pools' (servicePortKey sp)) = map_option pool_ID (pools (servicePortKey sp))"
          by (simp add: members_upto_def)
        ultimately show "pool_ID (the (pools' (servicePortKey sp))) = pool_ID (the (pools (servicePortKey sp)))"
          by (cases "pools (servicePortKey sp)") simp_all
      qed
      have gone: "pool_ID ` set obsp \<inter> pool_ID ` ?Ps pools' = {}" unfolding ids same by (rule obsp)
      show ?thesis
      proof (rule triple_bindM [OF triple_pre [OF triple_cleanup [OF c d gone obsl]] triple_last_parts [OF c]])
        fix s
        assume "holds lb (\<lambda>ks ps. ?A ks \<and> ?B pools' ps) s"
        then show "holds lb (\<lambda>ks ps. dwindled fst ?Ks (ln_ID ` set obsl) {} ks \<and> dwindled pool_ID (?Ps pools') (pool_ID ` set obsp) {} ps) s"
          by (rule holds_mono) (rule before_cleanup [where opts = opts], simp_all add: same)
      next
        fix lns ps'
        assume "ln_key ` set lns = ?Ks" "set ps' = ?Ps pools'"
        then show "realised opts ?ports ips lns ps'"
          using at by (intro after_cleanup [OF _ _ upto]) blast+
      qed
    qed (unfold holds_def, elim conjE, intro exI conjI; assumption)
    show ?thesis
    proof (rule triple_bindM [OF triple_pre [OF triple_members_phase [OF c d distinct apart, where A = ?A and ids = ?ids]]])
      fix pools'
      show "triple (\<lambda>s. \<exists>ips. node_addresses nodes = Ok ips \<and> members_upto opts ips pools ?ports ?ports pools' \<and>
          holds lb (\<lambda>ks ps. ?A ks \<and> ?B pools' ps) s)
        (bindM (deleteObsoleteListenersAndPools l lb obsl obsp) (\<lambda>_.
         bindM (if \<not> so_Internal opts then ensureServiceFloatingIP l svc lb else retM (lb_VipAddress lb)) (\<lambda>address.
         bindM (if so_ManageSecurityGroups opts then wrapM f (ensureSecurityGroup c cl svc nodes opts) else retM ()) (\<lambda>_.
           retM [ip_string address]))))
        (\<lambda>_ s. \<exists>ips. node_addresses nodes = Ok ips \<and> sane (world s) \<and> lb_key lb \<in> lb_keys v (world s) \<and>
          realised opts ?ports ips (lns_of v (world s) (lb_ID lb)) (pools_of v (world s) (lb_ID lb))) any_error"
        by (intro triple_ex triple_pure, rule triple_post, erule tail) blast
    qed (erule holds_mono, elim conjE, intro conjI; assumption)
  next
    fix s
    assume "holds lb (\<lambda>ks ps.
      (listeners_chosen opts ?ports chosen ks \<and> fst ` set ks = ln_ID ` set obsl \<union> chosen_ids ?ports chosen ln_ID \<and>
        ln_ID ` set obsl \<inter> chosen_ids ?ports chosen ln_ID = {} \<and> distinct (map ln_ID obsl)) \<and>
      (\<forall>sp \<in> set ?ports. port_pool chosen pools ps sp) \<and>
      pool_ID ` set ps = pool_ID ` set obsp \<union> chosen_ids ?ports pools pool_ID \<and>
      pool_ID ` set obsp \<inter> chosen_ids ?ports pools pool_ID = {} \<and> distinct (map pool_ID obsp)) s"
    then show "inj_on (\<lambda>k. ln_ID (the (chosen k))) (servicePortKey ` set ?ports) \<and>
        ln_ID ` set obsl \<inter> fst ` ?Ks = {} \<and> pool_ID ` set obsp \<inter> chosen_ids ?ports pools pool_ID = {}"
      using chosen_apart [OF _ _ sep, of "world s" chosen lb] unfolding holds_def ids(1) by (elim conjE) (intro conjI)
  qed
qed

lemma triple_parts:
  assumes c: "l_client l = c" and d: "drivers c" and distinct: "distinct (map servicePortKey (svc_Ports svc))"
    and sep: "separate opts (svc_Ports svc)"
  shows "triple (holds lb (\<lambda>_ _. True)) (ensure_parts l cl svc nodes opts lb)
    (\<lambda>_ s. \<exists>ips. node_addresses nodes = Ok ips \<and> sane (world s) \<and> lb_key lb \<in> lb_keys v (world s) \<and>
      realised opts (svc_Ports svc) ips (lns_of v (world s) (lb_ID lb)) (pools_of v (world s) (lb_ID lb))) any_error"
    (is "triple _ _ ?done _")
proof -
  from d have pol: "polling (ExponentialBackoff c)" by (simp add: drivers_def)
  note wait = calm_step [OF calm_wait(2) [OF pol]]
  show ?thesis
    unfolding ensure_parts_def c
    by (rule triple_bindM [OF wait], rule triple_bindM [OF triple_listeners_phase [OF c d distinct]], clarify,
        rule triple_bindM [OF wait], rule triple_bindM [OF triple_pools_phase [OF c d distinct]],
        force simp: listeners_chosen_def,
        clarify, rule triple_bindM [OF wait], rule triple_members_parts [OF c d distinct sep])
qed

text \<open>Before it: the options are resolved, the load balancer is found or made.\<close>

lemma calm_resolve: "l_client l = c \<Longrightarrow> calm (resolveServiceOptions l svc nodes)"
  unfolding resolveServiceOptions_def getSubnetIDForLB_def getFloatingNetworkIDForLB_def getSecretID_def
    resolveTechSecretID_def Let_def
  by (simp only:) (intro calm_intros)

lemma holds_key: "holds lb (\<lambda>_ _. True) = (\<lambda>s. sane (world s) \<and> lb_key lb \<in> lb_keys v (world s))"
  by (intro ext) (simp add: holds_def)

lemma triple_get_by_name:
  "triple (stored (\<lambda>_ _ _. True)) (getLoadbalancerByName c name legacy)
    (\<lambda>lb s. lb_Name lb \<in> {name, legacy} \<and> holds lb (\<lambda>_ _. True) s) (\<lambda>_. stored (\<lambda>_ _ _. True))"
proof -
  let ?L = "\<lambda>lbs s. sane (world s) \<and> lb_key ` set lbs \<subseteq> lb_keys v (world s)"
  have list: "triple (stored (\<lambda>_ _ _. True)) (call k (api_lb_list (Loadbalancers c))) ?L (\<lambda>_. stored (\<lambda>_ _ _. True))" for k
  proof (rule triple_call)
    fix s x w
    assume "stored (\<lambda>_ _ _. True) s" and run: "api_lb_list (Loadbalancers c) (world s) = (Ok x, w)"
    then have s: "sane (world s)" by (simp add: stored_def)
    with quiet_lbs(1) run have "sane w \<and> lb_keys v w = lb_keys v (world s)"
      unfolding undisturbed_def by (metis snd_conv)
    with lb_list [OF s run] show "?L x (s\<lparr>world := w, calls := calls s @ [k (Ok x)]\<rparr>)" by simp
  next
    fix s e w
    assume "stored (\<lambda>_ _ _. True) s" and run: "api_lb_list (Loadbalancers c) (world s) = (Err e, w)"
    then have "sane w" using quiet_lbs(1) unfolding undisturbed_def stored_def by (metis snd_conv)
    then show "stored (\<lambda>_ _ _. True) (s\<lparr>world := w, calls := calls s @ [k (Err e)]\<rparr>)" by (simp add: stored_def)
  qed
  have pick: "triple (?L lbs) (firstM (filter (live n) lbs)) (\<lambda>lb s. lb_Name lb \<in> {name, legacy} \<and> holds lb (\<lambda>_ _. True) s)
      (\<lambda>_. stored (\<lambda>_ _ _. True))" if "n \<in> {name, legacy}" for n lbs
  proof (rule triple_firstM)
    fix s lb rest
    assume L: "?L lbs (s :: 'w st)" and fl: "filter (live n) lbs = lb # rest"
    then have "lb \<in> set (filter (live n) lbs)" by simp
    then have "lb_Name lb = n" "lb \<in> set lbs" by (simp_all add: live_def)
    with that L show "lb_Name lb \<in> {name, legacy} \<and> holds lb (\<lambda>_ _. True) s" by (auto simp: holds_key)
  qed
  have none: "triple (?L lbs) (failM e) Q (\<lambda>_. stored (\<lambda>_ _ _. True))" for lbs e and Q :: "loadbalancer \<Rightarrow> 'w st \<Rightarrow> bool"
    by (rule triple_failM) (simp add: stored_def)
  show ?thesis
    unfolding getLoadbalancerByName_def Let_def
    by (rule triple_bindM [OF list]) (intro triple_if none pick; simp)
qed

lemma triple_create_lb:
  assumes c: "l_client l = c"
  shows "triple (stored (\<lambda>_ _ _. True)) (createLoadBalancer l name opts)
    (\<lambda>lb s. lb_Name lb = name \<and> holds lb (\<lambda>_ _. True) s) any_error"
proof -
  let ?I = "\<lambda>i. stored (\<lambda>L _ _. (i, name) \<in> L)"
  have create: "triple (stored (\<lambda>_ _ _. True)) (call k (api_lb_create (Loadbalancers c) \<lparr>lbc_Name = name, lbc_Flavor = a,
      lbc_VipNetworkID = b, lbc_VipSubnetID = d\<rparr>)) (\<lambda>t s. \<exists>i. task_Loadbalancers t = [i] \<and> ?I i s) any_error" for k a b d
  proof (rule triple_call)
    fix s t w
    let ?req = "\<lparr>lbc_Name = name, lbc_Flavor = a, lbc_VipNetworkID = b, lbc_VipSubnetID = d\<rparr>"
    assume "stored (\<lambda>_ _ _. True) s" and run: "api_lb_create (Loadbalancers c) ?req (world s) = (Ok t, w)"
    then have "sane (world s)" by (simp add: stored_def)
    from lb_create [OF this run] show "\<exists>i. task_Loadbalancers t = [i] \<and> ?I i (s\<lparr>world := w, calls := calls s @ [k (Ok t)]\<rparr>)"
      by (simp add: stored_def)
  qed simp
  have get: "triple (?I i) (lb_get c i) (\<lambda>lb s. lb_Name lb = name \<and> holds lb (\<lambda>_ _. True) s) any_error" for i
    unfolding lb_get_def
  proof (rule triple_call)
    fix s lb w
    assume "?I i s" and run: "api_lb_get (Loadbalancers c) i (world s) = (Ok lb, w)"
    then have s: "sane (world s)" "(i, name) \<in> lb_keys v (world s)" by (simp_all add: stored_def)
    from lb_get [OF s(1) run] have lb: "lb_ID lb = i" "lb_key lb \<in> lb_keys v (world s)" by blast+
    from s(2) lb(2) obtain a b where ab: "a \<in> set (lbs_of v (world s))" "b \<in> set (lbs_of v (world s))"
      "lb_key a = (i, name)" "lb_key b = lb_key lb" unfolding lb_keys_def by (metis imageE)
    then have "lb_ID a = lb_ID b" using lb(1) by (simp add: lb_key_def)
    moreover have "inj_on lb_ID (set (lbs_of v (world s)))" using unique [OF s(1)] by (simp add: distinct_map)
    ultimately have "a = b" using ab(1,2) by (metis inj_onD)
    with ab(3,4) have "lb_Name lb = name" by (simp add: lb_key_def)
    moreover from quiet_lbs(2) run s(1) have "sane w \<and> lb_keys v w = lb_keys v (world s)"
      unfolding undisturbed_def by (metis snd_conv)
    ultimately show "lb_Name lb = name \<and> holds lb (\<lambda>_ _. True) (s\<lparr>world := w, calls := calls s @ [LB (Loadbalancers_Get i (Ok lb))]\<rparr>)"
      using lb(2) by (simp add: holds_key)
  qed simp
  show ?thesis
    unfolding createLoadBalancer_def Let_def c
    by (rule triple_bindM [OF triple_wrapM [OF create]], rule triple_bindM [OF triple_firstM [where Q = ?I]])
      (auto intro: triple_wrapM get)
qed

lemma triple_find_or_create:
  assumes c: "l_client l = c"
  shows "triple (stored (\<lambda>_ _ _. True)) (find_or_create l svc opts)
    (\<lambda>lb s. lb_Name lb \<in> {lb_name l svc, lb_legacy_name l svc} \<and> holds lb (\<lambda>_ _. True) s) any_error"
  unfolding find_or_create_def Let_def c
proof (rule triple_tryM [OF triple_get_by_name])
  show "triple (stored (\<lambda>_ _ _. True)) (if \<not> errors_Is err ErrNotFound
           then failM (Wrapf (''error getting loadbalancer for Service '' @ (svc_Namespace svc @ ''/'' @ svc_Name svc) @ '': '') err)
           else wrapM (flatten (''error creating loadbalancer '' @ lb_name l svc @ '': '')) (createLoadBalancer l (lb_name l svc) opts))
      (\<lambda>lb s. lb_Name lb \<in> {lb_name l svc, lb_legacy_name l svc} \<and> holds lb (\<lambda>_ _. True) s) any_error" for err
    by (intro triple_if triple_failM triple_wrapM triple_post [OF triple_create_lb [OF c]]) simp_all
qed (rule triple_retM)

lemma EnsureLoadBalancer_realises:
  assumes c: "l_client l = c" and d: "drivers c" and distinct: "distinct (map servicePortKey (svc_Ports svc))"
    and "sane (world s)" and run: "EnsureLoadBalancer l cl svc nodes s = (Ok ingress, s')"
  shows "\<exists>opts lb. options_ok l svc opts \<and> lb_Name lb \<in> {lb_name l svc, lb_legacy_name l svc} \<and>
    (separate opts (svc_Ports svc) \<longrightarrow> sane (world s') \<and> lb_key lb \<in> lb_keys v (world s') \<and>
      (\<exists>ips. node_addresses nodes = Ok ips \<and>
        realised opts (svc_Ports svc) ips (lns_of v (world s') (lb_ID lb)) (pools_of v (world s') (lb_ID lb))))"
proof -
  let ?S = "stored (\<lambda>_ _ _. True)"
  let ?goal = "\<lambda>s'. \<exists>opts lb. options_ok l svc opts \<and> lb_Name lb \<in> {lb_name l svc, lb_legacy_name l svc} \<and>
    (separate opts (svc_Ports svc) \<longrightarrow> sane (world s') \<and> lb_key lb \<in> lb_keys v (world s') \<and>
      (\<exists>ips. node_addresses nodes = Ok ips \<and>
        realised opts (svc_Ports svc) ips (lns_of v (world s') (lb_ID lb)) (pools_of v (world s') (lb_ID lb))))"
  have parts: "triple (holds lb (\<lambda>_ _. True)) (ensure_parts l cl svc nodes opts lb) (\<lambda>_. ?goal) any_error"
    if "options_ok l svc opts" "lb_Name lb \<in> {lb_name l svc, lb_legacy_name l svc}" for opts lb
  proof (cases "separate opts (svc_Ports svc)")
    case True
    show ?thesis by (rule triple_post [OF triple_parts [OF c d distinct True]]) (use that in blast)
  next
    case False
    show ?thesis by (rule tripleI) (use that False in blast)+
  qed
  have "triple ?S (resolveServiceOptions l svc nodes) (\<lambda>_. ?S) any_error"
    using calm_resolve [OF c] unfolding calm_def by (blast intro: triple_any_error)
  note resolve = triple_yields [OF resolveServiceOptions_Ok this]
  have "triple ?S (EnsureLoadBalancer l cl svc nodes) (\<lambda>_. ?goal) any_error"
    unfolding EnsureLoadBalancer_parts
  proof (intro triple_if triple_failM)
    show "triple ?S (bindM (resolveServiceOptions l svc nodes) (\<lambda>opts.
        bindM (find_or_create l svc opts) (ensure_parts l cl svc nodes opts))) (\<lambda>_. ?goal) any_error"
      by (rule triple_bindM [OF resolve], rule triple_pure, rule triple_bindM [OF triple_find_or_create [OF c]],
          rule triple_pure, rule parts)
  qed simp_all
  moreover have "?S s" using assms(4) by (simp add: stored_def)
  ultimately show ?thesis using run by (rule tripleD(1))
qed

text \<open>The same when the options are known.\<close>

lemma EnsureLoadBalancer_realises_options:
  assumes c: "l_client l = c" and d: "drivers c" and distinct: "distinct (map servicePortKey (svc_Ports svc))"
    and sane: "sane (world s)" and opts: "resolveServiceOptions l svc nodes s = (Ok opts, s1)" "separate opts (svc_Ports svc)"
    and run: "EnsureLoadBalancer l cl svc nodes s = (Ok ingress, s')"
  shows "\<exists>lb ips. lb_Name lb \<in> {lb_name l svc, lb_legacy_name l svc} \<and> node_addresses nodes = Ok ips \<and> sane (world s') \<and>
    lb_key lb \<in> lb_keys v (world s') \<and>
    realised opts (svc_Ports svc) ips (lns_of v (world s') (lb_ID lb)) (pools_of v (world s') (lb_ID lb))"
proof -
  have "stored (\<lambda>_ _ _. True) s" using sane by (simp add: stored_def)
  from tripleD(1) [OF calm_stored [OF calm_resolve [OF c]] this opts(1)] have s1: "stored (\<lambda>_ _ _. True) s1" .
  from run opts(1) have rest: "bindM (find_or_create l svc opts) (ensure_parts l cl svc nodes opts) s1 = (Ok ingress, s')"
    unfolding EnsureLoadBalancer_parts by (simp add: bindM_def failM_def split: if_splits)
  have parts: "triple (\<lambda>s. lb_Name lb \<in> {lb_name l svc, lb_legacy_name l svc} \<and> holds lb (\<lambda>_ _. True) s) (ensure_parts l cl svc nodes opts lb)
      (\<lambda>_ s. \<exists>lb ips. lb_Name lb \<in> {lb_name l svc, lb_legacy_name l svc} \<and> node_addresses nodes = Ok ips \<and> sane (world s) \<and>
        lb_key lb \<in> lb_keys v (world s) \<and>
        realised opts (svc_Ports svc) ips (lns_of v (world s) (lb_ID lb)) (pools_of v (world s) (lb_ID lb))) any_error" for lb
    by (rule triple_pure, rule triple_post [OF triple_parts [OF c d distinct opts(2)]]) blast
  from tripleD(1) [OF triple_bindM [OF triple_find_or_create [OF c] parts] s1 rest] show ?thesis .
qed

end

end
