(* ===== verification/StoreDelete.thy ===== *)
theory StoreDelete
  imports Converge
begin

text \<open>
  Deletion on the store. The locale \<open>deleting_store\<close> adds the laws of the requests that only a deletion makes.
  \<open>EnsureLoadBalancerDeleted\<close> removes the load balancer of its service, and leaves every other one with its
  listeners and pools, also when it fails on the way.
\<close>

section \<open>What is spared\<close>

text \<open>Two load balancers, given by their listeners and pools, that share nothing.\<close>

definition apart :: "listener list \<Rightarrow> pool list \<Rightarrow> listener list \<Rightarrow> pool list \<Rightarrow> bool" where
  "apart lns ps lns' ps' \<longleftrightarrow> ln_ID ` set lns \<inter> ln_ID ` set lns' = {} \<and> pool_ID ` set ps \<inter> pool_ID ` set ps' = {}"

text \<open>Every load balancer that shares nothing with the load balancer \<open>i\<close> is as it was.\<close>

definition spared ::
    "string \<Rightarrow> (string \<Rightarrow> listener list) \<Rightarrow> (string \<Rightarrow> pool list) \<Rightarrow> (string \<Rightarrow> listener list) \<Rightarrow> (string \<Rightarrow> pool list) \<Rightarrow> bool" where
  "spared i lns ps lns' ps' \<longleftrightarrow>
     (\<forall>j. j \<noteq> i \<and> apart (lns i) (ps i) (lns j) (ps j) \<longrightarrow> lns' j = lns j \<and> ps' j = ps j)"

text \<open>And \<open>i\<close> itself has got nothing new.\<close>

definition shrunk ::
    "string \<Rightarrow> (string \<Rightarrow> listener list) \<Rightarrow> (string \<Rightarrow> pool list) \<Rightarrow> (string \<Rightarrow> listener list) \<Rightarrow> (string \<Rightarrow> pool list) \<Rightarrow> bool" where
  "shrunk i lns ps lns' ps' \<longleftrightarrow> spared i lns ps lns' ps' \<and> set (lns' i) \<subseteq> set (lns i) \<and> set (ps' i) \<subseteq> set (ps i)"

definition without :: "string \<Rightarrow> (string \<times> string) set \<Rightarrow> (string \<times> string) set" where
  "without i L = {k \<in> L. fst k \<noteq> i}"

lemma shrunk_refl: "shrunk i lns ps lns ps"
  by (simp add: shrunk_def spared_def)

lemma filter_absent: "j \<notin> f ` set xs \<Longrightarrow> filter (\<lambda>x. f x \<noteq> j) xs = xs"
  by (auto intro: filter_True)

lemma shrunk_pools:
  assumes "shrunk i lns0 ps0 lns ps" "j \<in> pool_ID ` set (ps0 i)"
    and "\<And>k. ps' k \<in> {ps k, filter (\<lambda>p. pool_ID p \<noteq> j) (ps k)}"
  shows "shrunk i lns0 ps0 lns ps'"
proof -
  have "ps' k = ps0 k" if "k \<noteq> i" "apart (lns0 i) (ps0 i) (lns0 k) (ps0 k)" for k
  proof -
    from that assms(1) have "ps k = ps0 k" by (simp add: shrunk_def spared_def)
    moreover have "j \<notin> pool_ID ` set (ps0 k)" using that(2) assms(2) by (auto simp: apart_def)
    ultimately show ?thesis using assms(3) [of k] filter_absent [of j pool_ID "ps0 k"] by auto
  qed
  moreover have "set (ps' i) \<subseteq> set (ps i)" using assms(3) [of i] by auto
  ultimately show ?thesis using assms(1) by (auto simp: shrunk_def spared_def)
qed

lemma shrunk_listeners:
  assumes "shrunk i lns0 ps0 lns ps" "j \<in> ln_ID ` set (lns0 i)"
    and "\<And>k. lns' k \<in> {lns k, filter (\<lambda>ln. ln_ID ln \<noteq> j) (lns k)}"
  shows "shrunk i lns0 ps0 lns' ps"
proof -
  have "lns' k = lns0 k" if "k \<noteq> i" "apart (lns0 i) (ps0 i) (lns0 k) (ps0 k)" for k
  proof -
    from that assms(1) have "lns k = lns0 k" by (simp add: shrunk_def spared_def)
    moreover have "j \<notin> ln_ID ` set (lns0 k)" using that(2) assms(2) by (auto simp: apart_def)
    ultimately show ?thesis using assms(3) [of k] filter_absent [of j ln_ID "lns0 k"] by auto
  qed
  moreover have "set (lns' i) \<subseteq> set (lns i)" using assms(3) [of i] by auto
  ultimately show ?thesis using assms(1) by (auto simp: shrunk_def spared_def)
qed

text \<open>A load balancer that the lookup takes for that of the service.\<close>

definition candidate :: "'w lbaas \<Rightarrow> service \<Rightarrow> loadbalancer \<Rightarrow> bool" where
  "candidate l svc lb \<longleftrightarrow> live (lb_name l svc) lb \<or> live (lb_legacy_name l svc) lb"

section \<open>The laws of deletion\<close>

locale deleting_store = store c v sane for c :: "'w client" and v and sane +
  assumes quiet_deletes: "undisturbed v sane (api_lb_exists (Loadbalancers c) i)" "undisturbed v sane (api_sg_delete (Networks c) i)"
      "undisturbed v sane (api_fip_delete (Networks c) i)" "undisturbed v sane (api_inst_by_sg (Instances c) i)"
      "undisturbed v sane (api_inst_sg_unassign (Instances c) i asg)"
    and lb_list_all: "sane w \<Longrightarrow> api_lb_list (Loadbalancers c) w = (Ok lbs, w') \<Longrightarrow> lbs = lbs_of v w"
    and lb_list_error: "api_lb_list (Loadbalancers c) w = (Err e, w') \<Longrightarrow> \<not> errors_Is e ErrNotFound"
    and lb_exists: "sane w \<Longrightarrow> api_lb_exists (Loadbalancers c) i w = (Ok False, w') \<Longrightarrow> i \<notin> lb_ID ` set (lbs_of v w)"
    and lb_delete: "sane w \<Longrightarrow> api_lb_delete (Loadbalancers c) i w = (r, w') \<Longrightarrow>
      sane w' \<and> lb_keys v w' \<in> {lb_keys v w, without i (lb_keys v w)} \<and>
      (\<forall>j. j \<noteq> i \<longrightarrow> lns_of v w' j = lns_of v w j \<and> pools_of v w' j = pools_of v w j)"
    and pool_listed: "sane w \<Longrightarrow> api_pool_list (Pools c) o' w = (Ok ps, w') \<Longrightarrow> set ps \<subseteq> set (pools_of v w (pl_LoadbalancerID o'))"
begin

lemmas calm_deletes [calm_intros] = quiet_deletes [THEN calm_call]

lemma calm_wait_deleted:
  assumes "drivers c"
  shows "calm (waitLoadbalancerDeleted c i)"
  unfolding calm_def waitLoadbalancerDeleted_def
proof (intro allI triple_bindM triple_run_closure)
  fix P
  let ?I = "\<lambda>t. stored P (fst t)"
  have "calm (lb_exists c i)" unfolding lb_exists_def by (rule calm_intros)
  then have "triple ?I (bindM (lift_st (lb_exists c i)) (\<lambda>isExist. retM (\<not> isExist))) (\<lambda>b t. if b then ?I t else ?I t) (\<lambda>_. ?I)"
    by (intro triple_bindM [OF calm_lift] triple_retM) auto
  from polling.drive_triple [OF _ this] assms
  show "triple ?I (ExponentialBackoff c delete_backoff (bindM (lift_st (lb_exists c i)) (\<lambda>isExist. retM (\<not> isExist)))) (\<lambda>_. ?I) (\<lambda>_. ?I)"
    unfolding drivers_def by (blast intro: triple_weaken)
qed (auto split: prod.splits option.splits intro: triple_retM triple_failM)

lemma calm_delete_fips [calm_intros]: "l_client l = c \<Longrightarrow> calm (delete_fips l lb ingress)"
  unfolding delete_fips_def EnsureFloatingIP_def getFloatingIPsByAddr_def fip_list_def Let_def
  by (simp only: if_True) (intro calm_intros)

lemma calm_delete_sg [calm_intros]: "l_client l = c \<Longrightarrow> calm (EnsureSecurityGroupDeleted l svc)"
  unfolding EnsureSecurityGroupDeleted_def disassociateSecurityGroupForLB_def sg_list_def Let_def
  by (simp only:) (intro calm_intros)

section \<open>The listeners and pools of the load balancer\<close>

lemma stored_call:
  assumes "\<And>w r w'. sane w \<Longrightarrow> f w = (r, w') \<Longrightarrow> P (lb_keys v w) (lns_of v w) (pools_of v w) \<Longrightarrow>
      sane w' \<and> P (lb_keys v w') (lns_of v w') (pools_of v w') \<and>
      (\<forall>x. r = Ok x \<longrightarrow> Q x (lb_keys v w') (lns_of v w') (pools_of v w'))"
  shows "triple (stored P) (call k f) (\<lambda>x. stored (Q x)) (\<lambda>_. stored P)"
proof (rule triple_call)
  fix s x w
  assume "stored P s" "f (world s) = (Ok x, w)"
  with assms [of "world s" "Ok x" w] show "stored (Q x) (s\<lparr>world := w, calls := calls s @ [k (Ok x)]\<rparr>)"
    by (simp add: stored_def)
next
  fix s e w
  assume "stored P s" "f (world s) = (Err e, w)"
  with assms [of "world s" "Err e" w] show "stored P (s\<lparr>world := w, calls := calls s @ [k (Err e)]\<rparr>)"
    by (simp add: stored_def)
qed

lemma stored_read:
  assumes f: "undisturbed v sane f"
    and "\<And>w x w'. sane w \<Longrightarrow> f w = (Ok x, w') \<Longrightarrow> P (lb_keys v w) (lns_of v w) (pools_of v w) \<Longrightarrow>
      Q x (lb_keys v w) (lns_of v w) (pools_of v w)"
  shows "triple (stored P) (call k f) (\<lambda>x. stored (\<lambda>L lns ps. P L lns ps \<and> Q x L lns ps)) (\<lambda>_. stored P)"
proof (rule stored_call)
  fix w r w'
  assume w: "sane w" "f w = (r, w')" "P (lb_keys v w) (lns_of v w) (pools_of v w)"
  with f have "sane w' \<and> lb_keys v w' = lb_keys v w \<and> lns_of v w' = lns_of v w \<and> pools_of v w' = pools_of v w"
    unfolding undisturbed_def by (metis snd_conv)
  with w assms(2) [of w _ w'] show "sane w' \<and> P (lb_keys v w') (lns_of v w') (pools_of v w') \<and>
      (\<forall>x. r = Ok x \<longrightarrow> P (lb_keys v w') (lns_of v w') (pools_of v w') \<and> Q x (lb_keys v w') (lns_of v w') (pools_of v w'))"
    by simp
qed

text \<open>\<open>doomed i L lns ps\<close>: the store was \<open>L\<close>, \<open>lns\<close>, \<open>ps\<close>, and only \<open>i\<close> has lost listeners or pools.\<close>

definition doomed ::
    "string \<Rightarrow> (string \<times> string) set \<Rightarrow> (string \<Rightarrow> listener list) \<Rightarrow> (string \<Rightarrow> pool list) \<Rightarrow> 'w st \<Rightarrow> bool" where
  "doomed i L0 lns0 ps0 = stored (\<lambda>L lns ps. L = L0 \<and> shrunk i lns0 ps0 lns ps)"

lemma calm_doomed: "calm m \<Longrightarrow> triple (doomed i L lns ps) m (\<lambda>_. doomed i L lns ps) (\<lambda>_. doomed i L lns ps)"
  unfolding doomed_def by (rule calm_stored)

lemma retry_doomed:
  assumes "drivers c" "triple (doomed i L lns ps) op (\<lambda>_. doomed i L lns ps) (\<lambda>_. doomed i L lns ps)"
  shows "triple (doomed i L lns ps) (runLBOperationWithRetry c n opName rid op) (\<lambda>_. doomed i L lns ps) (\<lambda>_. doomed i L lns ps)"
  using assms unfolding doomed_def by (rule retry_stored)

lemma doomed_delete_pool:
  assumes c: "l_client l = c" and d: "drivers c" and j: "j \<in> pool_ID ` set (ps0 i)"
  shows "triple (doomed i L lns0 ps0) (deletePoolWithRetry l n j) (\<lambda>_. doomed i L lns0 ps0) (\<lambda>_. doomed i L lns0 ps0)"
proof -
  have del: "triple (doomed i L lns0 ps0) (call k (api_pool_delete (Pools c) j)) (\<lambda>_. doomed i L lns0 ps0) (\<lambda>_. doomed i L lns0 ps0)" for k
    unfolding doomed_def
  proof (rule stored_call)
    fix w r w'
    assume w: "sane w" "api_pool_delete (Pools c) j w = (r, w')" "lb_keys v w = L \<and> shrunk i lns0 ps0 (lns_of v w) (pools_of v w)"
    have "shrunk i lns0 ps0 (lns_of v w) (pools_of v w')"
      by (rule shrunk_pools [OF conjunct2 [OF w(3)] j]) (use pool_delete [OF w(1,2)] in blast)
    then show "sane w' \<and> (lb_keys v w' = L \<and> shrunk i lns0 ps0 (lns_of v w') (pools_of v w')) \<and>
        (\<forall>x. r = Ok x \<longrightarrow> lb_keys v w' = L \<and> shrunk i lns0 ps0 (lns_of v w') (pools_of v w'))"
      using pool_delete [OF w(1,2)] w(3) by simp
  qed
  have rest: "calm (bindM (wrapM f (call k' (api_pool_exists (Pools c) j))) (\<lambda>isExist. if \<not> isExist then retM () else failM e))" for f k' e
    by (intro calm_intros)
  show ?thesis
    unfolding deletePoolWithRetry_def deletePool_def c
    by (rule retry_doomed [OF d], rule triple_bindM [OF triple_wrapM [OF del] calm_doomed]) (rule rest)
qed

lemma doomed_delete_listener:
  assumes c: "l_client l = c" and d: "drivers c" and j: "j \<in> ln_ID ` set (lns0 i)"
  shows "triple (doomed i L lns0 ps0) (deleteListenerWithRetry l n j) (\<lambda>_. doomed i L lns0 ps0) (\<lambda>_. doomed i L lns0 ps0)"
proof -
  have del: "triple (doomed i L lns0 ps0) (call k (api_listener_delete (Loadbalancers c) j)) (\<lambda>_. doomed i L lns0 ps0) (\<lambda>_. doomed i L lns0 ps0)" for k
    unfolding doomed_def
  proof (rule stored_call)
    fix w r w'
    assume w: "sane w" "api_listener_delete (Loadbalancers c) j w = (r, w')" "lb_keys v w = L \<and> shrunk i lns0 ps0 (lns_of v w) (pools_of v w)"
    have "shrunk i lns0 ps0 (lns_of v w') (pools_of v w)"
      by (rule shrunk_listeners [OF conjunct2 [OF w(3)] j]) (use listener_delete [OF w(1,2)] in blast)
    then show "sane w' \<and> (lb_keys v w' = L \<and> shrunk i lns0 ps0 (lns_of v w') (pools_of v w')) \<and>
        (\<forall>x. r = Ok x \<longrightarrow> lb_keys v w' = L \<and> shrunk i lns0 ps0 (lns_of v w') (pools_of v w'))"
      using listener_delete [OF w(1,2)] w(3) by simp
  qed
  have rest: "calm (case task_Listeners t of [] \<Rightarrow> retM () | k # _ \<Rightarrow>
      bindM (wrapM (f k) (call (g k) (api_listener_exists (Loadbalancers c) k))) (\<lambda>isExist. if \<not> isExist then retM () else failM (e k)))" for t f g e
    by (cases "task_Listeners t") (auto intro!: calm_intros)
  show ?thesis
    unfolding deleteListenerWithRetry_def deleteListener_def c
    by (rule retry_doomed [OF d], rule triple_bindM [OF triple_wrapM [OF del] calm_doomed]) (rule rest)
qed

lemma doomed_ensure_deleted:
  assumes c: "l_client l = c" and d: "drivers c" and ln: "ln_ID ln \<in> ln_ID ` set (lns0 (lb_ID lb))"
  shows "triple (doomed (lb_ID lb) L lns0 ps0) (ensureListenerDeleted l lb ln)
    (\<lambda>_. doomed (lb_ID lb) L lns0 ps0) (\<lambda>_. doomed (lb_ID lb) L lns0 ps0)"
proof -
  let ?D = "doomed (lb_ID lb) L lns0 ps0"
  let ?R = "\<lambda>p s. (\<forall>pool. p = Some pool \<longrightarrow> pool_ID pool \<in> pool_ID ` set (ps0 (lb_ID lb))) \<and> ?D s"
  have list: "triple ?D (call k (api_pool_list (Pools c) \<lparr>pl_LoadbalancerID = lb_ID lb, pl_ListenerID = a, pl_Details = b\<rparr>))
      (\<lambda>ps s. set ps \<subseteq> set (ps0 (lb_ID lb)) \<and> ?D s) (\<lambda>_. ?D)" for k a b
    unfolding doomed_def
    by (rule triple_post, rule stored_read [OF quiet_pools(1), where Q = "\<lambda>ps _ _ _. set ps \<subseteq> set (ps0 (lb_ID lb))"])
      (use pool_listed in \<open>force simp: shrunk_def\<close>, simp add: stored_def)
  have first: "triple (\<lambda>s. set ps \<subseteq> set (ps0 (lb_ID lb)) \<and> ?D s) (firstM ps) (\<lambda>pool s. pool \<in> set (ps0 (lb_ID lb)) \<and> ?D s) (\<lambda>_. ?D)" for ps
    by (rule triple_firstM) auto
  have get: "triple ?D (getPoolByListenerID c (lb_ID lb) (ln_ID ln) False) (\<lambda>pool s. pool \<in> set (ps0 (lb_ID lb)) \<and> ?D s) (\<lambda>_. ?D)"
    unfolding getPoolByListenerID_def pool_list_def
    by (rule triple_bindM [OF list]) (intro triple_if triple_failM triple_pre [OF first]; simp)
  have find: "triple ?D (tryM (getPoolByListenerID c (lb_ID lb) (ln_ID ln) False)
      (\<lambda>e. if \<not> errors_Is e ErrNotFound then failM (f e) else retM None) (\<lambda>pool. retM (Some pool))) ?R (\<lambda>_. ?D)" for f
    by (rule triple_tryM [OF get]) (auto intro!: triple_if triple_failM triple_retM)
  have pool: "triple (?R p) (case p of Some pool \<Rightarrow> wrapM (f pool) (deletePoolWithRetry l (lb_ID lb) (pool_ID pool)) | None \<Rightarrow> retM ())
      (\<lambda>_. ?D) (\<lambda>_. ?D)" for p f
    by (rule triple_pure, cases p) (auto intro!: triple_retM triple_wrapM doomed_delete_pool [OF c d])
  show ?thesis
    unfolding ensureListenerDeleted_def c
    by (rule triple_bindM [OF find triple_bindM [OF pool triple_wrapM [OF doomed_delete_listener [OF c d, where ?lns0.0 = lns0 and i = "lb_ID lb", OF ln]]]])
qed

section \<open>A whole deletion\<close>

text \<open>\<open>deleted i L lns ps b\<close>: others are spared, and if \<open>b\<close>, then \<open>i\<close> is gone.\<close>

definition deleted ::
    "string \<Rightarrow> (string \<times> string) set \<Rightarrow> (string \<Rightarrow> listener list) \<Rightarrow> (string \<Rightarrow> pool list) \<Rightarrow> bool \<Rightarrow> 'w st \<Rightarrow> bool" where
  "deleted i L0 lns0 ps0 b = stored (\<lambda>L lns ps. (if b then L = without i L0 else L \<in> {L0, without i L0}) \<and> spared i lns0 ps0 lns ps)"

lemma calm_deleted: "calm m \<Longrightarrow> triple (deleted i L lns ps b) m (\<lambda>_. deleted i L lns ps b) (\<lambda>_. deleted i L lns ps b)"
  unfolding deleted_def by (rule calm_stored)

lemma deleted_weaken: "deleted i L lns ps b s \<Longrightarrow> deleted i L lns ps False s"
  unfolding deleted_def by (erule stored_mono) (simp split: if_splits)

lemma doomed_deleted: "doomed i L lns ps s \<Longrightarrow> deleted i L lns ps False s"
  unfolding doomed_def deleted_def by (erule stored_mono) (simp add: shrunk_def)

lemma keys_gone: "i \<notin> lb_ID ` set (lbs_of v w) \<Longrightarrow> without i (lb_keys v w) = lb_keys v w"
  by (force simp: without_def lb_keys_def lb_key_def)

lemma without_twice [simp]: "without i (without i L) = without i L"
  by (simp add: without_def)

lemma deleted_delete:
  assumes c: "l_client l = c"
  shows "triple (doomed i L lns0 ps0) (deleteLoadBalancer l i) (\<lambda>_. deleted i L lns0 ps0 True) (\<lambda>_. deleted i L lns0 ps0 False)"
proof -
  let ?D = "deleted i L lns0 ps0 False"
  have del: "triple ?D (call k (api_lb_delete (Loadbalancers c) i)) (\<lambda>_. ?D) (\<lambda>_. ?D)" for k
    unfolding deleted_def
  proof (rule stored_call)
    fix w r w'
    assume w: "sane w" "api_lb_delete (Loadbalancers c) i w = (r, w')"
      "(if False then lb_keys v w = without i L else lb_keys v w \<in> {L, without i L}) \<and> spared i lns0 ps0 (lns_of v w) (pools_of v w)"
    from lb_delete [OF w(1,2)] have "sane w'" "lb_keys v w' \<in> {lb_keys v w, without i (lb_keys v w)}"
      "\<forall>j. j \<noteq> i \<longrightarrow> lns_of v w' j = lns_of v w j \<and> pools_of v w' j = pools_of v w j" by blast+
    with w(3) have new: "sane w'" "lb_keys v w' \<in> {L, without i L}" "spared i lns0 ps0 (lns_of v w') (pools_of v w')"
      by (auto simp: spared_def)
    then show "sane w' \<and>
        ((if False then lb_keys v w' = without i L else lb_keys v w' \<in> {L, without i L}) \<and> spared i lns0 ps0 (lns_of v w') (pools_of v w')) \<and>
        (\<forall>x. r = Ok x \<longrightarrow> (if False then lb_keys v w' = without i L else lb_keys v w' \<in> {L, without i L}) \<and>
           spared i lns0 ps0 (lns_of v w') (pools_of v w'))" by simp
  qed
  have ex: "triple ?D (lb_exists c i) (\<lambda>b. deleted i L lns0 ps0 (\<not> b)) (\<lambda>_. ?D)"
    unfolding lb_exists_def deleted_def
  proof (rule triple_post [OF stored_read [OF quiet_deletes(1), where Q = "\<lambda>b L' _ _. \<not> b \<longrightarrow> L' = without i L"]])
    fix w b w'
    assume w: "sane w" "api_lb_exists (Loadbalancers c) i w = (Ok b, w')"
      "(if False then lb_keys v w = without i L else lb_keys v w \<in> {L, without i L}) \<and> spared i lns0 ps0 (lns_of v w) (pools_of v w)"
    show "\<not> b \<longrightarrow> lb_keys v w = without i L"
    proof
      assume "\<not> b"
      with w(2) have "without i (lb_keys v w) = lb_keys v w" by (intro keys_gone lb_exists [OF w(1), of i w']) simp
      with w(3) show "lb_keys v w = without i L" by auto
    qed
  qed (erule stored_mono, simp)
  show ?thesis
    unfolding deleteLoadBalancer_def c
    by (rule triple_pre [OF triple_bindM [OF triple_wrapM [OF del] triple_bindM [OF triple_wrapM [OF ex]]] doomed_deleted])
      (auto intro!: triple_if triple_retM triple_failM)
qed

lemma deleted_parts:
  assumes c: "l_client l = c" and d: "drivers c"
  shows "triple (doomed (lb_ID lb) L lns0 ps0) (delete_parts l svc lb)
    (\<lambda>_. deleted (lb_ID lb) L lns0 ps0 True) (\<lambda>_. deleted (lb_ID lb) L lns0 ps0 False)"
proof -
  let ?i = "lb_ID lb" let ?D = "doomed ?i L lns0 ps0" and ?F = "deleted ?i L lns0 ps0"
  have list: "triple ?D (getListenersByLoadBalancerID c ?i) (\<lambda>lns s. set lns \<subseteq> set (lns0 ?i) \<and> ?D s) (\<lambda>_. ?D)"
    unfolding getListenersByLoadBalancerID_def doomed_def
    by (rule triple_post, rule stored_read [OF quiet_lbs(3), where Q = "\<lambda>lns _ _ _. set lns \<subseteq> set (lns0 ?i)"])
      (use listener_list in \<open>force simp: shrunk_def\<close>, simp add: stored_def)
  have loop: "triple (\<lambda>s. set lns \<subseteq> set (lns0 ?i) \<and> ?D s) (foldM (\<lambda>ln _. ensureListenerDeleted l lb ln) lns ()) (\<lambda>_. ?D) (\<lambda>_. ?D)" for lns
  proof (rule triple_pure, rule triple_foldM [where I = "\<lambda>_ _. ?D"])
    fix "done" ln rest u
    assume "set lns \<subseteq> set (lns0 ?i)" "lns = done @ ln # rest"
    then have "ln_ID ln \<in> ln_ID ` set (lns0 ?i)" by auto
    then show "triple ?D (ensureListenerDeleted l lb ln) (\<lambda>_. ?D) (\<lambda>_. ?D)" by (rule doomed_ensure_deleted [OF c d])
  qed
  have late: "triple (?F True) m (\<lambda>_. ?F True) (\<lambda>_. ?F False)" if "calm m" for m :: "('w st, 'b) prog"
    by (rule triple_weaken [OF calm_deleted [OF that, where b = True]]) (auto intro: deleted_weaken)
  have early: "triple ?D m Q (\<lambda>_. ?D) \<Longrightarrow> triple ?D (wrapM f m) Q (\<lambda>_. ?F False)" for m Q f
    by (rule triple_wrapM) (erule triple_weaken, auto intro: doomed_deleted)
  show ?thesis
    unfolding delete_parts_def c
    by (rule triple_bindM [OF early [OF list]], rule triple_bindM [OF triple_weaken [OF loop]],
        assumption, assumption, erule doomed_deleted, rule triple_bindM [OF triple_wrapM [OF deleted_delete [OF c]]],
        rule late) (intro calm_intros calm_wait_deleted d c)
qed

text \<open>The lookup before it.\<close>

definition same :: "'w \<Rightarrow> 'w st \<Rightarrow> bool" where
  "same w = stored (\<lambda>L lns ps. L = lb_keys v w \<and> lns = lns_of v w \<and> ps = pools_of v w)"

lemma same_doomed: "same w s \<Longrightarrow> doomed i (lb_keys v w) (lns_of v w) (pools_of v w) s"
  unfolding same_def doomed_def by (erule stored_mono) (simp add: shrunk_refl)

lemma triple_find_existing:
  assumes c: "l_client l = c" and s0: "sane (world s0)"
  shows "triple (\<lambda>s. s = s0) (find_existing l svc)
    (\<lambda>p s. same (world s0) s \<and> (case p of
       None \<Rightarrow> \<forall>lb \<in> set (lbs_of v (world s0)). \<not> candidate l svc lb
     | Some lb \<Rightarrow> lb \<in> set (lbs_of v (world s0)) \<and> candidate l svc lb)) (\<lambda>_. same (world s0))"
proof -
  let ?w = "world s0" let ?lbs = "lbs_of v ?w"
  let ?none = "\<forall>lb \<in> set ?lbs. \<not> candidate l svc lb"
  have same: "same ?w s" if "world s = snd (api_lb_list (Loadbalancers c) ?w)" for s
    using quiet_lbs(1) s0 that unfolding undisturbed_def same_def stored_def by simp
  have list: "triple (\<lambda>s. s = s0) (call k (api_lb_list (Loadbalancers c))) (\<lambda>lbs s. lbs = ?lbs \<and> same ?w s)
      (\<lambda>e s. (errors_Is e ErrNotFound \<longrightarrow> ?none) \<and> same ?w s)" for k
    by (rule triple_call) (use lb_list_all [OF s0] lb_list_error in \<open>force intro!: same\<close>)+
  have pick: "triple (\<lambda>s. lbs = ?lbs \<and> same ?w s) (firstM (filter (live n) lbs))
      (\<lambda>lb s. (lb \<in> set ?lbs \<and> candidate l svc lb) \<and> same ?w s) (\<lambda>e s. (errors_Is e ErrNotFound \<longrightarrow> ?none) \<and> same ?w s)"
    if "n \<in> {lb_name l svc, lb_legacy_name l svc}" for n lbs
    by (rule triple_firstM) (use that in \<open>auto simp: candidate_def filter_eq_Cons_iff\<close>)
  have get: "triple (\<lambda>s. s = s0) (getLoadbalancerByName c (lb_name l svc) (lb_legacy_name l svc))
      (\<lambda>lb s. (lb \<in> set ?lbs \<and> candidate l svc lb) \<and> same ?w s) (\<lambda>e s. (errors_Is e ErrNotFound \<longrightarrow> ?none) \<and> same ?w s)"
    unfolding getLoadbalancerByName_def Let_def
    by (rule triple_bindM [OF list], intro triple_if pick triple_failM)
      (auto simp: candidate_def filter_empty_conv)
  show ?thesis
    unfolding find_existing_def c
    by (rule triple_tryM [OF get]) (auto intro!: triple_if triple_retM triple_failM)
qed

lemma EnsureLoadBalancerDeleted_store:
  assumes c: "l_client l = c" and d: "drivers c" and "sane (world s)"
    and run: "EnsureLoadBalancerDeleted l svc s = (r, s')" and "\<forall>p. r \<noteq> Panic p"
  shows "(same (world s) s' \<and> (r = Ok () \<longrightarrow> (\<forall>lb \<in> set (lbs_of v (world s)). \<not> candidate l svc lb))) \<or>
    (\<exists>lb \<in> set (lbs_of v (world s)). candidate l svc lb \<and>
      deleted (lb_ID lb) (lb_keys v (world s)) (lns_of v (world s)) (pools_of v (world s)) (r = Ok ()) s')"
proof -
  let ?w = "world s" let ?none = "\<forall>lb \<in> set (lbs_of v ?w). \<not> candidate l svc lb"
  let ?del = "\<lambda>lb b s'. deleted (lb_ID lb) (lb_keys v ?w) (lns_of v ?w) (pools_of v ?w) b s'"
  let ?Q = "\<lambda>b s'. (same ?w s' \<and> (b \<longrightarrow> ?none)) \<or> (\<exists>lb \<in> set (lbs_of v ?w). candidate l svc lb \<and> ?del lb b s')"
  have parts: "triple (same ?w) (delete_parts l svc lb) (\<lambda>_. ?del lb True) (\<lambda>_. ?del lb False)" for lb
    by (rule triple_pre [OF deleted_parts [OF c d]]) (rule same_doomed)
  have find: "triple (\<lambda>t. t = s) (find_existing l svc)
      (\<lambda>p s. same ?w s \<and> (case p of None \<Rightarrow> ?none | Some lb \<Rightarrow> lb \<in> set (lbs_of v ?w) \<and> candidate l svc lb)) (\<lambda>_. ?Q False)"
    by (rule triple_weaken [OF triple_find_existing [OF c assms(3)]]) auto
  have "triple (\<lambda>t. t = s) (EnsureLoadBalancerDeleted l svc) (\<lambda>_. ?Q True) (\<lambda>_. ?Q False)"
    unfolding EnsureLoadBalancerDeleted_parts
  proof (rule triple_bindM [OF find])
    fix p
    show "triple (\<lambda>s. same ?w s \<and> (case p of None \<Rightarrow> ?none | Some lb \<Rightarrow> lb \<in> set (lbs_of v ?w) \<and> candidate l svc lb))
        (case p of None \<Rightarrow> retM () | Some lb \<Rightarrow> delete_parts l svc lb) (\<lambda>_. ?Q True) (\<lambda>_. ?Q False)"
    proof (cases p)
      case None
      then show ?thesis by (auto intro!: triple_retM)
    next
      case (Some lb)
      have "triple (\<lambda>s. (lb \<in> set (lbs_of v ?w) \<and> candidate l svc lb) \<and> same ?w s) (delete_parts l svc lb) (\<lambda>_. ?Q True) (\<lambda>_. ?Q False)"
        by (rule triple_pure, rule triple_weaken [OF parts]) blast+
      then show ?thesis by (simp add: Some conj_commute)
    qed
  qed
  with run assms(5) show ?thesis by (cases r) (auto dest: tripleD)
qed

lemma EnsureLoadBalancerDeleted_spares:
  assumes "l_client l = c" "drivers c" "sane (world s)" "EnsureLoadBalancerDeleted l svc s = (r, s')" "\<forall>p. r \<noteq> Panic p"
  shows "sane (world s') \<and>
    (lb_keys v (world s') = lb_keys v (world s) \<and> lns_of v (world s') = lns_of v (world s) \<and> pools_of v (world s') = pools_of v (world s) \<and>
       (r = Ok () \<longrightarrow> (\<forall>lb \<in> set (lbs_of v (world s)). \<not> candidate l svc lb)) \<or>
     (\<exists>lb \<in> set (lbs_of v (world s)). candidate l svc lb \<and>
       spared (lb_ID lb) (lns_of v (world s)) (pools_of v (world s)) (lns_of v (world s')) (pools_of v (world s')) \<and>
       lb_keys v (world s') \<in> {lb_keys v (world s), without (lb_ID lb) (lb_keys v (world s))} \<and>
       (r = Ok () \<longrightarrow> lb_keys v (world s') = without (lb_ID lb) (lb_keys v (world s)))))"
  using EnsureLoadBalancerDeleted_store [OF assms]
proof (elim disjE bexE conjE)
  fix lb
  assume lb: "lb \<in> set (lbs_of v (world s))" "candidate l svc lb"
    and del: "deleted (lb_ID lb) (lb_keys v (world s)) (lns_of v (world s)) (pools_of v (world s)) (r = Ok ()) s'"
  have "sane (world s') \<and>
      spared (lb_ID lb) (lns_of v (world s)) (pools_of v (world s)) (lns_of v (world s')) (pools_of v (world s')) \<and>
      lb_keys v (world s') \<in> {lb_keys v (world s), without (lb_ID lb) (lb_keys v (world s))} \<and>
      (r = Ok () \<longrightarrow> lb_keys v (world s') = without (lb_ID lb) (lb_keys v (world s)))"
    using del unfolding deleted_def stored_def by (simp split: if_splits)
  with lb show ?thesis by blast
qed (simp add: same_def stored_def)

end

end
