(* ===== verification/Totals.thy ===== *)
theory Totals
  imports StoreDelete
begin

text \<open>
  Total correctness on the store. \<open>delivers P m Q\<close> says that from a state with \<open>P\<close> the program \<open>m\<close> returns a value,
  without an error or a panic, in a state with \<open>Q\<close>. The locale \<open>prompt_store\<close> is a store that carries out
  every request that makes sense, and whose load balancers become ACTIVE within the reads of a wait; on it
  \<open>EnsureLoadBalancer\<close> succeeds.
\<close>

section \<open>Total triples\<close>

definition delivers :: "('s \<Rightarrow> bool) \<Rightarrow> ('s, 'a) prog \<Rightarrow> ('a \<Rightarrow> 's \<Rightarrow> bool) \<Rightarrow> bool" where
  "delivers P m Q \<longleftrightarrow> (\<forall>s. P s \<longrightarrow> (\<exists>x s'. m s = (Ok x, s') \<and> Q x s'))"

lemma totalD: "delivers P m Q \<Longrightarrow> P s \<Longrightarrow> \<exists>x s'. m s = (Ok x, s') \<and> Q x s'"
  by (simp add: delivers_def)

lemma delivers_weaken: "delivers P' m Q' \<Longrightarrow> (\<And>s. P s \<Longrightarrow> P' s) \<Longrightarrow> (\<And>x s. Q' x s \<Longrightarrow> Q x s) \<Longrightarrow> delivers P m Q"
  unfolding delivers_def by meson

lemma delivers_pre: "delivers P' m Q \<Longrightarrow> (\<And>s. P s \<Longrightarrow> P' s) \<Longrightarrow> delivers P m Q"
  by (erule delivers_weaken)

lemma delivers_post: "delivers P m Q' \<Longrightarrow> (\<And>x s. Q' x s \<Longrightarrow> Q x s) \<Longrightarrow> delivers P m Q"
  by (erule delivers_weaken)

text \<open>What a triple says of the state, for a program that returns.\<close>

lemma delivers_triple: "triple P m Q E \<Longrightarrow> delivers P m R \<Longrightarrow> delivers P m Q"
  unfolding delivers_def by (metis tripleD(1))

lemma delivers_both: "delivers P m Q \<Longrightarrow> triple P m R E \<Longrightarrow> delivers P m (\<lambda>x s. Q x s \<and> R x s)"
  unfolding delivers_def by (metis tripleD(1))

lemma delivers_retM: "(\<And>s. P s \<Longrightarrow> Q x s) \<Longrightarrow> delivers P (retM x) Q"
  by (simp add: delivers_def retM_def)

lemma delivers_liftM: "(\<And>s. P s \<Longrightarrow> \<exists>x. r = Ok x \<and> Q x s) \<Longrightarrow> delivers P (liftM r) Q"
  by (auto simp: delivers_def liftM_def)

lemma delivers_bindM:
  assumes "delivers P m R" "\<And>x. delivers (R x) (k x) Q"
  shows "delivers P (bindM m k) Q"
  unfolding delivers_def
proof (intro allI impI)
  fix s assume "P s"
  from totalD [OF assms(1) this] obtain x s1 where 1: "m s = (Ok x, s1)" "R x s1" by blast
  from totalD [OF assms(2) 1(2)] 1(1) show "\<exists>y s'. bindM m k s = (Ok y, s') \<and> Q y s'" by (simp add: bindM_def)
qed

lemma delivers_tryM:
  assumes "delivers P m R" "\<And>x. delivers (R x) (k x) Q"
  shows "delivers P (tryM m h k) Q"
  unfolding delivers_def
proof (intro allI impI)
  fix s assume "P s"
  from totalD [OF assms(1) this] obtain x s1 where 1: "m s = (Ok x, s1)" "R x s1" by blast
  from totalD [OF assms(2) 1(2)] 1(1) show "\<exists>y s'. tryM m h k s = (Ok y, s') \<and> Q y s'" by (simp add: tryM_def)
qed

lemma delivers_wrapM: "delivers P m Q \<Longrightarrow> delivers P (wrapM f m) Q"
  unfolding delivers_def by (fastforce simp: wrapM_def)

lemma delivers_if: "(b \<Longrightarrow> delivers P m Q) \<Longrightarrow> (\<not> b \<Longrightarrow> delivers P m' Q) \<Longrightarrow> delivers P (if b then m else m') Q"
  by simp

lemma delivers_firstM: "(\<And>s. P s \<Longrightarrow> \<exists>x ys. xs = x # ys \<and> Q x s) \<Longrightarrow> delivers P (firstM xs) Q"
  by (cases xs) (auto simp: delivers_def retM_def)

lemma delivers_derefM: "(\<And>s. P s \<Longrightarrow> \<exists>x. p = Some x \<and> Q x s) \<Longrightarrow> delivers P (derefM p) Q"
  by (cases p) (auto simp: delivers_def retM_def)

lemma delivers_pure: "(A \<Longrightarrow> delivers P m Q) \<Longrightarrow> delivers (\<lambda>s. A \<and> P s) m Q"
  by (simp add: delivers_def)

lemma delivers_fact: "(A \<Longrightarrow> delivers P m Q) \<Longrightarrow> (\<And>s. P s \<Longrightarrow> A) \<Longrightarrow> delivers P m Q"
  by (auto simp: delivers_def)

lemma delivers_foldM:
  assumes "\<And>done x rest a. xs = done @ x # rest \<Longrightarrow> delivers (I done a) (f x a) (I (done @ [x]))"
  shows "delivers (I [] acc) (foldM f xs acc) (I xs)"
proof -
  have "delivers (I done a) (foldM f rest a) (I xs)" if "xs = done @ rest" for rest "done" a
    using that
  proof (induction rest arbitrary: "done" a)
    case Nil
    then show ?case by (auto intro: delivers_retM)
  next
    case (Cons x rest)
    from Cons.prems have "xs = (done @ [x]) @ rest" by simp
    from delivers_bindM [OF assms [OF Cons.prems] Cons.IH [OF this]] show ?case by simp
  qed
  from this [of "[]"] show ?thesis by simp
qed

section \<open>A store that carries out every request\<close>

definition succeeds :: "('w, 'a) ext \<Rightarrow> 'w \<Rightarrow> bool" where
  "succeeds f w \<longleftrightarrow> (\<exists>x w'. f w = (Ok x, w'))"

text \<open>The state of a load balancer becomes ACTIVE, without an error in between, within \<open>N\<close> reads.\<close>

definition becomes_active :: "nat \<Rightarrow> ('w, loadbalancer) ext \<Rightarrow> 'w \<Rightarrow> bool" where
  "becomes_active N get w \<longleftrightarrow> (\<exists>n lb ws. n < N \<and> ws 0 = w \<and> (\<forall>k \<le> n. get (ws k) = (Ok (lb k), ws (Suc k))) \<and>
     (\<forall>k < n. lb_ProvisioningStatus (lb k) \<notin> {''ACTIVE'', ''ERROR''}) \<and> lb_ProvisioningStatus (lb n) = ''ACTIVE'')"

lemma exact_is_polling: "exact_polling d \<Longrightarrow> polling d"
  unfolding exact_polling_def polling_def by blast

locale prompt_store = store c v sane for c :: "'w client" and v and sane +
  assumes exact: "exact_polling (ExponentialBackoff c)" "exact_polling (ExponentialBackoffWithContext c)"
    and lbs_listed: "sane w \<Longrightarrow> \<exists>w'. api_lb_list (Loadbalancers c) w = (Ok (lbs_of v w), w')"
    and lb_active: "sane w \<Longrightarrow> i \<in> lb_ID ` set (lbs_of v w) \<Longrightarrow> becomes_active 19 (api_lb_get (Loadbalancers c) i) w"
    and lb_created: "sane w \<Longrightarrow> succeeds (api_lb_create (Loadbalancers c) req) w"
    and listeners_listed: "sane w \<Longrightarrow> i \<in> lb_ID ` set (lbs_of v w) \<Longrightarrow> succeeds (api_listener_list (Loadbalancers c) i) w"
    and listener_read: "sane w \<Longrightarrow> j \<in> ln_ID ` set (lns_of v w i) \<Longrightarrow> succeeds (api_listener_get (Loadbalancers c) j) w"
    and listener_created: "sane w \<Longrightarrow> lnc_LoadbalancerID lreq \<in> lb_ID ` set (lbs_of v w) \<Longrightarrow>
      succeeds (api_listener_create (Loadbalancers c) lreq) w"
    and listener_updated: "sane w \<Longrightarrow> j \<in> ln_ID ` set (lns_of v w i) \<Longrightarrow> succeeds (api_listener_update (Loadbalancers c) j upd) w"
    and listener_deleted: "sane w \<Longrightarrow> j \<in> ln_ID ` set (lns_of v w i) \<Longrightarrow>
      \<exists>t w'. api_listener_delete (Loadbalancers c) j w = (Ok t, w') \<and> (\<forall>i. j \<notin> ln_ID ` set (lns_of v w' i))"
    and listener_gone: "sane w \<Longrightarrow> \<forall>i. j \<notin> ln_ID ` set (lns_of v w i) \<Longrightarrow>
      \<exists>w'. api_listener_exists (Loadbalancers c) j w = (Ok False, w')"
    and pools_listed: "sane w \<Longrightarrow> i \<in> lb_ID ` set (lbs_of v w) \<Longrightarrow>
      succeeds (api_pool_list (Pools c) \<lparr>pl_LoadbalancerID = i, pl_ListenerID = [], pl_Details = True\<rparr>) w"
    and pool_read: "sane w \<Longrightarrow> j \<in> pool_ID ` set (pools_of v w i) \<Longrightarrow> \<exists>p w'. api_pool_get (Pools c) j w = (Ok (Some p), w')"
    and pool_created: "sane w \<Longrightarrow> pc_ListenerID preq \<in> ln_ID ` set (lns_of v w i) \<Longrightarrow> succeeds (api_pool_create (Pools c) preq) w"
    and pool_updated: "sane w \<Longrightarrow> j \<in> pool_ID ` set (pools_of v w i) \<Longrightarrow>
      \<exists>w'. api_pool_update (Pools c) j pupd w = (Ok (), w') \<and>
        (\<forall>i. \<forall>p \<in> set (pools_of v w' i). pool_ID p = j \<longrightarrow> \<not> membersChanged (pool_Members p) (pu_Members pupd))"
    and pool_deleted: "sane w \<Longrightarrow> j \<in> pool_ID ` set (pools_of v w i) \<Longrightarrow>
      \<exists>t w'. api_pool_delete (Pools c) j w = (Ok t, w') \<and> (\<forall>i. j \<notin> pool_ID ` set (pools_of v w' i))"
    and pool_gone: "sane w \<Longrightarrow> \<forall>i. j \<notin> pool_ID ` set (pools_of v w i) \<Longrightarrow> \<exists>w'. api_pool_exists (Pools c) j w = (Ok False, w')"
begin

lemma prompt_drivers: "drivers c"
  unfolding drivers_def by (intro conjI exact [THEN exact_is_polling])

abbreviation there :: "loadbalancer \<Rightarrow> 'w st \<Rightarrow> bool" where
  "there lb \<equiv> holds lb (\<lambda>_ _. True)"

abbreviation returns :: "('w st \<Rightarrow> bool) \<Rightarrow> ('w st, 'a) prog \<Rightarrow> bool" where
  "returns P m \<equiv> delivers P m (\<lambda>_ _. True)"

lemma holds_there: "holds lb J s \<Longrightarrow> there lb s"
  by (simp add: holds_def)

lemma holds_lb: "holds lb J s \<Longrightarrow> sane (world s) \<and> lb_ID lb \<in> lb_ID ` set (lbs_of v (world s))"
  by (force simp: holds_def lb_keys_def lb_key_def)

lemma returns_call: "(\<And>s. P s \<Longrightarrow> succeeds f (world s)) \<Longrightarrow> returns P (call k f)"
  by (fastforce simp: delivers_def call_def succeeds_def)

section \<open>Waiting\<close>

lemma returns_get: "returns (there lb) (lb_get c (lb_ID lb))"
  unfolding lb_get_def
proof (rule returns_call)
  fix s assume "there lb s"
  from holds_lb [OF this] have "becomes_active 19 (api_lb_get (Loadbalancers c) (lb_ID lb)) (world s)" by (blast intro: lb_active)
  then show "succeeds (api_lb_get (Loadbalancers c) (lb_ID lb)) (world s)"
    unfolding becomes_active_def succeeds_def by (metis zero_le)
qed

lemma wait_status_returns:
  assumes "there lb s"
  shows "\<exists>s'. waitLoadbalancerActiveProvisioningStatus c (lb_ID lb) s = (Ok (''ACTIVE'', None), s')"
proof -
  let ?i = "lb_ID lb"
  from holds_lb [OF assms] have "becomes_active 19 (api_lb_get (Loadbalancers c) ?i) (world s)" by (blast intro: lb_active)
  then obtain n b ws where n: "n < 19" "ws 0 = world s"
    and get: "\<And>k. k \<le> n \<Longrightarrow> api_lb_get (Loadbalancers c) ?i (ws k) = (Ok (b k), ws (Suc k))"
    and status: "\<And>k. k < n \<Longrightarrow> lb_ProvisioningStatus (b k) \<notin> {''ACTIVE'', ''ERROR''}" "lb_ProvisioningStatus (b n) = ''ACTIVE''"
    unfolding becomes_active_def by blast
  define \<sigma> where "\<sigma> k = s\<lparr>world := ws k, calls := calls s @ map (\<lambda>j. LB (Loadbalancers_Get ?i (Ok (b j)))) [0..<k]\<rparr>" for k
  have "lb_get c ?i (\<sigma> k) = (Ok (b k), \<sigma> (Suc k))" if "k \<le> n" for k
    using get [OF that] by (simp add: lb_get_def call_def \<sigma>_def)
  from wait_active_converges [where s = \<sigma>, OF exact(1) n(1) this status]
  show ?thesis by (auto simp: \<sigma>_def n(2))
qed

lemma delivers_wait:
  "delivers (holds lb J) (wait_active c (lb_ID lb)) (\<lambda>_. holds lb J)"
  "delivers (holds lb J) (wait_phase c (lb_ID lb) after) (\<lambda>_. holds lb J)"
proof -
  note calm = calm_step [OF calm_wait(1) [OF exact(1) [THEN exact_is_polling]]]
    calm_step [OF calm_wait(2) [OF exact(1) [THEN exact_is_polling]]]
  have "returns (holds lb J) (wait_active c (lb_ID lb))"
    unfolding delivers_def wait_active_def using wait_status_returns [OF holds_there]
    by (fastforce simp: bindM_def retM_def)
  with calm(1) show "delivers (holds lb J) (wait_active c (lb_ID lb)) (\<lambda>_. holds lb J)" by (rule delivers_triple)
  have "returns (holds lb J) (wait_phase c (lb_ID lb) after)"
    unfolding delivers_def wait_phase_def using wait_status_returns [OF holds_there]
    by (fastforce simp: bindM_def retM_def)
  with calm(2) show "delivers (holds lb J) (wait_phase c (lb_ID lb) after) (\<lambda>_. holds lb J)" by (rule delivers_triple)
qed

text \<open>A retried operation that succeeds at once.\<close>

lemma returns_retry:
  assumes "delivers (holds lb J) op (\<lambda>_. there lb)"
  shows "returns (holds lb J) (runLBOperationWithRetry c (lb_ID lb) opName rid op)"
  unfolding delivers_def
proof (intro allI impI)
  fix s assume "holds lb J s"
  from totalD [OF delivers_wait(1) this] obtain t where t: "wait_active c (lb_ID lb) s = (Ok (), t)" "holds lb J t" by auto
  from totalD [OF assms t(2)] obtain u where u: "op t = (Ok (), u)" "there lb u" by auto
  from totalD [OF delivers_wait(1) u(2)] obtain u' where u': "wait_active c (lb_ID lb) u = (Ok (), u')" by auto
  have "runLBOperationWithRetry c (lb_ID lb) opName rid op s = (Ok (), u')"
    by (rule retry_reaches [where n = 0 and s = "\<lambda>_. s" and t = "\<lambda>_. t" and u = u, OF exact(2)]) (use t(1) u(1) u' in simp_all)
  then show "\<exists>x s'. runLBOperationWithRetry c (lb_ID lb) opName rid op s = (Ok x, s') \<and> True" by simp
qed

end

end
