(* ===== verification/Success.thy ===== *)
theory Success
  imports Totals
begin

text \<open>
  \<open>EnsureLoadBalancer\<close> succeeds on a prompt store: each phase returns a value. What the phases make of the store
  is known already (\<open>StoreListeners\<close> to \<open>StoreCleanup\<close>); here every request is one that the store carries out.
\<close>

context prompt_store
begin

section \<open>Listeners\<close>

lemma returns_listener_get:
  assumes "\<And>ks ps. J ks ps \<Longrightarrow> j \<in> fst ` set ks"
  shows "returns (holds lb J) (listener_get c j)"
  unfolding listener_get_def
proof (rule returns_call)
  fix s assume "holds lb J s"
  then have "sane (world s)" "J (keys_at lb (world s)) (pools_at lb (world s))" by (simp_all add: holds_def)
  with assms [OF this(2)] show "succeeds (api_listener_get (Loadbalancers c) j) (world s)"
    by (intro listener_read) (force simp: ln_key_def)+
qed

lemma delivers_read_back:
  "delivers (holds lb (\<lambda>ks ps. I ks \<and> listener_for opts sp j ks)) (listener_get c j)
    (\<lambda>ln. holds lb (\<lambda>ks ps. I ks \<and> ln_ID ln = j \<and> listener_for opts sp (ln_ID ln) ks \<and>
      serves opts sp (ln_key ln) \<and> ln_key ln \<in> set ks))"
  by (rule delivers_triple [OF triple_read_back returns_listener_get]) (auto simp: listener_for_def)

lemma returns_create_listener:
  assumes c: "l_client l = c"
  shows "returns (holds lb (\<lambda>ks ps. listeners_upto opts existing done result used [] ks))
    (createListener l (buildListenerCreateRequest (lb_ID lb) (lb_Name lb) sp opts))"
  unfolding createListener_def c
proof (rule delivers_bindM [OF delivers_wrapM [OF delivers_triple [OF triple_listener_create returns_call]]])
  fix s assume "holds lb (\<lambda>ks ps. listeners_upto opts existing done result used [] ks) s"
  from holds_lb [OF this] show "succeeds (api_listener_create (Loadbalancers c) (buildListenerCreateRequest (lb_ID lb) (lb_Name lb) sp opts)) (world s)"
    by (intro listener_created) (simp_all add: buildListenerCreateRequest_def Let_def)
next
  fix t :: task_result
  let ?I = "\<lambda>j ks. listeners_upto opts existing done result used [j] ks"
  show "returns (holds lb (\<lambda>ks ps. \<exists>j. task_Listeners t = [j] \<and> ?I j ks \<and> listener_for opts sp j ks))
    (bindM (firstM (task_Listeners t)) (\<lambda>i. wrapM (f i) (listener_get c i)))" for f
  proof (rule delivers_bindM)
    show "delivers (holds lb (\<lambda>ks ps. \<exists>j. task_Listeners t = [j] \<and> ?I j ks \<and> listener_for opts sp j ks)) (firstM (task_Listeners t))
      (\<lambda>j. holds lb (\<lambda>ks ps. ?I j ks \<and> listener_for opts sp j ks))"
      by (rule delivers_firstM) (auto simp: holds_def)
    show "returns (holds lb (\<lambda>ks ps. ?I j ks \<and> listener_for opts sp j ks)) (wrapM (f j) (listener_get c j))" for j
      by (rule delivers_wrapM [OF delivers_post [OF delivers_read_back]]) simp
  qed
qed

lemma returns_update_listener:
  assumes c: "l_client l = c" and ln: "\<And>ks. I ks \<Longrightarrow> ln_key ln \<in> set ks"
  shows "returns (holds lb (\<lambda>ks ps. I ks)) (updateListenerIfNeeded l (lb_ID lb) ln opts)"
proof -
  have upd: "delivers (holds lb (\<lambda>ks ps. I ks)) (call k (api_listener_update (Loadbalancers c) (ln_ID ln) req)) (\<lambda>_. holds lb (\<lambda>ks ps. I ks))" for k req
  proof (rule delivers_triple [OF triple_write returns_call])
    show "sane w' \<and> lb_keys v w' = lb_keys v w \<and> I (keys_at lb w')"
      if "sane w" "api_listener_update (Loadbalancers c) (ln_ID ln) req w = (Ok x, w')" "I (keys_at lb w)" for w x w'
      using that listener_update by (metis unit.exhaust)
    fix s assume "holds lb (\<lambda>ks ps. I ks) s"
    then have "sane (world s)" and "I (keys_at lb (world s))" by (simp_all add: holds_def)
    note this(1) and ln [OF this(2)]
    then show "succeeds (api_listener_update (Loadbalancers c) (ln_ID ln) req) (world s)"
      by (intro listener_updated) (force simp: ln_key_def)+
  qed
  show ?thesis
    unfolding updateListenerIfNeeded_def Let_def c
    by (cases "listener_update ln opts")
      (auto intro!: delivers_if delivers_retM delivers_bindM [OF delivers_wrapM [OF upd]] delivers_wrapM delivers_post [OF delivers_wait(1)])
qed

lemma returns_ensure_listener:
  assumes c: "l_client l = c"
  shows "returns (holds lb (\<lambda>ks ps. listeners_upto opts existing done result used [] ks))
    (ensure_listener l lb existing opts sp (result, used))"
proof -
  let ?J = "\<lambda>ks ps. listeners_upto opts existing done result used [] ks"
  let ?K = "\<lambda>j ks ps. listeners_upto opts existing done result used [j] ks \<and> listener_for opts sp j ks"
  have again: "returns (holds lb (?K j)) (tryM (getListenerByID l j) h retM)" for j h
    unfolding getListenerByID_def c by (rule delivers_tryM [OF delivers_read_back]) (rule delivers_retM, simp)
  show ?thesis
    unfolding ensure_listener_def Let_def prod.case
  proof (rule delivers_bindM)
    show "returns (holds lb ?J) (case findListenerForServicePort existing sp opts of
          None \<Rightarrow>
            bindM (wrapM (Wrapf (''failed to create listener for key='' @ servicePortKey sp @ '': ''))
              (createListener l (buildListenerCreateRequest (lb_ID lb) (lb_Name lb) sp opts))) (\<lambda>ln.
            bindM (wrapM (flatten (''LB not ACTIVE after listener create for key='' @ servicePortKey sp @ '': ''))
              (wait_active (l_client l) (lb_ID lb))) (\<lambda>_.
              tryM (getListenerByID l (ln_ID ln)) (\<lambda>_. panicM ''nil pointer dereference'') retM))
        | Some ln \<Rightarrow>
            bindM (wrapM (Wrapf (''failed updating listener for key='' @ servicePortKey sp @ '': ''))
              (updateListenerIfNeeded l (lb_ID lb) ln opts)) (\<lambda>_.
              tryM (getListenerByID l (ln_ID ln)) (\<lambda>_. panicM ''nil pointer dereference'') retM))"
    proof (cases "findListenerForServicePort existing sp opts")
      case None
      have wait: "delivers (holds lb (?K j)) (wrapM f (wait_active (l_client l) (lb_ID lb))) (\<lambda>_. holds lb (?K j))" for f j
        unfolding c by (rule delivers_wrapM [OF delivers_wait(1)])
      note create = delivers_triple [OF triple_create_listener [OF c] returns_create_listener [OF c]]
      show ?thesis
        unfolding None option.case by (rule delivers_bindM [OF delivers_wrapM [OF create] delivers_bindM [OF wait again]])
    next
      case (Some ln)
      then have ln: "ln \<in> set existing" "serves opts sp (ln_key ln)"
        by (auto simp: findListenerForServicePort_def serves_def ln_key_def dest: find_listener_Some)
      have key: "ln_key ln \<in> set ks" if "listeners_upto opts existing done result used [] ks" for ks
        using that ln(1) by (auto simp: listeners_upto_def)
      have "delivers (holds lb ?J) (updateListenerIfNeeded l (lb_ID lb) ln opts) (\<lambda>_. holds lb ?J)"
        by (rule delivers_triple [OF triple_update_listener [OF c] returns_update_listener [OF c key]])
          (simp_all add: exact(1) [THEN exact_is_polling])
      then have "delivers (holds lb ?J) (updateListenerIfNeeded l (lb_ID lb) ln opts) (\<lambda>_. holds lb (?K (ln_ID ln)))"
        by (rule delivers_post) (erule holds_mono, rule listeners_upto_found [OF _ ln])
      from delivers_bindM [OF delivers_wrapM [OF this] again] show ?thesis unfolding Some option.case .
    qed
  qed (rule delivers_retM, simp)
qed

lemma returns_listeners_phase:
  assumes c: "l_client l = c" and distinct: "distinct (map servicePortKey ports)"
  shows "returns (there lb) (ensureLoadBalancerListeners l lb ports opts)"
proof -
  let ?I = "\<lambda>existing done (result, used). holds lb (\<lambda>ks ps. listeners_upto opts existing done result used [] ks)"
  have list: "delivers (there lb) (getListenersByLoadBalancerID c (lb_ID lb)) (\<lambda>lns. holds lb (\<lambda>ks ps. listeners_upto opts lns [] Map.empty [] [] ks))"
  proof (rule delivers_triple [OF triple_listeners_read])
    show "returns (there lb) (getListenersByLoadBalancerID c (lb_ID lb))"
      unfolding getListenersByLoadBalancerID_def by (rule returns_call) (use holds_lb listeners_listed in blast)
  qed
  have loop: "delivers (?I existing [] (Map.empty, [])) (foldM (ensure_listener l lb existing opts) ports (Map.empty, []))
      (?I existing ports)" for existing
  proof (rule delivers_foldM)
    fix "done" sp rest a
    assume ports: "ports = done @ sp # rest"
    obtain result :: "string \<rightharpoonup> listener" and used :: "string list" where a: "a = (result, used)" by fastforce
    have fresh: "\<forall>sp' \<in> set done. servicePortKey sp' \<noteq> servicePortKey sp"
      using distinct unfolding ports by (auto simp: image_iff)
    show "delivers (?I existing done a) (ensure_listener l lb existing opts sp a) (?I existing (done @ [sp]))"
      unfolding a prod.case
      by (rule delivers_triple [OF triple_ensure_listener [OF c prompt_drivers fresh] returns_ensure_listener [OF c]])
  qed
  show ?thesis
    unfolding ensureLoadBalancerListeners_def c
    by (rule delivers_bindM [OF delivers_wrapM [OF list] delivers_bindM [OF delivers_pre [OF loop]]]) (auto intro: delivers_retM)
qed

section \<open>Pools\<close>

lemma returns_pool_get:
  assumes "\<And>ks ps. J ks ps \<Longrightarrow> j \<in> pool_ID ` set ps"
  shows "delivers (holds lb J) (pool_get c j) (\<lambda>r _. r \<noteq> None)"
  unfolding delivers_def pool_get_def
proof (intro allI impI)
  fix s assume "holds lb J s"
  then have "sane (world s)" "J (keys_at lb (world s)) (pools_at lb (world s))" by (simp_all add: holds_def)
  with assms [OF this(2)] obtain p w' where "api_pool_get (Pools c) j (world s) = (Ok (Some p), w')" using pool_read by blast
  then show "\<exists>x s'. call (\<lambda>_. PL (Pool_Get j)) (api_pool_get (Pools c) j) s = (Ok x, s') \<and> x \<noteq> None"
    by (simp add: call_def)
qed

lemma delivers_create_pool:
  assumes c: "l_client l = c" and A: "\<And>ks. A ks \<Longrightarrow> ln_key ln \<in> set ks"
  shows "delivers (holds lb (\<lambda>ks ps. A ks \<and> pools_upto chosen existing done result used [] ps))
    (createPool l (buildPoolCreateRequest l ln name sp opts)) (\<lambda>r _. r \<noteq> None)"
  unfolding createPool_def c
proof (rule delivers_bindM [OF delivers_wrapM [OF delivers_triple [OF triple_pool_create [OF A] returns_call]]], assumption)
  let ?req = "buildPoolCreateRequest l ln name sp opts"
  fix s assume "holds lb (\<lambda>ks ps. A ks \<and> pools_upto chosen existing done result used [] ps) s"
  then have "sane (world s)" and "A (keys_at lb (world s))" by (simp_all add: holds_def)
  note this(1) and A [OF this(2)]
  then show "succeeds (api_pool_create (Pools c) ?req) (world s)"
    by (intro pool_created) (force simp: ln_key_def buildPoolCreateRequest_def)+
next
  fix t :: task_result
  let ?K = "\<lambda>j ps. pool_for j ln ps \<and> pools_upto chosen existing done result used [j] ps"
  show "delivers (holds lb (\<lambda>ks ps. A ks \<and> (\<exists>j. task_Pools t = [j] \<and> ?K j ps)))
    (bindM (firstM (task_Pools t)) (\<lambda>i. wrapM (f i) (pool_get c i))) (\<lambda>r _. r \<noteq> None)" for f
  proof (rule delivers_bindM)
    show "delivers (holds lb (\<lambda>ks ps. A ks \<and> (\<exists>j. task_Pools t = [j] \<and> ?K j ps))) (firstM (task_Pools t))
      (\<lambda>j. holds lb (\<lambda>ks ps. A ks \<and> ?K j ps))"
      by (rule delivers_firstM) (auto simp: holds_def)
    show "delivers (holds lb (\<lambda>ks ps. A ks \<and> ?K j ps)) (wrapM (f j) (pool_get c j)) (\<lambda>r _. r \<noteq> None)" for j
      by (rule delivers_wrapM [OF returns_pool_get]) (auto simp: pool_for_def)
  qed
qed

lemma returns_ensure_pool:
  assumes c: "l_client l = c"
    and A: "\<And>ks. A ks \<Longrightarrow> \<exists>ln. chosen (servicePortKey sp) = Some ln \<and> ln_key ln \<in> set ks"
  shows "returns (holds lb (\<lambda>ks ps. A ks \<and> pools_upto chosen existing done result used [] ps))
    (ensure_pool l lb chosen opts (pools_by_listener existing) sp (result, used))"
proof (rule delivers_fact [where A = "\<exists>ln. chosen (servicePortKey sp) = Some ln"], elim exE)
  fix ln assume ln: "chosen (servicePortKey sp) = Some ln"
  let ?J = "\<lambda>ks ps. A ks \<and> pools_upto chosen existing done result used [] ps"
  have A': "ln_key ln \<in> set ks" if "A ks" for ks using A [OF that] ln by simp
  note create = delivers_both [OF delivers_create_pool [OF c A'] triple_create_pool [OF c A']]
  have wait: "delivers (\<lambda>s. r \<noteq> None \<and> holds lb R s) (bindM (wrapM f (wait_active c (lb_ID lb))) (\<lambda>_. retM r)) (\<lambda>r _. r \<noteq> None)" for r R f
    by (rule delivers_pure, rule delivers_bindM [OF delivers_wrapM [OF delivers_wait(1)]], rule delivers_retM)
  have pool: "delivers (holds lb ?J) (case pools_by_listener existing (ln_ID ln) of
      Some pool \<Rightarrow> retM (Some pool)
    | None \<Rightarrow>
        bindM (wrapM f (createPool l (buildPoolCreateRequest l ln (lb_Name lb) sp opts))) (\<lambda>pool.
        bindM (wrapM g (wait_active c (lb_ID lb))) (\<lambda>_. retM pool))) (\<lambda>r _. r \<noteq> None)" for f g
  proof (cases "pools_by_listener existing (ln_ID ln)")
    case None
    show ?thesis
      unfolding None option.case by (rule delivers_bindM [OF delivers_wrapM [OF create] wait], assumption+)
  next
    case (Some p)
    show ?thesis unfolding Some option.case by (rule delivers_retM) simp
  qed
  show "returns (holds lb ?J) (ensure_pool l lb chosen opts (pools_by_listener existing) sp (result, used))"
    unfolding ensure_pool_def Let_def prod.case ln option.case c
    by (rule delivers_bindM [OF pool delivers_bindM [OF delivers_derefM delivers_retM]]) auto
qed (use A in \<open>fastforce simp: holds_def\<close>)

lemma returns_pools_phase:
  assumes c: "l_client l = c" and distinct: "distinct (map servicePortKey (svc_Ports svc))"
    and A: "\<And>ks sp. A ks \<Longrightarrow> sp \<in> set (svc_Ports svc) \<Longrightarrow> \<exists>ln. chosen (servicePortKey sp) = Some ln \<and> ln_key ln \<in> set ks"
  shows "returns (holds lb (\<lambda>ks ps. A ks)) (ensureLoadBalancerPools l lb svc chosen opts)"
proof -
  let ?ports = "svc_Ports svc"
  let ?I = "\<lambda>existing done (result, used). holds lb (\<lambda>ks ps. A ks \<and> pools_upto chosen existing done result used [] ps)"
  let ?ones = "\<lambda>existing. (\<forall>p \<in> set existing. length (pool_Listeners p) \<le> 1) \<and> distinct (map pool_ID existing)"
  have list: "delivers (holds lb (\<lambda>ks ps. A ks)) (listPoolsByLoadBalancerID l (lb_ID lb) True)
      (\<lambda>pools. holds lb (\<lambda>ks ps. A ks \<and> ps = pools \<and> ?ones pools))"
  proof (rule delivers_triple [OF triple_pool_list [OF c]])
    show "returns (holds lb (\<lambda>ks ps. A ks)) (listPoolsByLoadBalancerID l (lb_ID lb) True)"
      unfolding listPoolsByLoadBalancerID_def Pools.pool_list_def c
      by (rule returns_call) (use holds_lb pools_listed in blast)
  qed
  have loop: "delivers (?I existing [] (Map.empty, [])) (foldM (ensure_pool l lb chosen opts (pools_by_listener existing)) ?ports (Map.empty, []))
      (?I existing ?ports)" if ones: "?ones existing" for existing
  proof (rule delivers_foldM)
    fix "done" sp rest a
    assume ports: "?ports = done @ sp # rest"
    obtain result :: "string \<rightharpoonup> pool" and used :: "string list" where a: "a = (result, used)" by fastforce
    have fresh: "\<forall>sp' \<in> set done. servicePortKey sp' \<noteq> servicePortKey sp"
      using distinct unfolding ports by (auto simp: image_iff)
    have sp: "sp \<in> set ?ports" unfolding ports by simp
    show "delivers (?I existing done a) (ensure_pool l lb chosen opts (pools_by_listener existing) sp a) (?I existing (done @ [sp]))"
      unfolding a prod.case
    proof (rule delivers_triple)
      show "returns (holds lb (\<lambda>ks ps. A ks \<and> pools_upto chosen existing done result used [] ps))
          (ensure_pool l lb chosen opts (pools_by_listener existing) sp (result, used))"
        by (intro returns_ensure_pool c A sp)
      show "triple (holds lb (\<lambda>ks ps. A ks \<and> pools_upto chosen existing done result used [] ps))
          (ensure_pool l lb chosen opts (pools_by_listener existing) sp (result, used))
          (\<lambda>(result', used'). holds lb (\<lambda>ks ps. A ks \<and> pools_upto chosen existing (done @ [sp]) result' used' [] ps)) any_error"
        by (intro triple_ensure_pool c prompt_drivers conjunct1 [OF ones] fresh A sp)
    qed
  qed
  show ?thesis
    unfolding ensureLoadBalancerPools_def
  proof (rule delivers_bindM [OF delivers_wrapM [OF list]], rule delivers_fact)
    fix existing :: "pool list"
    assume ones: "?ones existing"
    show "returns (holds lb (\<lambda>ks ps. A ks \<and> ps = existing \<and> ?ones existing))
      (bindM (foldM (ensure_pool l lb chosen opts (pools_by_listener existing)) ?ports (Map.empty, [])) (\<lambda>(result, used).
         retM (result, filter (\<lambda>pool. pool_ID pool \<notin> set used) existing)))"
    proof (rule delivers_bindM [OF delivers_pre [OF loop [OF ones]]])
      show "?I existing [] (Map.empty, []) s" if "holds lb (\<lambda>ks ps. A ks \<and> ps = existing \<and> ?ones existing) s" for s
        using that unfolding prod.case by (rule holds_mono) (simp add: pools_upto_def chosen_ids_def)
    qed (auto intro: delivers_retM)
  qed (simp add: holds_def)
qed

end

end
