(* ===== verification/Complete.thy ===== *)
theory Complete
  imports Success
begin

text \<open>
  The second half of a successful run on a prompt store: the members phase and the cleanup return; with the
  phases of \<open>Success\<close> the whole of \<open>EnsureLoadBalancer\<close> returns, and has realised the service.
\<close>

text \<open>No two load balancers share one of the names.\<close>

definition unambiguous :: "string set \<Rightarrow> (string \<times> string) set \<Rightarrow> bool" where
  "unambiguous names L \<longleftrightarrow> (\<forall>a \<in> L. \<forall>b \<in> L. snd a \<in> names \<longrightarrow> snd b = snd a \<longrightarrow> a = b)"

context prompt_store
begin

section \<open>The members phase\<close>

text \<open>An update of the members that goes through leaves the pool with them.\<close>

lemma delivers_update_members:
  assumes c: "l_client l = c"
    and p: "pool_Listeners p = [ln_ID ln]" "chosen (servicePortKey sp) = Some ln" "sp \<in> set ports"
    and apart: "inj_on (\<lambda>k. ln_ID (the (chosen k))) (servicePortKey ` set ports)"
  shows "delivers (holds lb (\<lambda>ks ps. A ks \<and> pools_but chosen ports pools ids sp p ps))
    (updatePoolMembersWithRetry l (lb_ID lb) (pool_ID p) req)
    (\<lambda>_. holds lb (\<lambda>ks ps. (A ks \<and> pools_but chosen ports pools ids sp p ps) \<and>
      (\<forall>q \<in> set ps. pool_ID q = pool_ID p \<longrightarrow> \<not> membersChanged (pool_Members q) (pu_Members req))))"
proof -
  let ?J = "\<lambda>ks ps. A ks \<and> pools_but chosen ports pools ids sp p ps"
  let ?K = "\<lambda>ks ps. ?J ks ps \<and> (\<forall>q \<in> set ps. pool_ID q = pool_ID p \<longrightarrow> \<not> membersChanged (pool_Members q) (pu_Members req))"
  have at: "pool_ID p \<in> pool_ID ` set ps" if "pools_but chosen ports pools ids sp p ps" for ps
    using that by (auto simp: pools_but_def pool_key_eq)
  have op: "triple (holds lb ?J) (call k (api_pool_update (Pools c) (pool_ID p) req)) (\<lambda>_. holds lb ?K) (\<lambda>_. holds lb ?J)" for k
  proof (rule triple_rewrite)
    fix w r w'
    assume run: "sane w" "api_pool_update (Pools c) (pool_ID p) req w = (r, w')" and J: "?J (keys_at lb w) (pools_at lb w)"
    from pools_but_update [OF run conjunct2 [OF J] p apart] conjunct1 [OF J]
    have "sane w' \<and> lb_keys v w' = lb_keys v w \<and> ?J (keys_at lb w') (pools_at lb w')" by simp
    moreover have "\<forall>q \<in> set (pools_at lb w'). pool_ID q = pool_ID p \<longrightarrow> \<not> membersChanged (pool_Members q) (pu_Members req)"
      using pool_updated [OF run(1) at [OF conjunct2 [OF J]], of req] run(2) by auto
    ultimately show "sane w' \<and> lb_keys v w' = lb_keys v w \<and> ?J (keys_at lb w') (pools_at lb w') \<and>
        (\<forall>x. r = Ok x \<longrightarrow> ?K (keys_at lb w') (pools_at lb w'))" by simp
  qed
  have op_returns: "returns (holds lb ?J) (call k (api_pool_update (Pools c) (pool_ID p) req))" for k
  proof (rule returns_call)
    fix s assume "holds lb ?J s"
    then have "sane (world s)" "pools_but chosen ports pools ids sp p (pools_at lb (world s))" by (simp_all add: holds_def)
    from pool_updated [OF this(1) at [OF this(2)], of req]
    show "succeeds (api_pool_update (Pools c) (pool_ID p) req) (world s)" by (auto simp: succeeds_def)
  qed
  show ?thesis
    unfolding updatePoolMembersWithRetry_def c
  proof (rule delivers_triple [OF retry_triple [OF prompt_drivers op]])
    show "returns (holds lb ?J) (runLBOperationWithRetry c (lb_ID lb) opName rid
        (call k (api_pool_update (Pools c) (pool_ID p) req)))" for opName rid k
      by (rule returns_retry, rule delivers_post [OF delivers_triple [OF op op_returns]], rule holds_there)
  qed simp
qed

text \<open>Then the wait ends at its first read, without an error.\<close>

lemma delivers_members_applied:
  assumes c: "l_client l = c" and at: "\<And>ks ps. J ks ps \<Longrightarrow> pool_ID p \<in> pool_ID ` set ps"
    and members: "\<And>ks ps q. J ks ps \<Longrightarrow> q \<in> set ps \<Longrightarrow> pool_ID q = pool_ID p \<Longrightarrow> \<not> membersChanged (pool_Members q) desired"
  shows "delivers (holds lb J) (waitPoolMembersApplied l (lb_ID lb) (pool_ID p) desired) (\<lambda>(_, err) _. err = None)"
  unfolding delivers_def
proof (intro allI impI)
  fix s assume s: "holds lb J s"
  from totalD [OF delivers_wait(1) s] obtain t where t: "wait_active c (lb_ID lb) s = (Ok (), t)" "holds lb J t" by auto
  have "triple (holds lb J) (pool_get c (pool_ID p))
      (\<lambda>r. holds lb (\<lambda>ks ps. J ks ps \<and> (\<forall>q. r = Some q \<longrightarrow> q \<in> set ps \<and> pool_ID q = pool_ID p \<and> True))) (\<lambda>_. holds lb J)"
    by (rule triple_pool_get) (use at in fastforce)
  from delivers_both [OF returns_pool_get this] have "delivers (holds lb J) (pool_get c (pool_ID p))
      (\<lambda>r s. r \<noteq> None \<and> holds lb (\<lambda>ks ps. J ks ps \<and> (\<forall>q. r = Some q \<longrightarrow> q \<in> set ps \<and> pool_ID q = pool_ID p \<and> True)) s)"
    using at by blast
  from totalD [OF this t(2)] obtain r u
    where u: "pool_get c (pool_ID p) t = (Ok r, u)" "r \<noteq> None"
      and r: "holds lb (\<lambda>ks ps. J ks ps \<and> (\<forall>q. r = Some q \<longrightarrow> q \<in> set ps \<and> pool_ID q = pool_ID p \<and> True)) u" by blast
  then obtain q where q: "r = Some q" by blast
  from r have "\<not> membersChanged (pool_Members q) desired" unfolding holds_def q using members by blast
  with t(1) u(1) have "applied_cond c (lb_ID lb) (pool_ID p) desired (s, no_vars) = (Ok True, (u, no_vars\<lparr>v_lastPool := Some q\<rparr>))"
    by (simp add: applied_cond_def tryM_def lift_st_def assign_def bindM_def retM_def q)
  then have "poll 6 wait_timeout (applied_cond c (lb_ID lb) (pool_ID p) desired) (s, no_vars) =
      (Ok (), (u, no_vars\<lparr>v_lastPool := Some q\<rparr>))" by (simp add: numeral_eq_Suc)
  then show "\<exists>x s'. waitPoolMembersApplied l (lb_ID lb) (pool_ID p) desired s = (Ok x, s') \<and>
      (case x of (_, err) \<Rightarrow> \<lambda>_. err = None) s'"
    by (simp add: waitPoolMembersApplied_def c exact_polling.drive_exact [OF exact(2)] retry_backoff_def
        bindM_def run_closure_def retM_def)
qed

lemma returns_reconcile_port:
  assumes c: "l_client l = c" and sp: "sp \<in> set ports" "sp_NodePort sp \<noteq> 0"
    and apart: "inj_on (\<lambda>k. ln_ID (the (chosen k))) (servicePortKey ` set ports)"
  shows "returns (holds lb (\<lambda>ks ps. A ks \<and> (\<forall>sp \<in> set ports. port_pool chosen pools ps sp) \<and> pool_ID ` set ps = ids))
    (reconcile_port l lb opts ips sp pools)"
proof -
  let ?P = "\<lambda>ks ps. A ks \<and> (\<forall>sp \<in> set ports. port_pool chosen pools ps sp) \<and> pool_ID ` set ps = ids"
  let ?want = "desired_members opts sp ips"
  show ?thesis
  proof (rule delivers_fact [where A = "\<exists>p ln. pools (servicePortKey sp) = Some p \<and> chosen (servicePortKey sp) = Some ln \<and>
        pool_Listeners p = [ln_ID ln]"], elim exE conjE)
    fix p ln
    assume p: "pools (servicePortKey sp) = Some p" and ln: "chosen (servicePortKey sp) = Some ln" "pool_Listeners p = [ln_ID ln]"
    let ?J = "\<lambda>ks ps. A ks \<and> pools_but chosen ports pools ids sp p ps"
    let ?K = "\<lambda>ks ps. ?J ks ps \<and> (\<forall>q \<in> set ps. pool_ID q = pool_ID p \<longrightarrow> \<not> membersChanged (pool_Members q) ?want)"
    have start: "?J ks ps" if P: "?P ks ps" for ks ps
    proof -
      from P sp(1) p have "p \<in> set ps" by (auto simp: port_pool_def)
      with P show ?thesis by (simp add: pools_but_def)
    qed
    have update: "delivers (holds lb ?P) (updatePoolMembersWithRetry l (lb_ID lb) (pool_ID p) (update_request p ?want)) (\<lambda>_. holds lb ?K)"
      by (rule delivers_pre, rule delivers_update_members [OF c ln(2,1) sp(1) apart, where req = "update_request p ?want",
            unfolded update_request_def pool_update_request.simps, folded update_request_def])
        (erule holds_mono, erule start)
    have wait: "delivers (holds lb ?K) (waitPoolMembersApplied l (lb_ID lb) (pool_ID p) ?want) (\<lambda>(_, err) _. err = None)"
      by (rule delivers_members_applied [OF c]) (auto simp: pools_but_def pool_key_eq)
    show "returns (holds lb ?P) (reconcile_port l lb opts ips sp pools)"
      unfolding reconcile_port_def Let_def p option.case
      by (rule delivers_if, simp add: sp(2), rule delivers_if, rule delivers_retM, simp,
          rule delivers_bindM [OF delivers_wrapM [OF update] delivers_bindM [OF wait]])
        (auto simp: delivers_def retM_def split: prod.splits option.splits)
  qed (use sp(1) in \<open>auto simp: holds_def port_pool_def\<close>)
qed

lemma returns_members_phase:
  assumes c: "l_client l = c" and distinct: "distinct (map servicePortKey (svc_Ports svc))"
    and ports: "\<forall>sp \<in> set (svc_Ports svc). sp_NodePort sp \<noteq> 0" and ips: "node_addresses nodes = Ok ips"
    and apart: "inj_on (\<lambda>k. ln_ID (the (chosen k))) (servicePortKey ` set (svc_Ports svc))"
  shows "returns (holds lb (\<lambda>ks ps. A ks \<and> (\<forall>sp \<in> set (svc_Ports svc). port_pool chosen pools ps sp) \<and> pool_ID ` set ps = ids))
    (reconcilePoolMembers l lb svc pools opts nodes)"
proof -
  let ?ports = "svc_Ports svc"
  let ?P = "\<lambda>pools ks ps. A ks \<and> (\<forall>sp \<in> set ?ports. port_pool chosen pools ps sp) \<and> pool_ID ` set ps = ids"
  let ?I = "\<lambda>done pools' s. members_upto opts ips pools ?ports done pools' \<and> holds lb (?P pools') s"
  have "delivers (?I [] pools) (foldM (reconcile_port l lb opts ips) ?ports pools) (?I ?ports)"
  proof (rule delivers_foldM)
    fix "done" sp rest a
    assume split: "?ports = done @ sp # rest"
    have fresh: "\<forall>sp' \<in> set done. servicePortKey sp' \<noteq> servicePortKey sp" using distinct unfolding split by (auto simp: image_iff)
    have sp: "sp \<in> set ?ports" unfolding split by simp
    with ports have node: "sp_NodePort sp \<noteq> 0" by blast
    show "delivers (?I done a) (reconcile_port l lb opts ips sp a) (?I (done @ [sp]))"
    proof (rule delivers_pure, rule delivers_triple)
      assume upto: "members_upto opts ips pools ?ports done a"
      show "triple (holds lb (?P a)) (reconcile_port l lb opts ips sp a) (?I (done @ [sp])) any_error"
        by (intro triple_reconcile_port c prompt_drivers sp fresh apart upto)
      show "returns (holds lb (?P a)) (reconcile_port l lb opts ips sp a)"
        by (intro returns_reconcile_port c sp node apart)
    qed
  qed
  moreover have "reconcilePoolMembers l lb svc pools opts nodes = foldM (reconcile_port l lb opts ips) ?ports pools"
    by (intro ext) (simp add: reconcilePoolMembers_def ips bindM_def liftM_def)
  ultimately have "delivers (?I [] pools) (reconcilePoolMembers l lb svc pools opts nodes) (?I ?ports)" by simp
  then show ?thesis by (rule delivers_weaken) (simp_all add: members_upto_def)
qed

section \<open>The cleanup\<close>

text \<open>The deletion of something that is there succeeds, and the check behind it does not find it any more.\<close>

lemma delivers_deletePool:
  assumes c: "l_client l = c" and at: "\<And>ks ps. J ks ps \<Longrightarrow> j \<in> pool_ID ` set ps"
  shows "delivers (holds lb J) (deletePool l j) (\<lambda>_. there lb)"
  unfolding delivers_def
proof (intro allI impI)
  fix s assume s: "holds lb J s"
  then have w: "sane (world s)" "j \<in> pool_ID ` set (pools_at lb (world s))" using at unfolding holds_def by blast+
  from pool_deleted [OF w] obtain t w1 where del: "api_pool_delete (Pools c) j (world s) = (Ok t, w1)"
    and gone: "\<forall>i. j \<notin> pool_ID ` set (pools_of v w1 i)" by blast
  from pool_delete [OF w(1) del] have w1: "sane w1" "lb_keys v w1 = lb_keys v (world s)" by blast+
  from pool_gone [OF w1(1) gone] obtain w2 where ex: "api_pool_exists (Pools c) j w1 = (Ok False, w2)" by blast
  with quiet_pools(3) [of j] w1 have "sane w2" "lb_keys v w2 = lb_keys v (world s)"
    unfolding undisturbed_def by (metis snd_conv)+
  with s del ex show "\<exists>x s'. deletePool l j s = (Ok x, s') \<and> there lb s'"
    by (simp add: deletePool_def c bindM_def wrapM_def call_def retM_def holds_def)
qed

lemma delivers_deleteListener:
  assumes c: "l_client l = c" and at: "\<And>ks ps. J ks ps \<Longrightarrow> j \<in> fst ` set ks"
  shows "delivers (holds lb J) (deleteListener l j) (\<lambda>_. there lb)"
  unfolding delivers_def
proof (intro allI impI)
  fix s assume s: "holds lb J s"
  then have "sane (world s)" "j \<in> fst ` set (keys_at lb (world s))" using at unfolding holds_def by blast+
  then have w: "sane (world s)" "j \<in> ln_ID ` set (lns_of v (world s) (lb_ID lb))" by (simp_all add: image_image ln_key_def)
  from listener_deleted [OF w] obtain t w1 where del: "api_listener_delete (Loadbalancers c) j (world s) = (Ok t, w1)"
    and gone: "\<forall>i. j \<notin> ln_ID ` set (lns_of v w1 i)" by blast
  from listener_delete [OF w(1) del] have w1: "sane w1" "lb_keys v w1 = lb_keys v (world s)"
    and task: "case task_Listeners t of [] \<Rightarrow> True | k # _ \<Rightarrow> k = j" by (auto split: list.splits)
  from listener_gone [OF w1(1) gone] obtain w2 where ex: "api_listener_exists (Loadbalancers c) j w1 = (Ok False, w2)" by blast
  with quiet_lbs(5) [of j] w1 have "sane w2" "lb_keys v w2 = lb_keys v (world s)"
    unfolding undisturbed_def by (metis snd_conv)+
  with s del ex task w1 show "\<exists>x s'. deleteListener l j s = (Ok x, s') \<and> there lb s'"
    by (cases "task_Listeners t") (simp_all add: deleteListener_def c bindM_def wrapM_def call_def retM_def holds_def)
qed

lemma delivers_delete_pool:
  assumes c: "l_client l = c" and less: "\<And>ks ps. J ks ps \<Longrightarrow> J ks (filter (\<lambda>p. pool_ID p \<noteq> j) ps)"
  shows "delivers (holds lb (\<lambda>ks ps. J ks ps \<and> j \<in> pool_ID ` set ps)) (deletePoolWithRetry l (lb_ID lb) j) (\<lambda>_. holds lb J)"
proof -
  have "returns (holds lb (\<lambda>ks ps. J ks ps \<and> j \<in> pool_ID ` set ps)) (deletePoolWithRetry l (lb_ID lb) j)"
    unfolding deletePoolWithRetry_def c by (rule returns_retry [OF delivers_deletePool [OF c]]) simp
  from delivers_triple [OF triple_pre [OF triple_delete_pool [OF c prompt_drivers, where J = J and j = j]] this] less
  have "delivers (holds lb (\<lambda>ks ps. J ks ps \<and> j \<in> pool_ID ` set ps)) (deletePoolWithRetry l (lb_ID lb) j)
      (\<lambda>_. holds lb (\<lambda>ks ps. J ks ps \<and> j \<notin> pool_ID ` set ps))" using holds_mono by blast
  then show ?thesis by (rule delivers_post) (erule holds_mono, simp)
qed

lemma delivers_delete_listener:
  assumes c: "l_client l = c" and less: "\<And>ks ps. J ks ps \<Longrightarrow> J (filter (\<lambda>k. fst k \<noteq> j) ks) ps"
  shows "delivers (holds lb (\<lambda>ks ps. J ks ps \<and> j \<in> fst ` set ks)) (deleteListenerWithRetry l (lb_ID lb) j) (\<lambda>_. holds lb J)"
proof -
  have "returns (holds lb (\<lambda>ks ps. J ks ps \<and> j \<in> fst ` set ks)) (deleteListenerWithRetry l (lb_ID lb) j)"
    unfolding deleteListenerWithRetry_def c by (rule returns_retry [OF delivers_deleteListener [OF c]]) simp
  from delivers_triple [OF triple_pre [OF triple_delete_listener [OF c prompt_drivers, where J = J and j = j]] this] less
  have "delivers (holds lb (\<lambda>ks ps. J ks ps \<and> j \<in> fst ` set ks)) (deleteListenerWithRetry l (lb_ID lb) j)
      (\<lambda>_. holds lb (\<lambda>ks ps. J ks ps \<and> j \<notin> fst ` set ks))" using holds_mono by blast
  then show ?thesis by (rule delivers_post) (erule holds_mono, simp)
qed

lemma image_without: "f ` set (filter (\<lambda>x. f x \<noteq> j) xs) = f ` set xs - {j}"
  by auto

text \<open>So the cleanup returns when the obsolete pools and listeners are there; what is left to delete stays there.\<close>

lemma delivers_cleanup:
  assumes c: "l_client l = c" and dist: "distinct (map ln_ID obsl)" "distinct (map pool_ID obsp)"
  shows "delivers (holds lb (\<lambda>ks ps. ln_ID ` set obsl \<subseteq> fst ` set ks \<and> pool_ID ` set obsp \<subseteq> pool_ID ` set ps))
    (deleteObsoleteListenersAndPools l lb obsl obsp) (\<lambda>_. there lb)"
proof -
  let ?L = "\<lambda>done ks. ln_ID ` set obsl - ln_ID ` set (done :: listener list) \<subseteq> fst ` set ks"
  let ?P = "\<lambda>done ps. pool_ID ` set obsp - pool_ID ` set (done :: pool list) \<subseteq> pool_ID ` set ps"
  let ?I = "\<lambda>done (_ :: unit). holds lb (\<lambda>ks ps. ?L [] ks \<and> ?P done ps)"
  let ?J = "\<lambda>done (_ :: unit). holds lb (\<lambda>ks ps. ?L done ks)"
  have first: "delivers (?I [] ()) (foldM (\<lambda>pool _. wrapM (g pool) (deletePoolWithRetry l (lb_ID lb) (pool_ID pool))) obsp ()) (?I obsp)" for g
  proof (rule delivers_foldM [where I = ?I])
    fix "done" x rest a
    assume split: "obsp = done @ x # rest"
    then have x: "pool_ID x \<in> pool_ID ` set obsp - pool_ID ` set done" using dist(2) by auto
    have "delivers (holds lb (\<lambda>ks ps. (?L [] ks \<and> ?P (done @ [x]) ps) \<and> pool_ID x \<in> pool_ID ` set ps))
        (deletePoolWithRetry l (lb_ID lb) (pool_ID x)) (?I (done @ [x]))"
      by (rule delivers_delete_pool [OF c]) (simp only: image_without, auto)
    then show "delivers (?I done a) (wrapM (g x) (deletePoolWithRetry l (lb_ID lb) (pool_ID x))) (?I (done @ [x]))"
      by (intro delivers_wrapM) (erule delivers_pre, erule holds_mono, use x in auto)
  qed
  have second: "delivers (?J [] ()) (foldM (\<lambda>ln _. wrapM (g ln) (deleteListenerWithRetry l (lb_ID lb) (ln_ID ln))) obsl ()) (?J obsl)" for g
  proof (rule delivers_foldM [where I = ?J])
    fix "done" x rest a
    assume split: "obsl = done @ x # rest"
    then have x: "ln_ID x \<in> ln_ID ` set obsl - ln_ID ` set done" using dist(1) by auto
    have "delivers (holds lb (\<lambda>ks ps. ?L (done @ [x]) ks \<and> ln_ID x \<in> fst ` set ks))
        (deleteListenerWithRetry l (lb_ID lb) (ln_ID x)) (?J (done @ [x]))"
      by (rule delivers_delete_listener [OF c]) (simp only: image_without, auto)
    then show "delivers (?J done a) (wrapM (g x) (deleteListenerWithRetry l (lb_ID lb) (ln_ID x))) (?J (done @ [x]))"
      by (intro delivers_wrapM) (erule delivers_pre, erule holds_mono, use x in auto)
  qed
  have between: "?J [] () s" if "?I obsp u s" for s u using that by (rule holds_mono) simp
  have "delivers (?I [] ()) (deleteObsoleteListenersAndPools l lb obsl obsp) (?J obsl)"
    unfolding deleteObsoleteListenersAndPools_def
    by (rule delivers_bindM [OF delivers_post [OF first between] second])
  then show ?thesis by (rule delivers_weaken) (simp, erule holds_there)
qed

section \<open>A whole run\<close>

text \<open>The last two parts are only reached by services that are not internal or have managed groups.\<close>

abbreviation alive :: "'w st \<Rightarrow> bool" where
  "alive s \<equiv> sane (world s)"

lemma returns_last_parts:
  assumes c: "l_client l = c"
    and fip: "so_Internal opts \<or> returns alive (ensureServiceFloatingIP l svc lb)"
    and sg: "\<not> so_ManageSecurityGroups opts \<or> returns alive (ensureSecurityGroup c cl svc nodes opts)"
  shows "returns (there lb) (bindM (if \<not> so_Internal opts then ensureServiceFloatingIP l svc lb else retM (lb_VipAddress lb)) (\<lambda>address.
     bindM (if so_ManageSecurityGroups opts then wrapM f (ensureSecurityGroup c cl svc nodes opts) else retM ()) (\<lambda>_.
       retM [ip_string address])))"
proof -
  have alive: "alive s" if "there lb s" for s using that by (simp add: holds_def)
  have "returns (there lb) (if \<not> so_Internal opts then ensureServiceFloatingIP l svc lb else retM (lb_VipAddress lb))"
    by (rule delivers_if, rule delivers_pre [where P' = alive]) (use fip alive in \<open>auto intro: delivers_retM\<close>)
  moreover have "calm (if \<not> so_Internal opts then ensureServiceFloatingIP l svc lb else retM (lb_VipAddress lb))"
    by (intro calm_intros c)
  ultimately have address: "delivers (there lb) (if \<not> so_Internal opts then ensureServiceFloatingIP l svc lb else retM (lb_VipAddress lb)) (\<lambda>_. there lb)"
    by (intro delivers_triple [OF calm_step])
  have "returns (there lb) (if so_ManageSecurityGroups opts then wrapM f (ensureSecurityGroup c cl svc nodes opts) else retM ())"
    by (rule delivers_if, rule delivers_wrapM, rule delivers_pre [where P' = alive]) (use sg alive in \<open>auto intro: delivers_retM\<close>)
  then show ?thesis by (intro delivers_bindM [OF address delivers_bindM]) (auto intro: delivers_retM)
qed

lemma returns_members_parts:
  assumes c: "l_client l = c" and distinct: "distinct (map servicePortKey (svc_Ports svc))"
    and sep: "separate opts (svc_Ports svc)"
    and ports: "\<forall>sp \<in> set (svc_Ports svc). sp_NodePort sp \<noteq> 0" and ips: "node_addresses nodes = Ok ips"
    and fip: "so_Internal opts \<or> returns alive (ensureServiceFloatingIP l svc lb)"
    and sg: "\<not> so_ManageSecurityGroups opts \<or> returns alive (ensureSecurityGroup c cl svc nodes opts)"
  shows "returns (holds lb (\<lambda>ks ps.
      (listeners_chosen opts (svc_Ports svc) chosen ks \<and>
        fst ` set ks = ln_ID ` set obsl \<union> chosen_ids (svc_Ports svc) chosen ln_ID \<and>
        ln_ID ` set obsl \<inter> chosen_ids (svc_Ports svc) chosen ln_ID = {} \<and> distinct (map ln_ID obsl)) \<and>
      (\<forall>sp \<in> set (svc_Ports svc). port_pool chosen pools ps sp) \<and>
      pool_ID ` set ps = pool_ID ` set obsp \<union> chosen_ids (svc_Ports svc) pools pool_ID \<and>
      pool_ID ` set obsp \<inter> chosen_ids (svc_Ports svc) pools pool_ID = {} \<and> distinct (map pool_ID obsp)))
    (bindM (reconcilePoolMembers l lb svc pools opts nodes) (\<lambda>_.
     bindM (deleteObsoleteListenersAndPools l lb obsl obsp) (\<lambda>_.
     bindM (if \<not> so_Internal opts then ensureServiceFloatingIP l svc lb else retM (lb_VipAddress lb)) (\<lambda>address.
     bindM (if so_ManageSecurityGroups opts then wrapM f (ensureSecurityGroup c cl svc nodes opts) else retM ()) (\<lambda>_.
       retM [ip_string address])))))" (is "returns (holds lb ?H) _")
proof (rule delivers_fact [where A = "inj_on (\<lambda>k. ln_ID (the (chosen k))) (servicePortKey ` set (svc_Ports svc)) \<and>
    distinct (map ln_ID obsl) \<and> distinct (map pool_ID obsp)"], elim conjE)
  assume apart: "inj_on (\<lambda>k. ln_ID (the (chosen k))) (servicePortKey ` set (svc_Ports svc))"
    and dist: "distinct (map ln_ID obsl)" "distinct (map pool_ID obsp)"
  let ?A = "\<lambda>ks. ln_ID ` set obsl \<subseteq> fst ` set ks"
  let ?ids = "pool_ID ` set obsp \<union> chosen_ids (svc_Ports svc) pools pool_ID"
  let ?B = "\<lambda>pools ks ps. ?A ks \<and> (\<forall>sp \<in> set (svc_Ports svc). port_pool chosen pools ps sp) \<and> pool_ID ` set ps = ?ids"
  note members = delivers_triple [OF triple_members_phase [OF c prompt_drivers distinct apart, where A = ?A and ids = ?ids]
      returns_members_phase [OF c distinct ports ips apart, where A = ?A and ids = ?ids]]
  have present: "delivers (holds lb (?B pools)) (reconcilePoolMembers l lb svc pools opts nodes)
      (\<lambda>_. holds lb (\<lambda>ks ps. ?A ks \<and> pool_ID ` set obsp \<subseteq> pool_ID ` set ps))"
    by (rule delivers_post [OF members]) (elim exE conjE, erule holds_mono, simp)
  have gone: "delivers (holds lb (\<lambda>ks ps. ?A ks \<and> pool_ID ` set obsp \<subseteq> pool_ID ` set ps))
      (deleteObsoleteListenersAndPools l lb obsl obsp) (\<lambda>_. there lb)"
    by (rule delivers_cleanup [OF c dist])
  show ?thesis
    by (rule delivers_bindM [OF delivers_pre [OF present] delivers_bindM [OF gone returns_last_parts [OF c fip sg]]])
      (erule holds_mono, simp)
next
  fix s
  assume "holds lb ?H s"
  then show "inj_on (\<lambda>k. ln_ID (the (chosen k))) (servicePortKey ` set (svc_Ports svc)) \<and>
      distinct (map ln_ID obsl) \<and> distinct (map pool_ID obsp)"
    using chosen_apart [OF _ _ sep, of "world s" chosen lb] unfolding holds_def by (elim conjE) (intro conjI)
qed

lemma returns_parts:
  assumes c: "l_client l = c" and distinct: "distinct (map servicePortKey (svc_Ports svc))"
    and sep: "separate opts (svc_Ports svc)"
    and ports: "\<forall>sp \<in> set (svc_Ports svc). sp_NodePort sp \<noteq> 0" and ips: "node_addresses nodes = Ok ips"
    and fip: "so_Internal opts \<or> returns alive (ensureServiceFloatingIP l svc lb)"
    and sg: "\<not> so_ManageSecurityGroups opts \<or> returns alive (ensureSecurityGroup c cl svc nodes opts)"
  shows "returns (there lb) (ensure_parts l cl svc nodes opts lb)"
proof -
  note lns = delivers_triple [OF triple_listeners_phase [OF c prompt_drivers distinct] returns_listeners_phase [OF c distinct]]
  have pools: "delivers (holds lb (\<lambda>ks ps. listeners_chosen opts (svc_Ports svc) chosen ks \<and>
        fst ` set ks = ln_ID ` set obsl \<union> chosen_ids (svc_Ports svc) chosen ln_ID \<and>
        ln_ID ` set obsl \<inter> chosen_ids (svc_Ports svc) chosen ln_ID = {} \<and> distinct (map ln_ID obsl)))
      (ensureLoadBalancerPools l lb svc chosen opts)
      (\<lambda>(pools, obsp). holds lb (\<lambda>ks ps.
        (listeners_chosen opts (svc_Ports svc) chosen ks \<and>
          fst ` set ks = ln_ID ` set obsl \<union> chosen_ids (svc_Ports svc) chosen ln_ID \<and>
          ln_ID ` set obsl \<inter> chosen_ids (svc_Ports svc) chosen ln_ID = {} \<and> distinct (map ln_ID obsl)) \<and>
        (\<forall>sp \<in> set (svc_Ports svc). port_pool chosen pools ps sp) \<and>
        pool_ID ` set ps = pool_ID ` set obsp \<union> chosen_ids (svc_Ports svc) pools pool_ID \<and>
        pool_ID ` set obsp \<inter> chosen_ids (svc_Ports svc) pools pool_ID = {} \<and> distinct (map pool_ID obsp)))" for chosen obsl
    by (rule delivers_triple [OF triple_pools_phase [OF c prompt_drivers distinct] returns_pools_phase [OF c distinct]])
      (force simp: listeners_chosen_def)+
  show ?thesis
    unfolding ensure_parts_def c
    by (rule delivers_bindM [OF delivers_wait(2)], rule delivers_bindM [OF lns], clarify,
        rule delivers_bindM [OF delivers_wait(2)], rule delivers_bindM [OF pools],
        clarify, rule delivers_bindM [OF delivers_wait(2)], rule returns_members_parts [OF c distinct sep ports ips fip sg])
qed

text \<open>The load balancer is found, or made.\<close>

lemma one_live:
  assumes "sane w" "unambiguous names (lb_keys v w)" "n \<in> names"
  shows "length (filter (live n) (lbs_of v w)) \<le> 1"
proof -
  let ?xs = "filter (live n) (lbs_of v w)"
  have same: "a = b" if "a \<in> set ?xs" "b \<in> set ?xs" for a b
  proof -
    from that have "lb_key a = lb_key b"
      using assms(2,3) unfolding unambiguous_def lb_keys_def by (auto simp: live_def lb_key_def)
    then have "lb_ID a = lb_ID b" by (simp add: lb_key_def)
    with that show ?thesis using unique [OF assms(1)] by (auto simp: distinct_map inj_on_def)
  qed
  have "distinct ?xs" using unique [OF assms(1)] by (simp add: distinct_map)
  then have "length ?xs = card (set ?xs)" by (simp only: distinct_card)
  also have "\<dots> \<le> 1" using card_le_Suc0_iff_eq [of "set ?xs"] same by (simp only: One_nat_def finite_set) blast
  finally show ?thesis .
qed

lemma get_by_name_returns:
  assumes "sane (world s)" "unambiguous {name, legacy} (lb_keys v (world s))"
  shows "\<exists>s'. (\<exists>lb. getLoadbalancerByName c name legacy s = (Ok lb, s')) \<or>
    getLoadbalancerByName c name legacy s = (Err (Sent ErrNotFound), s')"
proof -
  from lbs_listed [OF assms(1)] obtain w where list: "api_lb_list (Loadbalancers c) (world s) = (Ok (lbs_of v (world s)), w)" by blast
  have one: "\<not> length (filter (live n) (lbs_of v (world s))) > 1" if "n \<in> {name, legacy}" for n
    using one_live [OF assms that] by simp
  show ?thesis
    using one [of name] one [of legacy]
    by (cases "filter (live name) (lbs_of v (world s))"; cases "filter (live legacy) (lbs_of v (world s))")
      (simp_all add: getLoadbalancerByName_def bindM_def call_def list Let_def failM_def retM_def)
qed

lemma returns_create_lb:
  assumes c: "l_client l = c"
  shows "returns alive (createLoadBalancer l name opts)"
  unfolding delivers_def
proof (intro allI impI)
  let ?req = "\<lparr>lbc_Name = name, lbc_Flavor = so_FlavorID opts, lbc_VipNetworkID = so_NetworkID opts, lbc_VipSubnetID = so_SubnetID opts\<rparr>"
  fix s assume s: "alive s"
  from lb_created [OF s, of ?req] obtain t w where w: "api_lb_create (Loadbalancers c) ?req (world s) = (Ok t, w)"
    unfolding succeeds_def by blast
  from lb_create [OF s w] obtain i where i: "sane w" "task_Loadbalancers t = [i]" "(i, name) \<in> lb_keys v w" by auto
  then have "i \<in> lb_ID ` set (lbs_of v w)" by (auto simp: lb_keys_def lb_key_def)
  from lb_active [OF i(1) this] obtain lb w2 where "api_lb_get (Loadbalancers c) i w = (Ok lb, w2)"
    unfolding becomes_active_def by (metis zero_le)
  with w i(2) show "\<exists>x s'. createLoadBalancer l name opts s = (Ok x, s') \<and> True"
    by (simp add: createLoadBalancer_def c Let_def bindM_def wrapM_def call_def lb_get_def retM_def)
qed

lemma find_or_create_returns:
  assumes c: "l_client l = c" and s: "sane (world s)" "unambiguous {lb_name l svc, lb_legacy_name l svc} (lb_keys v (world s))"
  shows "\<exists>lb s'. find_or_create l svc opts s = (Ok lb, s') \<and> lb_Name lb \<in> {lb_name l svc, lb_legacy_name l svc} \<and> there lb s'"
proof -
  have stored: "stored (\<lambda>_ _ _. True) s" using s(1) by (simp add: stored_def)
  from get_by_name_returns [OF s] obtain s1 where
    "(\<exists>lb. getLoadbalancerByName c (lb_name l svc) (lb_legacy_name l svc) s = (Ok lb, s1)) \<or>
      getLoadbalancerByName c (lb_name l svc) (lb_legacy_name l svc) s = (Err (Sent ErrNotFound), s1)" (is "?found \<or> ?none") by blast
  then have "\<exists>lb s'. find_or_create l svc opts s = (Ok lb, s')"
  proof
    assume ?found
    then show ?thesis by (auto simp: find_or_create_def c Let_def tryM_def retM_def)
  next
    assume none: ?none
    from tripleD(2) [OF triple_get_by_name stored none] have "alive s1" by (simp add: stored_def)
    from totalD [OF returns_create_lb [OF c] this] obtain lb s2 where "createLoadBalancer l (lb_name l svc) opts s1 = (Ok lb, s2)" by blast
    with none show ?thesis by (simp add: find_or_create_def c Let_def tryM_def wrapM_def)
  qed
  then obtain lb s' where run: "find_or_create l svc opts s = (Ok lb, s')" by blast
  from tripleD(1) [OF triple_find_or_create [OF c] stored run] run show ?thesis by blast
qed

lemma EnsureLoadBalancer_returns:
  assumes c: "l_client l = c" and s: "sane (world s)" "unambiguous {lb_name l svc, lb_legacy_name l svc} (lb_keys v (world s))"
    and given: "nodes \<noteq> []" "svc_Ports svc \<noteq> []" "distinct (map servicePortKey (svc_Ports svc))"
      "\<forall>sp \<in> set (svc_Ports svc). sp_NodePort sp \<noteq> 0" "node_addresses nodes = Ok ips"
    and opts: "resolveServiceOptions l svc nodes s = (Ok opts, s1)" "separate opts (svc_Ports svc)"
    and fip: "\<And>lb. so_Internal opts \<or> returns alive (ensureServiceFloatingIP l svc lb)"
    and sg: "\<not> so_ManageSecurityGroups opts \<or> returns alive (ensureSecurityGroup c cl svc nodes opts)"
  shows "\<exists>ingress s' lb. EnsureLoadBalancer l cl svc nodes s = (Ok ingress, s') \<and> sane (world s') \<and>
    lb_Name lb \<in> {lb_name l svc, lb_legacy_name l svc} \<and> lb_key lb \<in> lb_keys v (world s') \<and>
    realised opts (svc_Ports svc) ips (lns_of v (world s') (lb_ID lb)) (pools_of v (world s') (lb_ID lb))"
proof -
  let ?same = "stored (\<lambda>L _ _. L = lb_keys v (world s))"
  have "?same s" using s(1) by (simp add: stored_def)
  from tripleD(1) [OF calm_stored [OF calm_resolve [OF c]] this opts(1)]
  have "sane (world s1)" "lb_keys v (world s1) = lb_keys v (world s)" by (simp_all add: stored_def)
  with find_or_create_returns [OF c] s(2) obtain lb s2 where lb: "find_or_create l svc opts s1 = (Ok lb, s2)"
    "lb_Name lb \<in> {lb_name l svc, lb_legacy_name l svc}" "there lb s2" by metis
  from totalD [OF returns_parts [OF c given(3) opts(2) given(4,5) fip sg] lb(3)] obtain ingress s' where
    parts: "ensure_parts l cl svc nodes opts lb s2 = (Ok ingress, s')" by blast
  with opts(1) lb(1) given(1,2) have "EnsureLoadBalancer l cl svc nodes s = (Ok ingress, s')"
    unfolding EnsureLoadBalancer_parts by (simp add: bindM_def)
  with tripleD(1) [OF triple_parts [OF c prompt_drivers given(3) opts(2)] lb(3) parts] lb(2) given(5) show ?thesis by auto
qed

end

end
