(* ===== verification/Removal.thy ===== *)
theory Removal
  imports Complete
begin

text \<open>
  \<open>EnsureLoadBalancerDeleted\<close> succeeds on a store that carries out every request: the listeners go with their
  pools, one by one, then the load balancer. The locale \<open>prompt_deleting\<close> adds the laws for it.
\<close>

section \<open>The laws\<close>

text \<open>No listener has two pools, which the lookup of the pool of a listener would reject.\<close>

definition lonely :: "string set \<Rightarrow> pool list \<Rightarrow> bool" where
  "lonely ids ps \<longleftrightarrow> (\<forall>j \<in> ids. j \<noteq> [] \<and> length (filter (\<lambda>p. j \<in> set (pool_Listeners p)) ps) \<le> 1)"

lemma lonely_filter: "lonely ids ps \<Longrightarrow> lonely ids (filter P ps)"
proof -
  have "length (filter Q (filter P ps)) \<le> length (filter Q ps)" for Q :: "pool \<Rightarrow> bool"
    by (induction ps) auto
  then show "lonely ids ps \<Longrightarrow> lonely ids (filter P ps)" unfolding lonely_def by (meson le_trans)
qed

locale prompt_deleting = prompt_store c v sane + deleting_store c v sane for c :: "'w client" and v and sane +
  assumes pools_of_listener: "sane w \<Longrightarrow> i \<in> lb_ID ` set (lbs_of v w) \<Longrightarrow> j \<noteq> [] \<Longrightarrow>
      \<exists>w'. api_pool_list (Pools c) \<lparr>pl_LoadbalancerID = i, pl_ListenerID = j, pl_Details = False\<rparr> w =
        (Ok (filter (\<lambda>p. j \<in> set (pool_Listeners p)) (pools_of v w i)), w')"
    and lb_deleted: "sane w \<Longrightarrow> i \<in> lb_ID ` set (lbs_of v w) \<Longrightarrow>
      \<exists>t w'. api_lb_delete (Loadbalancers c) i w = (Ok t, w') \<and> i \<notin> lb_ID ` set (lbs_of v w')"
    and lb_gone: "sane w \<Longrightarrow> i \<notin> lb_ID ` set (lbs_of v w) \<Longrightarrow> \<exists>w'. api_lb_exists (Loadbalancers c) i w = (Ok False, w')"
begin

section \<open>A listener and its pool\<close>

lemma delivers_pool_of_listener:
  assumes J: "\<And>ks ps. J ks ps \<Longrightarrow> lonely ids ps" and j: "j \<in> ids"
  shows "delivers (holds lb J) (tryM (getPoolByListenerID c (lb_ID lb) j False)
      (\<lambda>e. if \<not> errors_Is e ErrNotFound then failM (f e) else retM None) (\<lambda>pool. retM (Some pool)))
    (\<lambda>r. holds lb (\<lambda>ks ps. J ks ps \<and> (\<forall>p. r = Some p \<longrightarrow> p \<in> set ps)))"
  unfolding delivers_def
proof (intro allI impI)
  fix s assume s: "holds lb J s"
  let ?o = "\<lparr>pl_LoadbalancerID = lb_ID lb, pl_ListenerID = j, pl_Details = False\<rparr>"
  let ?ps = "filter (\<lambda>p. j \<in> set (pool_Listeners p)) (pools_at lb (world s))"
  from s have "lonely ids (pools_at lb (world s))" unfolding holds_def by (elim conjE) (rule J)
  with j have "j \<noteq> []" and one: "length ?ps \<le> 1" by (simp_all add: lonely_def)
  from pools_of_listener [OF conjunct1 [OF holds_lb [OF s]] conjunct2 [OF holds_lb [OF s]] this(1)]
  obtain w where list: "api_pool_list (Pools c) ?o (world s) = (Ok ?ps, w)" by blast
  from holds_undisturbed [OF quiet_pools(1) list s] have h: "holds lb J (s\<lparr>world := w, calls := es\<rparr>)" for es .
  from quiet_pools(1) [of ?o] list s have w: "pools_of v w = pools_of v (world s)"
    unfolding undisturbed_def holds_def by (metis snd_conv)
  let ?P = "\<lambda>r. holds lb (\<lambda>ks ps. J ks ps \<and> (\<forall>p. r = Some p \<longrightarrow> p \<in> set ps))"
  show "\<exists>r s'. tryM (getPoolByListenerID c (lb_ID lb) j False)
      (\<lambda>e. if \<not> errors_Is e ErrNotFound then failM (f e) else retM None) (\<lambda>pool. retM (Some pool)) s = (Ok r, s') \<and> ?P r s'"
  proof (cases ?ps)
    case Nil
    then show ?thesis using list h
      by (simp add: getPoolByListenerID_def pool_list_def tryM_def bindM_def call_def failM_def retM_def)
  next
    case (Cons p rest)
    then have "?ps = [p]" using one by simp
    moreover from this have "p \<in> set (pools_at lb (world s))" by (metis filter_is_subset list.set_intros(1) subsetD)
    ultimately show ?thesis using list h w
      by (simp add: getPoolByListenerID_def pool_list_def tryM_def bindM_def call_def failM_def retM_def holds_def)
  qed
qed

lemma delivers_ensure_deleted:
  assumes c: "l_client l = c" and J: "\<And>ks ps. J ks ps \<Longrightarrow> lonely ids ps" and j: "ln_ID ln \<in> ids"
    and pools: "\<And>ks ps i. J ks ps \<Longrightarrow> J ks (filter (\<lambda>p. pool_ID p \<noteq> i) ps)"
    and at: "\<And>ks ps. J ks ps \<Longrightarrow> ln_ID ln \<in> fst ` set ks \<and> K ks ps"
    and less: "\<And>ks ps. K ks ps \<Longrightarrow> K (filter (\<lambda>k. fst k \<noteq> ln_ID ln) ks) ps"
  shows "delivers (holds lb J) (ensureListenerDeleted l lb ln) (\<lambda>_. holds lb K)"
proof -
  have pool: "delivers (holds lb (\<lambda>ks ps. J ks ps \<and> (\<forall>p. r = Some p \<longrightarrow> p \<in> set ps)))
      (case r of Some pool \<Rightarrow> wrapM (f pool) (deletePoolWithRetry l (lb_ID lb) (pool_ID pool)) | None \<Rightarrow> retM ())
      (\<lambda>_. holds lb J)" for r f
  proof (cases r)
    case None
    then show ?thesis by (auto intro!: delivers_retM elim!: holds_mono)
  next
    case (Some p)
    have "delivers (holds lb (\<lambda>ks ps. J ks ps \<and> p \<in> set ps)) (deletePoolWithRetry l (lb_ID lb) (pool_ID p)) (\<lambda>_. holds lb J)"
      by (rule delivers_pre [OF delivers_delete_pool [OF c, where J = J]], erule pools, erule holds_mono) auto
    then show ?thesis by (simp add: Some delivers_wrapM)
  qed
  have listener: "delivers (holds lb J) (deleteListenerWithRetry l (lb_ID lb) (ln_ID ln)) (\<lambda>_. holds lb K)"
    by (rule delivers_pre [OF delivers_delete_listener [OF c, where J = K]], erule less, erule holds_mono) (use at in blast)
  show ?thesis
    unfolding ensureListenerDeleted_def c
    by (rule delivers_bindM [OF delivers_pool_of_listener [OF J j]], assumption,
        rule delivers_bindM [OF pool delivers_wrapM [OF listener]])
qed

lemma delivers_all_deleted:
  assumes c: "l_client l = c" and distinct: "distinct (map ln_ID lns)"
  shows "delivers (holds lb (\<lambda>ks ps. ln_ID ` set lns \<subseteq> fst ` set ks \<and> lonely (ln_ID ` set lns) ps))
    (foldM (\<lambda>ln _. ensureListenerDeleted l lb ln) lns ()) (\<lambda>_. there lb)"
proof -
  let ?J = "\<lambda>done ks ps. ln_ID ` set lns - ln_ID ` set (done :: listener list) \<subseteq> fst ` set ks \<and> lonely (ln_ID ` set lns) ps"
  let ?I = "\<lambda>done (_ :: unit). holds lb (?J done)"
  have "delivers (?I [] ()) (foldM (\<lambda>ln _. ensureListenerDeleted l lb ln) lns ()) (?I lns)"
  proof (rule delivers_foldM [where I = ?I])
    fix "done" ln rest a
    assume split: "lns = done @ ln # rest"
    then have ln: "ln_ID ln \<in> ln_ID ` set lns - ln_ID ` set done" using distinct by auto
    show "delivers (?I done a) (ensureListenerDeleted l lb ln) (?I (done @ [ln]))"
    proof (rule delivers_ensure_deleted [OF c, where J = "?J done" and K = "?J (done @ [ln])"])
      fix ks :: "(string \<times> string \<times> int) list" and ps
      show "?J done ks ps \<Longrightarrow> ln_ID ln \<in> fst ` set ks \<and> ?J (done @ [ln]) ks ps" using ln by auto
      show "?J (done @ [ln]) ks ps \<Longrightarrow> ?J (done @ [ln]) (filter (\<lambda>k. fst k \<noteq> ln_ID ln) ks) ps"
        by (simp only: image_without, auto)
      show "?J done ks ps \<Longrightarrow> lonely (ln_ID ` set lns) ps" by simp
      show "?J done ks ps \<Longrightarrow> ?J done ks (filter (\<lambda>p. pool_ID p \<noteq> i) ps)" for i by (simp add: lonely_filter)
    qed (use ln in simp)
  qed
  then show ?thesis by (rule delivers_weaken) (simp, erule holds_there)
qed

section \<open>The load balancer itself\<close>

abbreviation absent :: "string \<Rightarrow> 'w st \<Rightarrow> bool" where
  "absent i s \<equiv> sane (world s) \<and> i \<notin> lb_ID ` set (lbs_of v (world s))"

lemma ids_of_keys: "lb_ID ` set (lbs_of v w) = fst ` lb_keys v w"
  by (simp add: lb_keys_def lb_key_def image_image)

lemma exists_absent:
  assumes "absent i s"
  shows "\<exists>s'. lb_exists c i s = (Ok False, s') \<and> absent i s'"
proof -
  from lb_gone assms obtain w where ex: "api_lb_exists (Loadbalancers c) i (world s) = (Ok False, w)" by blast
  with quiet_deletes(1) [of i] assms have "sane w" "lb_keys v w = lb_keys v (world s)"
    unfolding undisturbed_def by (metis snd_conv)+
  with ex assms show ?thesis unfolding ids_of_keys by (simp add: lb_exists_def call_def)
qed

lemma delivers_delete_lb:
  assumes c: "l_client l = c"
  shows "delivers (there lb) (deleteLoadBalancer l (lb_ID lb)) (\<lambda>_. absent (lb_ID lb))"
  unfolding delivers_def
proof (intro allI impI)
  let ?i = "lb_ID lb"
  fix s assume "there lb s"
  from holds_lb [OF this] have w: "sane (world s)" "?i \<in> lb_ID ` set (lbs_of v (world s))" by simp_all
  from lb_deleted [OF w] obtain t w1 where del: "api_lb_delete (Loadbalancers c) ?i (world s) = (Ok t, w1)"
    and gone: "?i \<notin> lb_ID ` set (lbs_of v w1)" by blast
  let ?s1 = "s\<lparr>world := w1, calls := calls s @ [LB (Loadbalancers_Delete ?i)]\<rparr>"
  from lb_delete [OF w(1) del] gone have "absent ?i ?s1" by simp
  from exists_absent [OF this] obtain s2 where "lb_exists c ?i ?s1 = (Ok False, s2)" "absent ?i s2" by blast
  with del show "\<exists>x s'. deleteLoadBalancer l ?i s = (Ok x, s') \<and> absent ?i s'"
    by (simp add: deleteLoadBalancer_def c bindM_def wrapM_def call_def retM_def)
qed

lemma delivers_wait_deleted: "delivers (absent i) (waitLoadbalancerDeleted c i) (\<lambda>_. alive)"
  unfolding delivers_def
proof (intro allI impI)
  fix s assume "absent i s"
  from exists_absent [OF this] obtain s' where s': "lb_exists c i s = (Ok False, s')" "absent i s'" by blast
  let ?check = "bindM (lift_st (lb_exists c i)) (\<lambda>isExist. retM (\<not> isExist))"
  from s'(1) have "?check (s, no_vars) = (Ok True, (s', no_vars))" by (simp add: bindM_def lift_st_def retM_def)
  then have "poll 13 wait_timeout ?check (s, no_vars) = (Ok (), (s', no_vars))" by (simp add: numeral_eq_Suc)
  then have "waitLoadbalancerDeleted c i s = (Ok (), s')"
    by (simp add: waitLoadbalancerDeleted_def exact_polling.drive_exact [OF exact(1)] delete_backoff_def
        run_closure_def bindM_def retM_def)
  with s'(2) show "\<exists>x s'. waitLoadbalancerDeleted c i s = (Ok x, s') \<and> alive s'" by simp
qed

section \<open>A whole deletion\<close>

lemma returns_delete_parts:
  assumes c: "l_client l = c" and save: "getBoolFromServiceAnnotation svc AnnotationSaveFloating False = Ok saved"
    and sg: "\<not> lbo_ManageSecurityGroups (l_opts l) \<or> returns alive (EnsureSecurityGroupDeleted l svc)"
    and fip: "saved \<or> svc_Ingress svc = [] \<or> returns alive (delete_fips l lb (svc_Ingress svc))"
    and s: "there lb s" "lonely (ln_ID ` set (lns_of v (world s) (lb_ID lb))) (pools_of v (world s) (lb_ID lb))"
  shows "\<exists>s'. delete_parts l svc lb s = (Ok (), s')"
proof -
  let ?lns = "lns_of v (world s) (lb_ID lb)"
  let ?ids = "ln_ID ` set ?lns"
  let ?J = "\<lambda>ks ps. ?ids \<subseteq> fst ` set ks \<and> lonely ?ids ps"
  have start: "holds lb ?J s" using s by (simp add: holds_def image_image ln_key_def)
  have list: "\<exists>s1. getListenersByLoadBalancerID c (lb_ID lb) s = (Ok ?lns, s1) \<and> holds lb ?J s1"
  proof -
    from holds_lb [OF s(1)] listeners_listed obtain lns w where run: "api_listener_list (Loadbalancers c) (lb_ID lb) (world s) = (Ok lns, w)"
      unfolding succeeds_def by blast
    with listener_list holds_lb [OF s(1)] have "lns = ?lns" by blast
    with run holds_undisturbed [OF quiet_lbs(3) run start] show ?thesis by (simp add: getListenersByLoadBalancerID_def call_def)
  qed
  then obtain s1 where s1: "getListenersByLoadBalancerID c (lb_ID lb) s = (Ok ?lns, s1)" "holds lb ?J s1" by blast
  have dist: "distinct (map ln_ID ?lns)" using unique holds_lb [OF s(1)] by blast
  have address: "returns alive (if \<not> saved \<and> length (svc_Ingress svc) > 0 then delete_fips l lb (svc_Ingress svc) else retM ())"
    using fip by (auto intro: delivers_retM)
  have calm: "calm (if lbo_ManageSecurityGroups (l_opts l) then wrapM f (EnsureSecurityGroupDeleted l svc) else retM ())" for f
    by (intro calm_intros c)
  have alive: "alive = stored (\<lambda>_ _ _. True)" by (intro ext) (simp add: stored_def)
  have "returns alive (if lbo_ManageSecurityGroups (l_opts l) then wrapM f (EnsureSecurityGroupDeleted l svc) else retM ())" for f
    using sg by (auto intro: delivers_retM delivers_wrapM)
  then have groups: "delivers alive (if lbo_ManageSecurityGroups (l_opts l) then wrapM f (EnsureSecurityGroupDeleted l svc) else retM ())
      (\<lambda>_. alive)" for f
    unfolding alive by (rule delivers_triple [OF calm_stored [OF calm]])
  have annotation: "delivers alive (wrapM f (liftM (getBoolFromServiceAnnotation svc AnnotationSaveFloating False))) (\<lambda>b s. b = saved \<and> alive s)" for f
    by (rule delivers_wrapM, rule delivers_liftM) (simp add: save)
  have tail: "returns (there lb) (bindM (wrapM f (deleteLoadBalancer l (lb_ID lb))) (\<lambda>_.
     bindM (wrapM g (waitLoadbalancerDeleted c (lb_ID lb))) (\<lambda>_.
     bindM (if lbo_ManageSecurityGroups (l_opts l) then wrapM h (EnsureSecurityGroupDeleted l svc) else retM ()) (\<lambda>_.
     bindM (wrapM k (liftM (getBoolFromServiceAnnotation svc AnnotationSaveFloating False))) (\<lambda>shouldSaveFIP.
       if \<not> shouldSaveFIP \<and> length (svc_Ingress svc) > 0 then delete_fips l lb (svc_Ingress svc)
       else retM ())))))" for f g h k
    by (rule delivers_bindM [OF delivers_wrapM [OF delivers_delete_lb [OF c]] delivers_bindM [OF delivers_wrapM [OF delivers_wait_deleted]
          delivers_bindM [OF groups delivers_bindM [OF annotation]]]], rule delivers_pure) (use address in simp)
  have first: "bindM (wrapM f (getListenersByLoadBalancerID c (lb_ID lb))) k s = k ?lns s1" for f and k :: "listener list \<Rightarrow> ('w st, unit) prog"
    by (simp add: bindM_def wrapM_def s1(1))
  have "\<exists>x s'. delete_parts l svc lb s = (Ok x, s') \<and> True"
    unfolding delete_parts_def c first by (rule totalD [OF delivers_bindM [OF delivers_all_deleted [OF c dist] tail] s1(2)])
  then show ?thesis by simp
qed

lemma EnsureLoadBalancerDeleted_returns:
  assumes c: "l_client l = c" and s: "sane (world s)" "unambiguous {lb_name l svc, lb_legacy_name l svc} (lb_keys v (world s))"
    and lone: "\<And>lb. lb \<in> set (lbs_of v (world s)) \<Longrightarrow> candidate l svc lb \<Longrightarrow>
      lonely (ln_ID ` set (lns_of v (world s) (lb_ID lb))) (pools_of v (world s) (lb_ID lb))"
    and save: "getBoolFromServiceAnnotation svc AnnotationSaveFloating False = Ok saved"
    and sg: "\<not> lbo_ManageSecurityGroups (l_opts l) \<or> returns alive (EnsureSecurityGroupDeleted l svc)"
    and fip: "\<And>lb. saved \<or> svc_Ingress svc = [] \<or> returns alive (delete_fips l lb (svc_Ingress svc))"
  shows "\<exists>s'. EnsureLoadBalancerDeleted l svc s = (Ok (), s')"
proof -
  from get_by_name_returns [OF s] obtain r s1 where find: "find_existing l svc s = (Ok r, s1)"
    by (fastforce simp: find_existing_def c tryM_def retM_def)
  from tripleD(1) [OF triple_find_existing [OF c s(1), of svc] refl find]
  have same: "same (world s) s1" and r: "\<And>lb. r = Some lb \<Longrightarrow> lb \<in> set (lbs_of v (world s)) \<and> candidate l svc lb" by auto
  have "\<exists>s'. (case r of None \<Rightarrow> retM () | Some lb \<Rightarrow> delete_parts l svc lb) s1 = (Ok (), s')"
  proof (cases r)
    case None
    then show ?thesis by (simp add: retM_def)
  next
    case (Some lb)
    from same have w: "sane (world s1)" "lb_keys v (world s1) = lb_keys v (world s)" "lns_of v (world s1) = lns_of v (world s)"
      "pools_of v (world s1) = pools_of v (world s)" by (simp_all add: same_def stored_def)
    with r [OF Some] have "there lb s1" by (simp add: holds_key lb_keys_def)
    from returns_delete_parts [OF c save sg fip this, unfolded w(3,4)] lone r [OF Some] show ?thesis by (simp add: Some)
  qed
  with find show ?thesis unfolding EnsureLoadBalancerDeleted_parts by (simp add: bindM_def)
qed

lemma EnsureLoadBalancerDeleted_removes:
  assumes c: "l_client l = c" and s: "sane (world s)" "unambiguous {lb_name l svc, lb_legacy_name l svc} (lb_keys v (world s))"
    and lone: "\<And>lb. lb \<in> set (lbs_of v (world s)) \<Longrightarrow> candidate l svc lb \<Longrightarrow>
      lonely (ln_ID ` set (lns_of v (world s) (lb_ID lb))) (pools_of v (world s) (lb_ID lb))"
    and save: "getBoolFromServiceAnnotation svc AnnotationSaveFloating False = Ok saved"
    and sg: "\<not> lbo_ManageSecurityGroups (l_opts l) \<or> returns alive (EnsureSecurityGroupDeleted l svc)"
    and fip: "\<And>lb. saved \<or> svc_Ingress svc = [] \<or> returns alive (delete_fips l lb (svc_Ingress svc))"
  shows "\<exists>s'. EnsureLoadBalancerDeleted l svc s = (Ok (), s') \<and>
    ((\<forall>lb \<in> set (lbs_of v (world s)). \<not> candidate l svc lb) \<and> lb_keys v (world s') = lb_keys v (world s) \<or>
     (\<exists>lb \<in> set (lbs_of v (world s)). candidate l svc lb \<and> lb_keys v (world s') = without (lb_ID lb) (lb_keys v (world s))))"
proof -
  from EnsureLoadBalancerDeleted_returns [OF assms] obtain s' where run: "EnsureLoadBalancerDeleted l svc s = (Ok (), s')" by blast
  from EnsureLoadBalancerDeleted_spares [OF c prompt_drivers s(1) run] run show ?thesis by auto
qed

end

end
