(* ===== verification/Simulation.thy ===== *)
theory Simulation
  imports Removal
begin

text \<open>
  A simulated cloud on which the handlers run: load balancers, listeners and pools are lists in the
  state, requests are carried out at once. It instantiates the client, so that properties of whole runs
  have concrete instances, evaluated by the simplifier.
\<close>

record sim =
  sim_lbs :: "loadbalancer list"
  sim_listeners :: "listener list"
  sim_pools :: "pool list"
  sim_next :: nat

definition no_task :: task_result where
  "no_task = \<lparr>task_Loadbalancers = [], task_Listeners = [], task_Pools = [], task_FloatingIPs = [], task_Volumes = []\<rparr>"

definition found :: "('a \<Rightarrow> bool) \<Rightarrow> 'a list \<Rightarrow> 'a outcome" where
  "found P xs = (case find P xs of None \<Rightarrow> Err (Api ''404'') | Some x \<Rightarrow> Ok x)"

definition sim_lb_create :: "lb_create_request \<Rightarrow> (sim, task_result) ext" where
  "sim_lb_create req w =
     (let i = ''lb-'' @ show_nat (sim_next w) in
      (Ok (no_task\<lparr>task_Loadbalancers := [i]\<rparr>),
       w\<lparr>sim_lbs := sim_lbs w @ [\<lparr>lb_ID = i, lb_Name = lbc_Name req, lb_ProvisioningStatus = ''ACTIVE'',
           lb_VipAddress = [10, 0, 0, 5], lb_VipPortID = ''port''\<rparr>], sim_next := sim_next w + 1\<rparr>))"

definition sim_listener_create :: "listener_create_request \<Rightarrow> (sim, task_result) ext" where
  "sim_listener_create req w =
     (let i = ''ln-'' @ show_nat (sim_next w) in
      (Ok (no_task\<lparr>task_Listeners := [i]\<rparr>),
       w\<lparr>sim_listeners := sim_listeners w @ [\<lparr>ln_ID = i, ln_Name = lnc_Name req, ln_Protocol = lnc_Protocol req,
           ln_ProtocolPort = lnc_ProtocolPort req, ln_SecretID = lnc_SecretID req,
           ln_TimeoutClientData = lnc_TimeoutClientData req, ln_TimeoutMemberData = lnc_TimeoutMemberData req,
           ln_TimeoutMemberConnect = lnc_TimeoutMemberConnect req\<rparr>], sim_next := sim_next w + 1\<rparr>))"

definition sim_listener_update :: "string \<Rightarrow> listener_update_request \<Rightarrow> (sim, unit) ext" where
  "sim_listener_update i req w =
     (Ok (), w\<lparr>sim_listeners := map (\<lambda>ln. if ln_ID ln = i then ln\<lparr>ln_Name := lnu_Name req, ln_SecretID := lnu_SecretID req,
        ln_TimeoutClientData := lnu_TimeoutClientData req, ln_TimeoutMemberData := lnu_TimeoutMemberData req,
        ln_TimeoutMemberConnect := lnu_TimeoutMemberConnect req\<rparr> else ln) (sim_listeners w)\<rparr>)"

definition sim_pool_create :: "pool_create_request \<Rightarrow> (sim, task_result) ext" where
  "sim_pool_create req w =
     (let i = ''pool-'' @ show_nat (sim_next w) in
      (Ok (no_task\<lparr>task_Pools := [i]\<rparr>),
       w\<lparr>sim_pools := sim_pools w @ [\<lparr>pool_ID = i, pool_Name = pc_Name req, pool_Listeners = [pc_ListenerID req],
           pool_Members = [], pool_SessionPersistence = pc_SessionPersistence req,
           pool_LoadbalancerAlgorithm = pc_LoadbalancerAlgorithm req\<rparr>], sim_next := sim_next w + 1\<rparr>))"

definition sim_pool_update :: "string \<Rightarrow> pool_update_request \<Rightarrow> (sim, unit) ext" where
  "sim_pool_update i req w =
     (Ok (), w\<lparr>sim_pools := map (\<lambda>p. if pool_ID p = i then p\<lparr>pool_Members :=
        map (\<lambda>m. \<lparr>pm_ID = [], pm_Address = pmc_Address m, pm_ProtocolPort = pmc_ProtocolPort m,
          pm_SubnetID = pmc_SubnetID m\<rparr>) (pu_Members req)\<rparr> else p) (sim_pools w)\<rparr>)"

definition sim_client :: "sim client" where
  "sim_client = idle_client\<lparr>
     Loadbalancers := (Loadbalancers idle_client)\<lparr>
       api_lb_list := (\<lambda>w. (Ok (sim_lbs w), w)),
       api_lb_get := (\<lambda>i w. (found (\<lambda>lb. lb_ID lb = i) (sim_lbs w), w)),
       api_lb_create := sim_lb_create,
       api_lb_delete := (\<lambda>i w. (Ok no_task, w\<lparr>sim_lbs := filter (\<lambda>lb. lb_ID lb \<noteq> i) (sim_lbs w)\<rparr>)),
       api_lb_exists := (\<lambda>i w. (Ok (list_ex (\<lambda>lb. lb_ID lb = i) (sim_lbs w)), w)),
       api_listener_list := (\<lambda>_ w. (Ok (sim_listeners w), w)),
       api_listener_get := (\<lambda>i w. (found (\<lambda>ln. ln_ID ln = i) (sim_listeners w), w)),
       api_listener_create := sim_listener_create,
       api_listener_update := sim_listener_update,
       api_listener_delete := (\<lambda>i w. (Ok (no_task\<lparr>task_Listeners := [i]\<rparr>),
         w\<lparr>sim_listeners := filter (\<lambda>ln. ln_ID ln \<noteq> i) (sim_listeners w)\<rparr>)),
       api_listener_exists := (\<lambda>i w. (Ok (list_ex (\<lambda>ln. ln_ID ln = i) (sim_listeners w)), w))\<rparr>,
     Pools := (Pools idle_client)\<lparr>
       api_pool_list := (\<lambda>o' w. (Ok (filter (\<lambda>p. pl_ListenerID o' = [] \<or> pl_ListenerID o' \<in> set (pool_Listeners p))
         (sim_pools w)), w)),
       api_pool_get := (\<lambda>i w. (Ok (find (\<lambda>p. pool_ID p = i) (sim_pools w)), w)),
       api_pool_create := sim_pool_create,
       api_pool_update := sim_pool_update,
       api_pool_delete := (\<lambda>i w. (Ok no_task, w\<lparr>sim_pools := filter (\<lambda>p. pool_ID p \<noteq> i) (sim_pools w)\<rparr>)),
       api_pool_exists := (\<lambda>i w. (Ok (list_ex (\<lambda>p. pool_ID p = i) (sim_pools w)), w))\<rparr>\<rparr>"

definition sim_opts :: lb_opts where
  "sim_opts = \<lparr>lbo_LBVersion = ''v2'', lbo_UseOctavia = True, lbo_SubnetID = ''subnet-1'', lbo_NetworkID = [],
     lbo_FloatingNetworkID = [], lbo_FloatingSubnetID = [], lbo_LBClasses = None, lbo_LBMethod = ''ROUND_ROBIN'',
     lbo_LBProvider = [], lbo_CreateMonitor = True, lbo_MonitorDelay = 5000000000, lbo_MonitorTimeout = 3000000000,
     lbo_MonitorMaxRetries = 3, lbo_ManageSecurityGroups = False, lbo_NodeSecurityGroupIDs = [],
     lbo_InternalLB = True\<rparr>"

definition sim_lbaas :: "sim lbaas" where
  "sim_lbaas = \<lparr>l_client = sim_client, l_opts = sim_opts,
     l_edgecenter = \<lparr>eo_ApiURL = ''https://api'', eo_ProjectID = 1, eo_RegionID = 2, eo_ApiToken = ''token'',
       eo_ClusterID = ''3f0c6a1e-97f4-4a52-b1d3-6a2f0e4d9c77'', eo_NoBillingTag = False, eo_Region = ''ed-10'',
       eo_CAFile = [], eo_TLSInsecure = [], eo_CAFileContents = []\<rparr>\<rparr>"

definition sim_node :: node where
  "sim_node = \<lparr>node_Name = ''worker-1'', node_ProviderID = ''edgecenter:///vm-1'',
     node_Addresses = [\<lparr>na_Type = ''InternalIP'', na_Address = ''10.0.0.11''\<rparr>]\<rparr>"

definition sim_empty :: "sim st" where
  "sim_empty = start \<lparr>sim_lbs = [], sim_listeners = [], sim_pools = [], sim_next = 0\<rparr>"

lemma sim_drivers [simp]: "drivers (l_client sim_lbaas)"
  by (simp add: drivers_def sim_lbaas_def sim_client_def idle_client_def poll_driver.polling_axioms)

section \<open>The simulation is a store\<close>

text \<open>All listeners and pools belong to the one load balancer; names come from the counter.\<close>

definition sim_view :: "sim view" where
  "sim_view = \<lparr>lbs_of = sim_lbs, lns_of = (\<lambda>w _. sim_listeners w), pools_of = (\<lambda>w _. sim_pools w)\<rparr>"

definition numbered :: "string \<Rightarrow> nat \<Rightarrow> string list \<Rightarrow> bool" where
  "numbered pre n ids \<longleftrightarrow> distinct ids \<and> (\<forall>i \<in> set ids. \<exists>k < n. i = pre @ show_nat k)"

definition sim_sane :: "sim \<Rightarrow> bool" where
  "sim_sane w \<longleftrightarrow> numbered ''lb-'' (sim_next w) (map lb_ID (sim_lbs w)) \<and>
     numbered ''ln-'' (sim_next w) (map ln_ID (sim_listeners w)) \<and>
     numbered ''pool-'' (sim_next w) (map pool_ID (sim_pools w)) \<and>
     (\<forall>p \<in> set (sim_pools w). length (pool_Listeners p) \<le> 1) \<and>
     (\<forall>lb \<in> set (sim_lbs w). lb_ProvisioningStatus lb = ''ACTIVE'')"

lemma numbered_next: "numbered pre n ids \<Longrightarrow> numbered pre (Suc n) (ids @ [pre @ show_nat n])"
  by (auto simp: numbered_def less_Suc_eq)

lemma numbered_Suc: "numbered pre n ids \<Longrightarrow> numbered pre (Suc n) ids"
  by (auto simp: numbered_def less_Suc_eq)

lemma numbered_filter: "numbered pre n (map f xs) \<Longrightarrow> numbered pre n (map f (filter P xs))"
  by (auto simp: numbered_def distinct_map_filter)

lemma found_Ok: "found P xs = Ok x \<Longrightarrow> x \<in> set xs \<and> P x"
  by (auto simp: found_def find_Some_iff split: option.splits)

lemma sim_fields [simp]:
  "l_client sim_lbaas = sim_client" "l_opts sim_lbaas = sim_opts"
  "api_lb_list (Loadbalancers sim_client) = (\<lambda>w. (Ok (sim_lbs w), w))"
  "api_lb_get (Loadbalancers sim_client) = (\<lambda>i w. (found (\<lambda>lb. lb_ID lb = i) (sim_lbs w), w))"
  "api_lb_create (Loadbalancers sim_client) = sim_lb_create"
  "api_listener_list (Loadbalancers sim_client) = (\<lambda>_ w. (Ok (sim_listeners w), w))"
  "api_listener_get (Loadbalancers sim_client) = (\<lambda>i w. (found (\<lambda>ln. ln_ID ln = i) (sim_listeners w), w))"
  "api_listener_create (Loadbalancers sim_client) = sim_listener_create"
  "api_listener_update (Loadbalancers sim_client) = sim_listener_update"
  "api_pool_list (Pools sim_client) = (\<lambda>o' w. (Ok (filter (\<lambda>p. pl_ListenerID o' = [] \<or>
     pl_ListenerID o' \<in> set (pool_Listeners p)) (sim_pools w)), w))"
  "api_pool_get (Pools sim_client) = (\<lambda>i w. (Ok (find (\<lambda>p. pool_ID p = i) (sim_pools w)), w))"
  "api_pool_create (Pools sim_client) = sim_pool_create"
  "api_pool_update (Pools sim_client) = sim_pool_update"
  "ExponentialBackoff sim_client = poll_driver" "ExponentialBackoffWithContext sim_client = poll_driver"
  by (simp_all add: sim_lbaas_def sim_client_def idle_client_def)

lemma sim_undisturbed:
  "undisturbed sim_view sim_sane (\<lambda>w. (f w, w))" "undisturbed sim_view sim_sane not_found"
  by (simp_all add: undisturbed_def not_found_def)

lemma sim_quiet_parts [simp]:
  "Networks sim_client = Networks idle_client" "Instances sim_client = Instances idle_client"
  "api_listener_exists (Loadbalancers sim_client) = (\<lambda>i w. (Ok (list_ex (\<lambda>ln. ln_ID ln = i) (sim_listeners w)), w))"
  "api_pool_exists (Pools sim_client) = (\<lambda>i w. (Ok (list_ex (\<lambda>p. pool_ID p = i) (sim_pools w)), w))"
  "api_secret_post (Pools sim_client) = (\<lambda>_ _. not_found)"
  "api_listener_delete (Loadbalancers sim_client) = (\<lambda>i w. (Ok (no_task\<lparr>task_Listeners := [i]\<rparr>),
     w\<lparr>sim_listeners := filter (\<lambda>ln. ln_ID ln \<noteq> i) (sim_listeners w)\<rparr>))"
  "api_pool_delete (Pools sim_client) = (\<lambda>i w. (Ok no_task, w\<lparr>sim_pools := filter (\<lambda>p. pool_ID p \<noteq> i) (sim_pools w)\<rparr>))"
  by (simp_all add: sim_client_def idle_client_def)

text \<open>The laws of the requests that change something, or whose answer matters.\<close>

lemmas sim_state = sim_view_def lb_keys_def lb_key_def ln_key_def pool_key_def no_task_def

lemmas sim_numbered = numbered_Suc numbered_next [of "''lb-''", simplified] numbered_next [of "''ln-''", simplified]
  numbered_next [of "''pool-''", simplified]

lemma sim_create_laws:
  "sim_sane w \<Longrightarrow> api_lb_create (Loadbalancers sim_client) req w = (Ok t, w') \<Longrightarrow>
    sim_sane w' \<and> (\<exists>i. task_Loadbalancers t = [i] \<and> (i, lbc_Name req) \<in> lb_keys sim_view w')"
  "sim_sane w \<Longrightarrow> api_listener_create (Loadbalancers sim_client) lreq w = (Ok t, w') \<Longrightarrow>
    sim_sane w' \<and> lb_keys sim_view w' = lb_keys sim_view w \<and> pools_of sim_view w' = pools_of sim_view w \<and>
    (\<exists>ln. lns_of sim_view w' (lnc_LoadbalancerID lreq) = lns_of sim_view w (lnc_LoadbalancerID lreq) @ [ln] \<and>
      task_Listeners t = [ln_ID ln] \<and> ln_Protocol ln = lnc_Protocol lreq \<and> ln_ProtocolPort ln = lnc_ProtocolPort lreq)"
  "sim_sane w \<Longrightarrow> api_pool_create (Pools sim_client) preq w = (Ok t, w') \<Longrightarrow>
    sim_sane w' \<and> lb_keys sim_view w' = lb_keys sim_view w \<and> lns_of sim_view w' = lns_of sim_view w \<and>
    (\<exists>p. pools_of sim_view w' i = pools_of sim_view w i @ [p] \<and> task_Pools t = [pool_ID p] \<and>
      pool_Listeners p = [pc_ListenerID preq])"
  by (auto simp: sim_lb_create_def sim_listener_create_def sim_pool_create_def sim_state sim_sane_def Let_def sim_numbered)

lemma sim_update_laws:
  "sim_sane w \<Longrightarrow> api_listener_update (Loadbalancers sim_client) j upd w = (Ok (), w') \<Longrightarrow>
    sim_sane w' \<and> lb_keys sim_view w' = lb_keys sim_view w \<and> pools_of sim_view w' = pools_of sim_view w \<and>
    map ln_key (lns_of sim_view w' i) = map ln_key (lns_of sim_view w i)"
  "sim_sane w \<Longrightarrow> api_pool_update (Pools sim_client) j pupd w = (r, w') \<Longrightarrow>
    sim_sane w' \<and> lb_keys sim_view w' = lb_keys sim_view w \<and> lns_of sim_view w' = lns_of sim_view w \<and>
    map pool_key (pools_of sim_view w' i) = map pool_key (pools_of sim_view w i) \<and>
    (\<forall>p \<in> set (pools_of sim_view w i). pool_ID p \<noteq> j \<longrightarrow> p \<in> set (pools_of sim_view w' i))"
  by (auto simp: sim_listener_update_def sim_pool_update_def sim_state sim_sane_def comp_def if_distrib image_iff cong: if_cong)

lemma sim_delete_laws:
  "sim_sane w \<Longrightarrow> api_listener_delete (Loadbalancers sim_client) j w = (lr, w') \<Longrightarrow>
    sim_sane w' \<and> lb_keys sim_view w' = lb_keys sim_view w \<and> pools_of sim_view w' = pools_of sim_view w \<and>
    lns_of sim_view w' i \<in> {lns_of sim_view w i, filter (\<lambda>ln. ln_ID ln \<noteq> j) (lns_of sim_view w i)} \<and>
    (\<forall>t. lr = Ok t \<longrightarrow> (case task_Listeners t of [] \<Rightarrow> j \<notin> ln_ID ` set (lns_of sim_view w' i) | k # _ \<Rightarrow> k = j))"
  "sim_sane w \<Longrightarrow> api_pool_delete (Pools sim_client) j w = (r, w') \<Longrightarrow>
    sim_sane w' \<and> lb_keys sim_view w' = lb_keys sim_view w \<and> lns_of sim_view w' = lns_of sim_view w \<and>
    pools_of sim_view w' i \<in> {pools_of sim_view w i, filter (\<lambda>p. pool_ID p \<noteq> j) (pools_of sim_view w i)}"
  by (auto simp: sim_state sim_sane_def numbered_filter)

lemma sim_exists_laws:
  "sim_sane w \<Longrightarrow> api_listener_exists (Loadbalancers sim_client) j w = (Ok False, w') \<Longrightarrow>
    j \<notin> ln_ID ` set (lns_of sim_view w i)"
  "sim_sane w \<Longrightarrow> api_pool_exists (Pools sim_client) j w = (Ok False, w') \<Longrightarrow> j \<notin> pool_ID ` set (pools_of sim_view w i)"
  "sim_sane w \<Longrightarrow> api_pool_get (Pools sim_client) j w = (Ok (Some p), w') \<Longrightarrow> j \<in> pool_ID ` set (pools_of sim_view w i) \<Longrightarrow>
    pool_ID p = j \<and> p \<in> set (pools_of sim_view w i)"
  by (auto simp: sim_view_def list_ex_iff find_Some_iff)

interpretation sim_store: store sim_client sim_view sim_sane
  by (unfold_locales; (simp add: sim_undisturbed idle_client_def; fail)?;
    (auto simp: sim_view_def lb_keys_def dest!: found_Ok; fail)?; (auto simp: sim_view_def sim_sane_def numbered_def; fail)?;
    (erule (1) sim_create_laws sim_update_laws sim_delete_laws sim_exists_laws; fail)?; erule (2) sim_exists_laws)

lemma sim_lb_laws [simp]:
  "api_lb_delete (Loadbalancers sim_client) = (\<lambda>i w. (Ok no_task, w\<lparr>sim_lbs := filter (\<lambda>lb. lb_ID lb \<noteq> i) (sim_lbs w)\<rparr>))"
  "api_lb_exists (Loadbalancers sim_client) = (\<lambda>i w. (Ok (list_ex (\<lambda>lb. lb_ID lb = i) (sim_lbs w)), w))"
  by (simp_all add: sim_client_def idle_client_def)

lemma sim_lb_delete:
  assumes "sim_sane w" "api_lb_delete (Loadbalancers sim_client) i w = (r, w')"
  shows "sim_sane w' \<and> lb_keys sim_view w' \<in> {lb_keys sim_view w, without i (lb_keys sim_view w)} \<and>
    (\<forall>j. j \<noteq> i \<longrightarrow> lns_of sim_view w' j = lns_of sim_view w j \<and> pools_of sim_view w' j = pools_of sim_view w j)"
  using assms by (auto simp: sim_state sim_sane_def numbered_filter without_def)

interpretation sim_deleting: deleting_store sim_client sim_view sim_sane
  by (unfold_locales; (simp add: sim_undisturbed idle_client_def; fail)?;
    (auto simp: sim_view_def list_ex_iff; fail)?; erule (1) sim_lb_delete)

text \<open>Every request is carried out at once.\<close>

lemma find_at: "i \<in> f ` set xs \<Longrightarrow> \<exists>x. find (\<lambda>x. f x = i) xs = Some x"
  by (induction xs) auto

lemma sim_is_active:
  assumes "sim_sane w" "i \<in> lb_ID ` set (lbs_of sim_view w)"
  shows "becomes_active 19 (api_lb_get (Loadbalancers sim_client) i) w"
proof -
  from assms(2) obtain lb where lb: "found (\<lambda>lb. lb_ID lb = i) (sim_lbs w) = Ok lb"
    using find_at [of i lb_ID "sim_lbs w"] by (auto simp: found_def sim_view_def)
  with found_Ok [OF this] assms(1) show ?thesis
    unfolding becomes_active_def
    by (intro exI [of _ 0] exI [of _ "\<lambda>_. lb"] exI [of _ "\<lambda>_. w"]) (auto simp: sim_sane_def)
qed

lemma sim_prompt_laws:
  "succeeds (sim_lb_create req) w" "succeeds (sim_listener_create lreq) w"
  "succeeds (sim_listener_update j upd) w" "succeeds (sim_pool_create preq) w"
  "j \<in> ln_ID ` set (lns_of sim_view w i) \<Longrightarrow> succeeds (api_listener_get (Loadbalancers sim_client) j) w"
  "j \<in> pool_ID ` set (pools_of sim_view w i) \<Longrightarrow> \<exists>p w'. api_pool_get (Pools sim_client) j w = (Ok (Some p), w')"
  using find_at [of j ln_ID "sim_listeners w"] find_at [of j pool_ID "sim_pools w"]
  by (auto simp: succeeds_def sim_lb_create_def sim_listener_create_def sim_listener_update_def sim_pool_create_def Let_def
      sim_view_def found_def)

lemma any_missing_self: "set ds \<subseteq> set ds' \<Longrightarrow> \<not> any_missing (poolMemberCreateKey ` set ds') ds"
  by (induction ds) auto

lemma sim_members_updated:
  "\<exists>w'. api_pool_update (Pools sim_client) j pupd w = (Ok (), w') \<and>
    (\<forall>i. \<forall>p \<in> set (pools_of sim_view w' i). pool_ID p = j \<longrightarrow> \<not> membersChanged (pool_Members p) (pu_Members pupd))"
proof -
  have "poolMemberKey \<lparr>pm_ID = [], pm_Address = pmc_Address m, pm_ProtocolPort = pmc_ProtocolPort m,
      pm_SubnetID = pmc_SubnetID m\<rparr> = poolMemberCreateKey m" for m
    by (simp add: poolMemberKey_def poolMemberCreateKey_def)
  then show ?thesis
    using any_missing_self [of "pu_Members pupd" "pu_Members pupd"]
    by (auto simp: sim_pool_update_def sim_view_def membersChanged_def image_image)
qed

lemma sim_gone:
  "\<exists>t w'. api_listener_delete (Loadbalancers sim_client) j w = (Ok t, w') \<and> (\<forall>i. j \<notin> ln_ID ` set (lns_of sim_view w' i))"
  "\<forall>i. j \<notin> ln_ID ` set (lns_of sim_view w i) \<Longrightarrow> \<exists>w'. api_listener_exists (Loadbalancers sim_client) j w = (Ok False, w')"
  "\<exists>t w'. api_pool_delete (Pools sim_client) j w = (Ok t, w') \<and> (\<forall>i. j \<notin> pool_ID ` set (pools_of sim_view w' i))"
  "\<forall>i. j \<notin> pool_ID ` set (pools_of sim_view w i) \<Longrightarrow> \<exists>w'. api_pool_exists (Pools sim_client) j w = (Ok False, w')"
  by (auto simp: sim_view_def list_ex_iff)

interpretation sim_prompt: prompt_store sim_client sim_view sim_sane
proof (intro prompt_store.intro prompt_store_axioms.intro sim_store.store_axioms)
  show "exact_polling (ExponentialBackoff sim_client)" "exact_polling (ExponentialBackoffWithContext sim_client)"
    by (simp_all add: poll_driver.exact_polling_axioms)
qed (((rule sim_is_active sim_gone sim_prompt_laws(5,6) sim_members_updated; assumption) |
    (simp add: sim_prompt_laws(1-4); fail) | (simp add: succeeds_def sim_view_def; fail))+)

interpretation sim_removal: prompt_deleting sim_client sim_view sim_sane
  by (intro prompt_deleting.intro prompt_deleting_axioms.intro sim_prompt.prompt_store_axioms sim_deleting.deleting_store_axioms)
    (auto simp: sim_view_def list_ex_iff)

section \<open>Running a program\<close>

text \<open>The equations of the programs, for the simplifier to follow a run.\<close>

lemmas run_defs [run] =
  fun_cong [OF lift_st_def] fun_cong [OF assign_def] run_closure_def call_def
  active_backoff_def delete_backoff_def retry_backoff_def no_vars_def fun_cong [OF set_lastErr_def]
  fun_cong [OF waitLoadbalancerActiveProvisioningStatus_def] fun_cong [OF wait_active_def]
  fun_cong [OF wait_active_cond_def] fun_cong [OF lb_get_def] fun_cong [OF lb_exists_def]
  fun_cong [OF runLBOperationWithRetry_def] fun_cong [OF retry_cond_def]
  fun_cong [OF pool_get_def] fun_cong [OF pool_list_def] fun_cong [OF listPoolsByLoadBalancerID_def]
  fun_cong [OF createPool_def] fun_cong [OF deletePool_def] fun_cong [OF getPoolByListenerID_def]
  fun_cong [OF updatePoolMembersWithRetry_def] fun_cong [OF deletePoolWithRetry_def]
  fun_cong [OF waitPoolMembersApplied_def] fun_cong [OF applied_cond_def] fun_cong [OF reconcile_port_def]
  fun_cong [OF reconcilePoolMembers_def] fun_cong [OF fun_cong [OF ensure_pool_def]]
  fun_cong [OF ensureLoadBalancerPools_def] fun_cong [OF getListenersByLoadBalancerID_def]
  fun_cong [OF listener_get_def] fun_cong [OF getListenerByID_def] fun_cong [OF createListener_def]
  fun_cong [OF deleteListener_def] fun_cong [OF deleteListenerWithRetry_def]
  fun_cong [OF updateListenerIfNeeded_def] fun_cong [OF fun_cong [OF ensure_listener_def]]
  fun_cong [OF ensureLoadBalancerListeners_def] fun_cong [OF deleteObsoleteListenersAndPools_def]
  fun_cong [OF getSecretID_def] fun_cong [OF getLoadbalancerByName_def]
  fun_cong [OF createLoadBalancer_def] fun_cong [OF find_or_create_def] fun_cong [OF wait_phase_def]
  fun_cong [OF EnsureLoadBalancer_def] fun_cong [OF ensureListenerDeleted_def]
  fun_cong [OF deleteLoadBalancer_def] fun_cong [OF waitLoadbalancerDeleted_def]
  fun_cong [OF EnsureLoadBalancerDeleted_def]

lemma sim_texts [simp]:
  "show_nat 0 = ''0''" "show_nat 1 = ''1''" "show_nat (Suc 0) = ''1''" "show_nat 2 = ''2''"
  "parse_ip ''10.0.0.11'' = [0, 0, 0, 0, 0, 0, 0, 0, 0, 0, 255, 255, 10, 0, 0, 11]"
  "ip_string [0, 0, 0, 0, 0, 0, 0, 0, 0, 0, 255, 255, 10, 0, 0, 11] = ''10.0.0.11''"
  "ip_string [10, 0, 0, 5] = ''10.0.0.5''"
  by code_simp+

definition sim_options :: service_options where
  "sim_options = \<lparr>so_FlavorID = ''lb1-1-2'', so_NetworkID = [], so_SubnetID = ''subnet-1'', so_FloatingNetworkID = [],
     so_Internal = True, so_KeepClientIP = False, so_UseProxyProtocol = False, so_SecretID = [],
     so_Timeouts = Some \<lparr>lt_TimeoutClientData = None, lt_TimeoutMemberData = None, lt_TimeoutMemberConnect = None\<rparr>,
     so_LBMethod = ''ROUND_ROBIN'', so_SessionPersistence = None, so_CreateMonitor = True,
     so_ManageSecurityGroups = False, so_LBClass = None, so_NodeSecurityGroupIDs = []\<rparr>"

lemma sim_resolve: "resolveServiceOptions sim_lbaas example_service nodes s = (Ok sim_options, s)"
proof -
  have "GetLoadBalancerSourceRanges example_service =
      Ok [(''0.0.0.0/0'', \<lparr>net_ip = [0, 0, 0, 0], net_mask = [0, 0, 0, 0]\<rparr>)]"
    unfolding example_service_def by code_simp
  then have ranges: "check_ranges sim_lbaas example_service opts = Ok ()" for opts
    by (simp add: check_ranges_def sim_opts_def)
  have "svc_Annotations example_service = Map.empty" "svc_SessionAffinity example_service = ServiceAffinityNone"
    by (simp_all add: example_service_def)
  then show ?thesis
    by (simp add: run resolveServiceOptions_def ranges resolve_class_def resolve_traffic_def initial_options_def sim_options_def sim_opts_def
        getStringFromServiceAnnotation_def getBoolFromServiceAnnotation_def parseListenerTimeouts_def getTimeout_def Let_def)
qed

lemma sim_key: "servicePortKey \<lparr>sp_Name = ''http'', sp_Protocol = ProtocolTCP, sp_Port = 80, sp_NodePort = 30080\<rparr> = ''http-tcp-80''"
  by code_simp

lemma example_ports:
  "svc_Ports example_service = [\<lparr>sp_Name = ''http'', sp_Protocol = ProtocolTCP, sp_Port = 80, sp_NodePort = 30080\<rparr>]"
  by (simp add: example_service_def)

lemmas sim_defs = sim_empty_def sim_lb_create_def sim_listener_create_def sim_pool_create_def sim_pool_update_def
  found_def no_task_def sim_node_def example_ports sim_key sim_options_def start_def
  ensure_pool_def findListenerForServicePort_def buildListenerCreateRequest_def buildPoolCreateRequest_def
  pools_by_listener_def nodeAddressForLB_def desired_members_def membersChanged_def update_request_def
  poolMemberCreateKey_def poolMemberKey_def

lemma sim_ensure: "fst (EnsureLoadBalancer sim_lbaas ''k8s'' example_service [sim_node] sim_empty) = Ok [''10.0.0.5'']"
  by (simp add: run sim_resolve Let_def sim_defs)

lemma sim_sane_empty: "sim_sane (world sim_empty)"
  by (simp add: sim_empty_def start_def sim_sane_def numbered_def)

text \<open>A load balancer whose one pool has no members yet, and what the reconciliation makes of it.\<close>

definition sim_lb :: loadbalancer where
  "sim_lb = \<lparr>lb_ID = ''lb-0'', lb_Name = ''svc'', lb_ProvisioningStatus = ''ACTIVE'',
     lb_VipAddress = [10, 0, 0, 5], lb_VipPortID = ''port''\<rparr>"

definition sim_pool :: "pool_member list \<Rightarrow> pool" where
  "sim_pool ms = \<lparr>pool_ID = ''pool-1'', pool_Name = ''http'', pool_Listeners = [''ln-1''], pool_Members = ms,
     pool_SessionPersistence = None, pool_LoadbalancerAlgorithm = ''ROUND_ROBIN''\<rparr>"

definition sim_started :: "sim st" where
  "sim_started = start \<lparr>sim_lbs = [sim_lb], sim_listeners = [], sim_pools = [sim_pool []], sim_next = 2\<rparr>"

lemma sim_reconcile:
  "fst (reconcilePoolMembers sim_lbaas sim_lb example_service [''http-tcp-80'' \<mapsto> sim_pool []] sim_options [sim_node] sim_started) =
     Ok [''http-tcp-80'' \<mapsto> sim_pool [\<lparr>pm_ID = [], pm_Address = [0, 0, 0, 0, 0, 0, 0, 0, 0, 0, 255, 255, 10, 0, 0, 11],
       pm_ProtocolPort = 30080, pm_SubnetID = ''subnet-1''\<rparr>]]"
  by (simp add: run Let_def sim_defs sim_lb_def sim_pool_def sim_started_def)

text \<open>The load balancer of the service, with a listener and a pool, beside one of somebody else.\<close>

definition sim_made :: "sim st" where
  "sim_made = start \<lparr>
     sim_lbs = [sim_lb\<lparr>lb_Name := lb_name sim_lbaas example_service\<rparr>, sim_lb\<lparr>lb_ID := ''lb-3'', lb_Name := ''other''\<rparr>],
     sim_listeners = [\<lparr>ln_ID = ''ln-1'', ln_Name = ''http'', ln_Protocol = ''TCP'', ln_ProtocolPort = 80, ln_SecretID = [],
       ln_TimeoutClientData = None, ln_TimeoutMemberData = None, ln_TimeoutMemberConnect = None\<rparr>],
     sim_pools = [sim_pool []], sim_next = 4\<rparr>"

lemma sim_sane_made: "sim_sane (world sim_made)"
proof -
  have "show_nat 3 = ''3''" by code_simp
  then have "\<exists>k<4. ''0'' = show_nat k" "\<exists>k<4. ''1'' = show_nat k" "\<exists>k<4. ''3'' = show_nat k"
    using sim_texts(1,2) by (metis zero_less_numeral, metis one_less_numeral_iff semiring_norm(76),
      metis numeral_less_iff semiring_norm(76,78,81))
  then show ?thesis by (simp add: sim_made_def start_def sim_sane_def numbered_def sim_lb_def sim_pool_def)
qed

lemma sim_name: "lb_name sim_lbaas example_service = ''svc_3f0c6a1e-97f4-4a52-b1d3-6a2f0e4d9c77_default_web''"
  by code_simp

lemma sim_delete: "fst (EnsureLoadBalancerDeleted sim_lbaas example_service sim_made) = Ok ()"
proof -
  have "svc_Annotations example_service = Map.empty" "svc_Ingress example_service = []"
    by (simp_all add: example_service_def)
  then show ?thesis
    by (simp add: run Let_def sim_defs sim_lb_def sim_pool_def sim_made_def live_def sim_name sim_opts_def getBoolFromServiceAnnotation_def)
qed

end
