(* ===== verification/Steady.thy ===== *)
theory Steady
  imports Simulation
begin

text \<open>
  Repeated reconciliation. The service controller calls \<open>EnsureLoadBalancer\<close> again and again; when the
  cloud already is as the service wants it, the run must change nothing. \<open>quiet w m x\<close> says this of a
  program in the world \<open>w\<close>: it returns \<open>x\<close>, leaves the world as it is and only makes requests that
  belong to no phase. \<open>settled\<close> says of a load balancer in \<open>w\<close> that it is as the service wants it; the
  lemmas follow the phases of the handler.
\<close>

section \<open>Programs that change nothing\<close>

definition quiet :: "'w \<Rightarrow> ('w st, 'a) prog \<Rightarrow> 'a \<Rightarrow> bool" where
  "quiet w m x \<longleftrightarrow> (\<forall>s. world s = w \<longrightarrow>
     (\<exists>es. m s = (Ok x, s\<lparr>calls := calls s @ es\<rparr>) \<and> list_all (\<lambda>e. phase_of e = None) es))"

lemma quietI:
  assumes "\<And>s. world s = w \<Longrightarrow> \<exists>es. m s = (Ok x, s\<lparr>calls := calls s @ es\<rparr>) \<and> list_all (\<lambda>e. phase_of e = None) es"
  shows "quiet w m x"
  using assms by (simp add: quiet_def)

lemma quietE:
  assumes "quiet w m x" "world s = w"
  obtains es where "m s = (Ok x, s\<lparr>calls := calls s @ es\<rparr>)" "list_all (\<lambda>e. phase_of e = None) es"
  using assms by (auto simp: quiet_def)

named_theorems quiet_intros

lemma quiet_retM [quiet_intros]: "quiet w (retM x) x"
  by (rule quietI) (rule exI [where x = "[]"], simp add: retM_def)

lemma quiet_liftM: "r = Ok x \<Longrightarrow> quiet w (liftM r) x"
  by (rule quietI) (rule exI [where x = "[]"], simp add: liftM_def)

lemma quiet_tryM [quiet_intros]:
  assumes "quiet w m x" "quiet w (k x) y"
  shows "quiet w (tryM m h k) y"
proof (rule quietI)
  fix s :: "'a st" assume w: "world s = w"
  from assms(1) w obtain es where m: "m s = (Ok x, s\<lparr>calls := calls s @ es\<rparr>)" "list_all (\<lambda>e. phase_of e = None) es"
    by (rule quietE)
  from assms(2) w obtain es' where "k x (s\<lparr>calls := calls s @ es\<rparr>) =
      (Ok y, s\<lparr>calls := calls s @ es\<rparr>\<lparr>calls := calls (s\<lparr>calls := calls s @ es\<rparr>) @ es'\<rparr>)"
      "list_all (\<lambda>e. phase_of e = None) es'"
    by (auto elim: quietE [where s = "s\<lparr>calls := calls s @ es\<rparr>"])
  with m show "\<exists>es. tryM m h k s = (Ok y, s\<lparr>calls := calls s @ es\<rparr>) \<and> list_all (\<lambda>e. phase_of e = None) es"
    by (intro exI [where x = "es @ es'"]) (simp add: tryM_def)
qed

lemma quiet_bindM [quiet_intros]: "quiet w m x \<Longrightarrow> quiet w (k x) y \<Longrightarrow> quiet w (bindM m k) y"
  unfolding bindM_tryM by (rule quiet_tryM)

lemma quiet_wrapM [quiet_intros]: "quiet w m x \<Longrightarrow> quiet w (wrapM f m) x"
  by (fastforce simp: quiet_def wrapM_def)

lemma quiet_call [quiet_intros]:
  "f w = (Ok x, w) \<Longrightarrow> phase_of (c (Ok x)) = None \<Longrightarrow> quiet w (call c f) x"
  by (rule quietI) (rule exI [where x = "[c (Ok x)]"], simp add: call_def)

lemma quiet_if: "(b \<Longrightarrow> quiet w m x) \<Longrightarrow> (\<not> b \<Longrightarrow> quiet w m' x) \<Longrightarrow> quiet w (if b then m else m') x"
  by simp

lemma quiet_foldM:
  assumes "I [] acc"
    and "\<And>done x rest a. xs = done @ x # rest \<Longrightarrow> I done a \<Longrightarrow> \<exists>a'. quiet w (f x a) a' \<and> I (done @ [x]) a'"
  shows "\<exists>a. quiet w (foldM f xs acc) a \<and> I xs a"
proof -
  have "\<exists>a'. quiet w (foldM f rest a) a' \<and> I xs a'" if "xs = done @ rest" "I done a" for rest "done" a
    using that
  proof (induction rest arbitrary: "done" a)
    case Nil
    then have "quiet w (foldM f [] a) a \<and> I xs a" by (simp add: quiet_retM)
    then show ?case by blast
  next
    case (Cons x rest)
    from assms(2) [OF Cons.prems] obtain a1 where a1: "quiet w (f x a) a1" "I (done @ [x]) a1" by blast
    from Cons.IH [OF _ a1(2)] Cons.prems obtain a2 where "quiet w (foldM f rest a1) a2" "I xs a2" by auto
    with a1 show ?case by (auto intro: quiet_bindM)
  qed
  from this [of "[]" xs acc] assms(1) show ?thesis by simp
qed

section \<open>A settled load balancer\<close>

text \<open>
  The listener and the pool that the phases choose for a port, from the answers of the API, and when
  they need no change.
\<close>

definition port_listener :: "listener list \<Rightarrow> service_options \<Rightarrow> service_port \<Rightarrow> listener option" where
  "port_listener lns opts sp = findListenerForServicePort lns sp opts"

definition chosen_pool :: "listener list \<Rightarrow> pool list \<Rightarrow> service_options \<Rightarrow> service_port \<Rightarrow> pool option" where
  "chosen_pool lns pools opts sp = (case port_listener lns opts sp of
     None \<Rightarrow> None | Some ln \<Rightarrow> pools_by_listener pools (ln_ID ln))"

definition settled_port ::
    "'w client \<Rightarrow> 'w \<Rightarrow> service_options \<Rightarrow> string list \<Rightarrow> listener list \<Rightarrow> pool list \<Rightarrow> service_port \<Rightarrow> bool" where
  "settled_port c w opts ips lns pools sp \<longleftrightarrow> sp_NodePort sp \<noteq> 0 \<and>
     (case port_listener lns opts sp of
        None \<Rightarrow> False
      | Some ln \<Rightarrow> \<not> snd (listener_update ln opts) \<and> api_listener_get (Loadbalancers c) (ln_ID ln) w = (Ok ln, w)) \<and>
     (case chosen_pool lns pools opts sp of
        None \<Rightarrow> False
      | Some p \<Rightarrow> \<not> membersChanged (pool_Members p) (desired_members opts sp ips))"

text \<open>No listener and no pool of the load balancer is left over.\<close>

definition nothing_obsolete :: "service_options \<Rightarrow> listener list \<Rightarrow> pool list \<Rightarrow> service_port list \<Rightarrow> bool" where
  "nothing_obsolete opts lns pools ports \<longleftrightarrow>
     ln_ID ` set lns \<subseteq> (\<lambda>sp. ln_ID (the (port_listener lns opts sp))) ` set ports \<and>
     pool_ID ` set pools \<subseteq> (\<lambda>sp. pool_ID (the (chosen_pool lns pools opts sp))) ` set ports"

text \<open>What the lookup of the load balancer accepts.\<close>

definition looked_up :: "'w lbaas \<Rightarrow> service \<Rightarrow> loadbalancer list \<Rightarrow> loadbalancer \<Rightarrow> bool" where
  "looked_up l svc lbs lb \<longleftrightarrow> filter (live (lb_name l svc)) lbs = [lb] \<or>
     filter (live (lb_name l svc)) lbs = [] \<and> filter (live (lb_legacy_name l svc)) lbs = [lb]"

definition settled :: "'w lbaas \<Rightarrow> service \<Rightarrow> node list \<Rightarrow> service_options \<Rightarrow> 'w \<Rightarrow> loadbalancer \<Rightarrow> bool" where
  "settled l svc nodes opts w lb \<longleftrightarrow>
     (\<exists>lbs cur lns pools ips.
        api_lb_list (Loadbalancers (l_client l)) w = (Ok lbs, w) \<and> looked_up l svc lbs lb \<and>
        api_lb_get (Loadbalancers (l_client l)) (lb_ID lb) w = (Ok cur, w) \<and>
        lb_ProvisioningStatus cur = ProvisioningStatusActive \<and>
        api_listener_list (Loadbalancers (l_client l)) (lb_ID lb) w = (Ok lns, w) \<and>
        api_pool_list (Pools (l_client l)) \<lparr>pl_LoadbalancerID = lb_ID lb, pl_ListenerID = [], pl_Details = True\<rparr> w =
          (Ok pools, w) \<and>
        node_addresses nodes = Ok ips \<and>
        list_all (settled_port (l_client l) w opts ips lns pools) (svc_Ports svc) \<and>
        nothing_obsolete opts lns pools (svc_Ports svc))"

section \<open>The phases\<close>

lemma distinct_map_earlier: "distinct (map f (xs @ y # ys)) \<Longrightarrow> \<forall>x \<in> set xs. f x \<noteq> f y"
  by (auto simp: image_iff)

lemma quiet_wait:
  assumes "exact_polling (ExponentialBackoff c)"
    and "api_lb_get (Loadbalancers c) i w = (Ok lb, w)" "lb_ProvisioningStatus lb = ProvisioningStatusActive"
  shows "quiet w (wait_phase c i after) ()"
proof (rule quietI)
  fix s :: "'a st" assume "world s = w"
  then show "\<exists>es. wait_phase c i after s = (Ok (), s\<lparr>calls := calls s @ es\<rparr>) \<and> list_all (\<lambda>e. phase_of e = None) es"
    using assms(2,3)
    by (intro exI [where x = "[LB (Loadbalancers_Get i (Ok lb))]"])
      (simp add: wait_phase_def waitLoadbalancerActiveProvisioningStatus_def exact_polling.drive_exact [OF assms(1)]
        active_backoff_def run run_closure_def wait_active_cond_def lift_st_def assign_def lb_get_def call_def)
qed

lemma quiet_find:
  assumes "api_lb_list (Loadbalancers (l_client l)) w = (Ok lbs, w)" "looked_up l svc lbs lb"
  shows "quiet w (find_or_create l svc opts) lb"
proof -
  have "quiet w (getLoadbalancerByName (l_client l) (lb_name l svc) (lb_legacy_name l svc)) lb"
    unfolding getLoadbalancerByName_def
    by (rule quiet_bindM, rule quiet_call, rule assms(1))
      (use assms(2) in \<open>auto simp: looked_up_def Let_def quiet_retM\<close>)
  then show ?thesis unfolding find_or_create_def Let_def by (rule quiet_tryM) (rule quiet_retM)
qed

lemma quiet_ensure_listener:
  assumes "port_listener lns opts sp = Some ln" "\<not> snd (listener_update ln opts)"
    and "api_listener_get (Loadbalancers (l_client l)) (ln_ID ln) w = (Ok ln, w)"
  shows "quiet w (ensure_listener l lb lns opts sp (result, used)) (result(servicePortKey sp \<mapsto> ln), ln_ID ln # used)"
  using assms(1,2)
  by (auto simp: ensure_listener_def Let_def port_listener_def updateListenerIfNeeded_def case_prod_beta
      getListenerByID_def listener_get_def intro!: quiet_intros assms(3))

lemma quiet_listeners:
  assumes "api_listener_list (Loadbalancers (l_client l)) (lb_ID lb) w = (Ok lns, w)"
    and "list_all (settled_port (l_client l) w opts ips lns pools) ports" "distinct (map servicePortKey ports)"
    and "nothing_obsolete opts lns pools ports"
  shows "\<exists>result. quiet w (ensureLoadBalancerListeners l lb ports opts) (result, []) \<and>
    (\<forall>sp \<in> set ports. result (servicePortKey sp) = port_listener lns opts sp)"
proof -
  define I where "I = (\<lambda>done (result, used). (\<forall>sp \<in> set done. result (servicePortKey sp) = port_listener lns opts sp) \<and>
    set used = (\<lambda>sp. ln_ID (the (port_listener lns opts sp))) ` set done)"
  have "\<exists>a. quiet w (foldM (ensure_listener l lb lns opts) ports (Map.empty, [])) a \<and> I ports a"
  proof (rule quiet_foldM)
    show "I [] (Map.empty, [])" by (simp add: I_def)
  next
    fix "done" sp rest a
    assume ports: "ports = done @ sp # rest" and I: "I done a"
    obtain result used where a: "a = (result, used)" by fastforce
    from assms(2) ports obtain ln where ln: "port_listener lns opts sp = Some ln" "\<not> snd (listener_update ln opts)"
        "api_listener_get (Loadbalancers (l_client l)) (ln_ID ln) w = (Ok ln, w)"
      by (auto simp: settled_port_def split: option.splits)
    have "\<forall>sp' \<in> set done. servicePortKey sp' \<noteq> servicePortKey sp"
      using assms(3) unfolding ports by (rule distinct_map_earlier)
    then have "I (done @ [sp]) (result(servicePortKey sp \<mapsto> ln), ln_ID ln # used)"
      using I ln(1) unfolding I_def a by auto
    with quiet_ensure_listener [OF ln] a
    show "\<exists>a'. quiet w (ensure_listener l lb lns opts sp a) a' \<and> I (done @ [sp]) a'" by blast
  qed
  then obtain result used where fold: "quiet w (foldM (ensure_listener l lb lns opts) ports (Map.empty, [])) (result, used)"
    and "I ports (result, used)" by auto
  then have used: "filter (\<lambda>ln. ln_ID ln \<notin> set used) lns = []"
    and result: "\<forall>sp \<in> set ports. result (servicePortKey sp) = port_listener lns opts sp"
    using assms(4) by (auto simp: I_def nothing_obsolete_def filter_empty_conv)
  have "quiet w (ensureLoadBalancerListeners l lb ports opts) (result, [])"
    unfolding ensureLoadBalancerListeners_def getListenersByLoadBalancerID_def
    by (rule quiet_bindM, rule quiet_wrapM, rule quiet_call, rule assms(1), simp, rule quiet_bindM, rule fold)
      (simp add: used quiet_retM)
  with result show ?thesis by blast
qed

lemma quiet_pools:
  assumes "api_pool_list (Pools (l_client l)) \<lparr>pl_LoadbalancerID = lb_ID lb, pl_ListenerID = [], pl_Details = True\<rparr> w =
      (Ok pools, w)"
    and "list_all (settled_port (l_client l) w opts ips lns pools) (svc_Ports svc)"
    and "distinct (map servicePortKey (svc_Ports svc))" "nothing_obsolete opts lns pools (svc_Ports svc)"
    and "\<And>sp. sp \<in> set (svc_Ports svc) \<Longrightarrow> listeners (servicePortKey sp) = port_listener lns opts sp"
  shows "\<exists>result. quiet w (ensureLoadBalancerPools l lb svc listeners opts) (result, []) \<and>
    (\<forall>sp \<in> set (svc_Ports svc). result (servicePortKey sp) = chosen_pool lns pools opts sp)"
proof -
  let ?ports = "svc_Ports svc"
  let ?f = "ensure_pool l lb listeners opts (pools_by_listener pools)"
  define I where "I = (\<lambda>done (result, used). (\<forall>sp \<in> set done. result (servicePortKey sp) = chosen_pool lns pools opts sp) \<and>
    set used = (\<lambda>sp. pool_ID (the (chosen_pool lns pools opts sp))) ` set done)"
  have "\<exists>a. quiet w (foldM ?f ?ports (Map.empty, [])) a \<and> I ?ports a"
  proof (rule quiet_foldM)
    show "I [] (Map.empty, [])" by (simp add: I_def)
  next
    fix "done" sp rest a
    assume ports: "?ports = done @ sp # rest" and I: "I done a"
    obtain result used where a: "a = (result, used)" by fastforce
    from assms(2) ports obtain ln p where ln: "port_listener lns opts sp = Some ln"
      and p: "pools_by_listener pools (ln_ID ln) = Some p" "chosen_pool lns pools opts sp = Some p"
      by (auto simp: settled_port_def chosen_pool_def split: option.splits)
    have "\<forall>sp' \<in> set done. servicePortKey sp' \<noteq> servicePortKey sp"
      using assms(3) unfolding ports by (rule distinct_map_earlier)
    then have "I (done @ [sp]) (result(servicePortKey sp \<mapsto> p), pool_ID p # used)"
      using I p(2) unfolding I_def a by auto
    moreover have "listeners (servicePortKey sp) = Some ln" using assms(5) ports ln by simp
    then have "?f sp a = retM (result(servicePortKey sp \<mapsto> p), pool_ID p # used)"
      using p(1) by (simp add: ensure_pool_def Let_def a)
    ultimately show "\<exists>a'. quiet w (?f sp a) a' \<and> I (done @ [sp]) a'" using quiet_retM by metis
  qed
  then obtain result used where fold: "quiet w (foldM ?f ?ports (Map.empty, [])) (result, used)"
    and "I ?ports (result, used)" by auto
  then have used: "filter (\<lambda>p. pool_ID p \<notin> set used) pools = []"
    and result: "\<forall>sp \<in> set ?ports. result (servicePortKey sp) = chosen_pool lns pools opts sp"
    using assms(4) by (auto simp: I_def nothing_obsolete_def filter_empty_conv)
  have "quiet w (ensureLoadBalancerPools l lb svc listeners opts) (result, [])"
    unfolding ensureLoadBalancerPools_def listPoolsByLoadBalancerID_def pool_list_def
    by (rule quiet_bindM, rule quiet_wrapM, rule quiet_call, rule assms(1), simp, rule quiet_bindM, rule fold)
      (simp add: used quiet_retM)
  with result show ?thesis by blast
qed

lemma quiet_members:
  assumes "node_addresses nodes = Ok ips" "list_all (settled_port c w opts ips lns ps) (svc_Ports svc)"
    and "\<And>sp. sp \<in> set (svc_Ports svc) \<Longrightarrow> pools (servicePortKey sp) = chosen_pool lns ps opts sp"
  shows "quiet w (reconcilePoolMembers l lb svc pools opts nodes) pools"
proof (rule quietI)
  fix s
  have "reconcilePoolMembers l lb svc pools opts nodes s = (Ok pools, s)"
    by (rule reconcilePoolMembers_noop [OF assms(1)])
      (use assms(2,3) in \<open>fastforce simp: settled_port_def list_all_iff split: option.splits\<close>)
  then show "\<exists>es. reconcilePoolMembers l lb svc pools opts nodes s = (Ok pools, s\<lparr>calls := calls s @ es\<rparr>) \<and>
      list_all (\<lambda>e. phase_of e = None) es"
    by (intro exI [where x = "[]"]) simp
qed

lemma quiet_cleanup: "quiet w (deleteObsoleteListenersAndPools l lb [] []) ()"
  by (simp add: deleteObsoleteListenersAndPools_def quiet_retM)

text \<open>The address of the load balancer: its own, or that of the floating IP that its port already has.\<close>

definition settled_address :: "'w client \<Rightarrow> service_options \<Rightarrow> 'w \<Rightarrow> loadbalancer \<Rightarrow> ip \<Rightarrow> bool" where
  "settled_address c opts w lb addr \<longleftrightarrow>
     (if so_Internal opts then addr = lb_VipAddress lb
      else \<exists>fip. api_fip_by_port (Networks c) (lb_VipPortID lb) w = (Ok [fip], w) \<and>
        addr = parse_ip (fip_FloatingIPAddress fip))"

lemma quiet_address:
  assumes "settled_address (l_client l) opts w lb addr"
  shows "quiet w (if \<not> so_Internal opts then ensureServiceFloatingIP l svc lb else retM (lb_VipAddress lb)) addr"
proof (cases "so_Internal opts")
  case True
  with assms show ?thesis by (simp add: settled_address_def quiet_retM)
next
  case False
  with assms obtain fip where fip: "api_fip_by_port (Networks (l_client l)) (lb_VipPortID lb) w = (Ok [fip], w)"
      "addr = parse_ip (fip_FloatingIPAddress fip)" by (auto simp: settled_address_def)
  have "quiet w (EnsureFloatingIP (l_client l) False (lb_VipPortID lb) existing) addr" for existing
    by (rule quietI, rule exI [where x = "[NW (Floatingips_ListByPort (lb_VipPortID lb))]"])
      (use fip in \<open>simp add: EnsureFloatingIP_keeps [where fip = fip and w = w]\<close>)
  with False show ?thesis by (simp add: ensureServiceFloatingIP_def Let_def quiet_wrapM)
qed

text \<open>The security group of the service, when the controller manages it: every port has a rule for the subnet
  and every node is in the group.\<close>

definition settled_group :: "'w client \<Rightarrow> service \<Rightarrow> node list \<Rightarrow> service_options \<Rightarrow> 'w \<Rightarrow> bool" where
  "settled_group c svc nodes opts w \<longleftrightarrow>
     (\<exists>list grp subnet.
        api_sg_list (Networks c) w = (Ok list, w) \<and> sg_id (getSecurityGroupName svc) list \<noteq> [] \<and>
        api_sg_get (Networks c) (sg_id (getSecurityGroupName svc) list) w = (Ok grp, w) \<and>
        api_subnet_get (Networks c) (so_SubnetID opts) w = (Ok subnet, w) \<and>
        (\<forall>port \<in> set (svc_Ports svc). \<exists>rule \<in> set (sg_Rules grp).
           compareSecurityGroup rule (no_filter\<lparr>ro_Direction := SGRuleDirectionIngress,
             ro_Protocol := toRuleProtocol c (sp_Protocol port), ro_PortRangeMax := sp_NodePort port,
             ro_PortRangeMin := sp_NodePort port, ro_RemoteIPPrefix := sn_CIDR subnet,
             ro_SecurityGroupID := sg_id (getSecurityGroupName svc) list\<rparr>)) \<and>
        (\<forall>n \<in> set nodes. \<exists>inst. quiet w (getInstanceByNode c n) inst \<and>
           getSecurityGroupName svc \<in> set (inst_SecurityGroups inst)))"

lemma quiet_each:
  assumes "\<And>x. x \<in> set xs \<Longrightarrow> quiet w (f x ()) ()"
  shows "quiet w (foldM f xs ()) ()"
  using assms by (induction xs) (auto intro: quiet_retM quiet_bindM)

lemma quiet_ensure_rule:
  assumes "api_sg_get (Networks c) gid w = (Ok grp, w)" "gid \<noteq> []"
    and "api_subnet_get (Networks c) (so_SubnetID opts) w = (Ok subnet, w)"
    and "rule \<in> set (sg_Rules grp)"
    and "compareSecurityGroup rule (no_filter\<lparr>ro_Direction := SGRuleDirectionIngress,
      ro_Protocol := toRuleProtocol c (sp_Protocol port), ro_PortRangeMax := sp_NodePort port,
      ro_PortRangeMin := sp_NodePort port, ro_RemoteIPPrefix := sn_CIDR subnet, ro_SecurityGroupID := gid\<rparr>)"
  shows "quiet w (ensure_rule c cl svc opts gid port ()) ()"
proof -
  let ?o = "no_filter\<lparr>ro_Direction := SGRuleDirectionIngress,
      ro_Protocol := toRuleProtocol c (sp_Protocol port), ro_PortRangeMax := sp_NodePort port,
      ro_PortRangeMin := sp_NodePort port, ro_RemoteIPPrefix := sn_CIDR subnet, ro_SecurityGroupID := gid\<rparr>"
  have "quiet w (call (\<lambda>_. SG (SecurityGroups_Get gid)) (api_sg_get (Networks c) gid)) grp"
    by (rule quiet_call, rule assms(1)) simp
  then have rules: "quiet w (getSecurityGroupRules c ?o) (filter (\<lambda>r. compareSecurityGroup r ?o) (sg_Rules grp))"
    unfolding getSecurityGroupRules_def
    by (intro quiet_bindM [where x = "sg_Rules grp"]) (simp_all add: assms(2) quiet_bindM quiet_retM)
  have some: "filter (\<lambda>r. compareSecurityGroup r ?o) (sg_Rules grp) \<noteq> []"
    using assms(4,5) by (auto simp: filter_empty_conv)
  have "quiet w (call (\<lambda>_. NW (Subnetworks_Get (so_SubnetID opts))) (api_subnet_get (Networks c) (so_SubnetID opts))) subnet"
    by (rule quiet_call, rule assms(3)) simp
  then show ?thesis
    unfolding ensure_rule_def
    by (rule quiet_bindM [OF quiet_wrapM], intro quiet_bindM [OF quiet_wrapM [OF rules]]) (simp add: some quiet_retM)
qed

lemma quiet_group:
  assumes "settled_group c svc nodes opts w" "svc_Ports svc \<noteq> []"
  shows "quiet w (ensureSecurityGroup c cl svc nodes opts) ()"
proof -
  from assms(1) obtain list grp subnet where
    list: "api_sg_list (Networks c) w = (Ok list, w)" "sg_id (getSecurityGroupName svc) list \<noteq> []"
    and grp: "api_sg_get (Networks c) (sg_id (getSecurityGroupName svc) list) w = (Ok grp, w)"
    and subnet: "api_subnet_get (Networks c) (so_SubnetID opts) w = (Ok subnet, w)"
    and rules: "\<forall>port \<in> set (svc_Ports svc). \<exists>rule \<in> set (sg_Rules grp).
       compareSecurityGroup rule (no_filter\<lparr>ro_Direction := SGRuleDirectionIngress,
         ro_Protocol := toRuleProtocol c (sp_Protocol port), ro_PortRangeMax := sp_NodePort port,
         ro_PortRangeMin := sp_NodePort port, ro_RemoteIPPrefix := sn_CIDR subnet,
         ro_SecurityGroupID := sg_id (getSecurityGroupName svc) list\<rparr>)"
    and nodes: "\<forall>n \<in> set nodes. \<exists>inst. quiet w (getInstanceByNode c n) inst \<and>
       getSecurityGroupName svc \<in> set (inst_SecurityGroups inst)"
    unfolding settled_group_def by blast
  have "quiet w (apply_node c (getSecurityGroupName svc) n ()) ()" if "n \<in> set nodes" for n
  proof -
    from nodes that obtain inst where inst: "quiet w (getInstanceByNode c n) inst"
        "getSecurityGroupName svc \<in> set (inst_SecurityGroups inst)" by blast
    show ?thesis unfolding apply_node_def by (rule quiet_bindM [OF inst(1)]) (simp add: inst(2) quiet_retM)
  qed
  then have apply_all: "quiet w (applyNodeSecurityGroupIDForLB c nodes (getSecurityGroupName svc)) ()"
    unfolding applyNodeSecurityGroupIDForLB_def by (rule quiet_each)
  have "quiet w (ensure_rule c cl svc opts (sg_id (getSecurityGroupName svc) list) port ()) ()"
    if "port \<in> set (svc_Ports svc)" for port
    using rules that quiet_ensure_rule [OF grp list(2) subnet] by blast
  then have all_rules: "quiet w (foldM (ensure_rule c cl svc opts (sg_id (getSecurityGroupName svc) list)) (svc_Ports svc) ()) ()"
    by (rule quiet_each)
  have "quiet w (sg_list c) list" unfolding sg_list_def by (rule quiet_call, rule list(1)) simp
  then show ?thesis
    unfolding ensureSecurityGroup_def Let_def
    by (simp add: assms(2), rule quiet_bindM) (simp add: list(2) quiet_bindM [OF all_rules apply_all])
qed

definition converged ::
    "'w lbaas \<Rightarrow> service \<Rightarrow> node list \<Rightarrow> service_options \<Rightarrow> 'w \<Rightarrow> loadbalancer \<Rightarrow> ip \<Rightarrow> bool" where
  "converged l svc nodes opts w lb addr \<longleftrightarrow>
     settled l svc nodes opts w lb \<and> settled_address (l_client l) opts w lb addr \<and>
     (if so_ManageSecurityGroups opts then settled_group (l_client l) svc nodes opts w else True)"

lemma quiet_parts:
  assumes exact: "exact_polling (ExponentialBackoff (l_client l))"
    and converged: "converged l svc nodes opts w lb addr"
    and distinct: "distinct (map servicePortKey (svc_Ports svc))" and some: "svc_Ports svc \<noteq> []"
  shows "quiet w (find_or_create l svc opts) lb" "quiet w (ensure_parts l cl svc nodes opts lb) [ip_string addr]"
proof -
  from converged have settled: "settled l svc nodes opts w lb" "settled_address (l_client l) opts w lb addr"
    and group: "so_ManageSecurityGroups opts \<Longrightarrow> settled_group (l_client l) svc nodes opts w"
    by (auto simp: converged_def split: if_splits)
  from settled(1) obtain lbs cur lns pools ips where
    list: "api_lb_list (Loadbalancers (l_client l)) w = (Ok lbs, w)" "looked_up l svc lbs lb"
    and cur: "api_lb_get (Loadbalancers (l_client l)) (lb_ID lb) w = (Ok cur, w)"
      "lb_ProvisioningStatus cur = ProvisioningStatusActive"
    and lns: "api_listener_list (Loadbalancers (l_client l)) (lb_ID lb) w = (Ok lns, w)"
    and pools: "api_pool_list (Pools (l_client l)) \<lparr>pl_LoadbalancerID = lb_ID lb, pl_ListenerID = [], pl_Details = True\<rparr> w =
      (Ok pools, w)"
    and ips: "node_addresses nodes = Ok ips"
    and ports: "list_all (settled_port (l_client l) w opts ips lns pools) (svc_Ports svc)"
    and none: "nothing_obsolete opts lns pools (svc_Ports svc)"
    unfolding settled_def by blast
  show "quiet w (find_or_create l svc opts) lb" by (rule quiet_find [OF list])
  from quiet_listeners [OF lns ports distinct none] obtain listeners where
    listeners: "quiet w (ensureLoadBalancerListeners l lb (svc_Ports svc) opts) (listeners, [])"
      "\<And>sp. sp \<in> set (svc_Ports svc) \<Longrightarrow> listeners (servicePortKey sp) = port_listener lns opts sp" by blast
  from quiet_pools [OF pools ports distinct none listeners(2)] obtain result where
    result: "quiet w (ensureLoadBalancerPools l lb svc listeners opts) (result, [])"
      "\<And>sp. sp \<in> set (svc_Ports svc) \<Longrightarrow> result (servicePortKey sp) = chosen_pool lns pools opts sp" by blast
  note wait = quiet_wait [OF exact cur]
  have groups: "quiet w (if so_ManageSecurityGroups opts then wrapM f (ensureSecurityGroup (l_client l) cl svc nodes opts)
      else retM ()) ()" for f
    by (rule quiet_if) (auto intro: quiet_wrapM quiet_retM quiet_group [OF group some])
  show "quiet w (ensure_parts l cl svc nodes opts lb) [ip_string addr]"
    unfolding ensure_parts_def
    by (rule quiet_bindM [OF wait], rule quiet_bindM [OF listeners(1)], simp only: prod.case,
        rule quiet_bindM [OF wait], rule quiet_bindM [OF result(1)], simp only: prod.case,
        rule quiet_bindM [OF wait], rule quiet_bindM [OF quiet_members [OF ips ports result(2)]], assumption,
        rule quiet_bindM [OF quiet_cleanup], rule quiet_bindM [OF quiet_address [OF settled(2)]],
        rule quiet_bindM [OF groups], rule quiet_retM)
qed

section \<open>Properties\<close>

text \<open>C9: reconciling again changes nothing: when the load balancer, its listeners, pools, members, address
  and security group already are as the service wants them, \<open>EnsureLoadBalancer\<close> succeeds with the address
  of the load balancer, makes no request that belongs to a phase and leaves the cloud as it is.\<close>

theorem converged_run_is_quiet:
  assumes "exact_polling (ExponentialBackoff (l_client l))"
    and "nodes \<noteq> []" "svc_Ports svc \<noteq> []" "distinct (map servicePortKey (svc_Ports svc))"
    and "quiet w (resolveServiceOptions l svc nodes) opts" "converged l svc nodes opts w lb addr"
  shows "quiet w (EnsureLoadBalancer l clusterName svc nodes) [ip_string addr]"
  using assms quiet_parts [OF assms(1,6,4,3)] by (simp add: EnsureLoadBalancer_parts quiet_bindM)

text \<open>The simulated cloud after a first run, and the second run in it.\<close>

definition sim_done :: sim where
  "sim_done = world (snd (EnsureLoadBalancer sim_lbaas ''k8s'' example_service [sim_node] sim_empty))"

lemma sim_done_eq:
  "sim_done = \<lparr>
     sim_lbs = [\<lparr>lb_ID = ''lb-0'', lb_Name = lb_name sim_lbaas example_service, lb_ProvisioningStatus = ''ACTIVE'',
       lb_VipAddress = [10, 0, 0, 5], lb_VipPortID = ''port''\<rparr>],
     sim_listeners = [\<lparr>ln_ID = ''ln-1'',
       ln_Name = buildListenerName (lb_name sim_lbaas example_service)
         \<lparr>sp_Name = ''http'', sp_Protocol = ProtocolTCP, sp_Port = 80, sp_NodePort = 30080\<rparr>,
       ln_Protocol = ''TCP'', ln_ProtocolPort = 80, ln_SecretID = [], ln_TimeoutClientData = None,
       ln_TimeoutMemberData = None, ln_TimeoutMemberConnect = None\<rparr>],
     sim_pools = [\<lparr>pool_ID = ''pool-2'',
       pool_Name = buildPoolName (lb_name sim_lbaas example_service)
         \<lparr>sp_Name = ''http'', sp_Protocol = ProtocolTCP, sp_Port = 80, sp_NodePort = 30080\<rparr>,
       pool_Listeners = [''ln-1''],
       pool_Members = [\<lparr>pm_ID = [], pm_Address = [0, 0, 0, 0, 0, 0, 0, 0, 0, 0, 255, 255, 10, 0, 0, 11],
         pm_ProtocolPort = 30080, pm_SubnetID = ''subnet-1''\<rparr>],
       pool_SessionPersistence = None, pool_LoadbalancerAlgorithm = ''ROUND_ROBIN''\<rparr>],
     sim_next = 3\<rparr>"
proof -
  have "show_nat (Suc (Suc 0)) = ''2''" by code_simp
  then show ?thesis
    by (simp add: sim_done_def run sim_resolve Let_def sim_defs resolveListenerProtocol_def)
qed

lemma sim_converged:
  "converged sim_lbaas example_service [sim_node] sim_options sim_done (hd (sim_lbs sim_done)) [10, 0, 0, 5]"
  by (simp add: converged_def settled_def looked_up_def settled_address_def sim_done_eq sim_defs settled_port_def nothing_obsolete_def
      port_listener_def chosen_pool_def pools_by_listener_def live_def resolveListenerProtocol_def listener_update_def
      intPtrEqual_def Let_def)

lemma converged_run_is_quiet_witness:
  "quiet sim_done (EnsureLoadBalancer sim_lbaas ''k8s'' example_service [sim_node]) [''10.0.0.5'']"
proof -
  have "quiet sim_done (EnsureLoadBalancer sim_lbaas ''k8s'' example_service [sim_node]) [ip_string [10, 0, 0, 5]]"
    by (rule converged_run_is_quiet [OF _ _ _ _ _ sim_converged])
      (simp_all add: poll_driver.exact_polling_axioms example_ports, rule quietI, rule exI [where x = "[]"],
        simp add: sim_resolve)
  then show ?thesis by simp
qed

end
