(* ===== verification/Repeat.thy ===== *)
theory Repeat
  imports Steady
begin

text \<open>
  A second reconciliation. A successful run on a store leaves the load balancer with what the service asks for
  (\<open>Converge\<close>); when the store has come to rest, this is the state that \<open>Steady\<close> calls settled, in which
  another run changes nothing.
\<close>

section \<open>A store at rest\<close>

text \<open>Reads change nothing and see the store as it is; the load balancers are ACTIVE.\<close>

definition at_rest :: "'w client \<Rightarrow> 'w view \<Rightarrow> 'w \<Rightarrow> bool" where
  "at_rest c v w \<longleftrightarrow> api_lb_list (Loadbalancers c) w = (Ok (lbs_of v w), w) \<and>
     (\<forall>lb \<in> set (lbs_of v w).
        lb_ProvisioningStatus lb = ''ACTIVE'' \<and> api_lb_get (Loadbalancers c) (lb_ID lb) w = (Ok lb, w) \<and>
        api_listener_list (Loadbalancers c) (lb_ID lb) w = (Ok (lns_of v w (lb_ID lb)), w) \<and>
        api_pool_list (Pools c) \<lparr>pl_LoadbalancerID = lb_ID lb, pl_ListenerID = [], pl_Details = True\<rparr> w =
          (Ok (pools_of v w (lb_ID lb)), w) \<and>
        (\<forall>ln \<in> set (lns_of v w (lb_ID lb)). ln_ID ln \<noteq> [] \<and> api_listener_get (Loadbalancers c) (ln_ID ln) w = (Ok ln, w)))"

text \<open>At most one load balancer has one of the names.\<close>

definition lone :: "string set \<Rightarrow> loadbalancer list \<Rightarrow> bool" where
  "lone names lbs \<longleftrightarrow> length (filter (\<lambda>lb. lb_Name lb \<in> names) lbs) \<le> 1"

lemma lone_live:
  assumes "lone names lbs" "lb \<in> set lbs" "lb_Name lb \<in> names" "\<forall>lb \<in> set lbs. lb_ProvisioningStatus lb = ''ACTIVE''" "n \<in> names"
  shows "filter (live n) lbs = (if lb_Name lb = n then [lb] else [])"
proof -
  from assms(1-3) have "filter (\<lambda>lb. lb_Name lb \<in> names) lbs = [lb]"
  proof (cases "filter (\<lambda>lb. lb_Name lb \<in> names) lbs")
    case Nil
    with assms(2,3) show ?thesis by (simp add: filter_empty_conv)
  next
    case (Cons x xs)
    with assms(1) have "filter (\<lambda>lb. lb_Name lb \<in> names) lbs = [x]" by (simp add: lone_def)
    moreover have "lb \<in> set (filter (\<lambda>lb. lb_Name lb \<in> names) lbs)" using assms(2,3) by simp
    ultimately show ?thesis by (metis list.set_cases set_ConsD empty_iff list.set(1))
  qed
  moreover have "filter (live n) lbs = filter (\<lambda>lb. lb_Name lb = n) (filter (\<lambda>lb. lb_Name lb \<in> names) lbs)"
    using assms(4,5) by (auto simp: live_def filter_filter intro!: filter_cong)
  ultimately show ?thesis by simp
qed

section \<open>From realised to settled\<close>

text \<open>Every pool of a listener with an ID is in the index.\<close>

lemma pools_by_listener_finds:
  assumes "p \<in> set ps" "ref \<in> set (pool_Listeners p)" "ref \<noteq> []"
  shows "\<exists>q. pools_by_listener ps ref = Some q"
proof -
  let ?add = "\<lambda>q m ref. if ref = [] then m else m(ref \<mapsto> q)"
  have inner: "m ref \<noteq> None \<or> ref \<in> set refs \<Longrightarrow> foldl (?add q) m refs ref \<noteq> None" for m :: "string \<rightharpoonup> pool" and q refs
    by (induction refs arbitrary: m) (use assms(3) in auto)
  have "m ref \<noteq> None \<or> p \<in> set ps \<Longrightarrow> foldl (\<lambda>m p. foldl (?add p) m (pool_Listeners p)) m ps ref \<noteq> None" for m :: "string \<rightharpoonup> pool"
  proof (induction ps arbitrary: m)
    case (Cons q ps)
    have "foldl (?add q) m (pool_Listeners q) ref \<noteq> None \<or> p \<in> set ps"
      using Cons.prems inner [of m "pool_Listeners q" q] assms(2) by auto
    from Cons.IH [of "foldl (?add q) m (pool_Listeners q)", OF this] show ?case by simp
  qed simp
  with assms(1) show ?thesis unfolding pools_by_listener_def by blast
qed

context store
begin

lemma realised_ports:
  assumes sane: "sane w" and rest: "at_rest c v w" and lb: "lb \<in> set (lbs_of v w)"
    and sep: "separate opts ports" and realised: "realised opts ports ips (lns_of v w (lb_ID lb)) (pools_of v w (lb_ID lb))"
    and node: "\<forall>sp \<in> set ports. sp_NodePort sp \<noteq> 0"
    and updated: "\<forall>ln \<in> set (lns_of v w (lb_ID lb)). \<not> snd (listener_update ln opts)"
  shows "list_all (settled_port c w opts ips (lns_of v w (lb_ID lb)) (pools_of v w (lb_ID lb))) ports \<and>
    nothing_obsolete opts (lns_of v w (lb_ID lb)) (pools_of v w (lb_ID lb)) ports"
proof -
  let ?lns = "lns_of v w (lb_ID lb)" and ?ps = "pools_of v w (lb_ID lb)"
  from realised obtain kf pf where kp: "\<forall>sp \<in> set ports. serves opts sp (kf sp) \<and> pool_Listeners (pf sp) = [fst (kf sp)] \<and>
      \<not> membersChanged (pool_Members (pf sp)) (desired_members opts sp ips)"
    and lns: "ln_key ` set ?lns = kf ` set ports" and ps: "set ?ps = pf ` set ports"
    unfolding realised_def by (elim exE conjE)
  note at = kp [rule_format]
  have apart: "sp = sp'" if "sp \<in> set ports" "sp' \<in> set ports" "serves opts sp k" "serves opts sp' k" for sp sp' k
    by (rule inj_onD [OF sep [unfolded separate_def] _ that(1,2)]) (use that(3,4) in \<open>simp add: serves_def\<close>)
  have ln: "\<exists>ln \<in> set ?lns. port_listener ?lns opts sp = Some ln \<and> ln_key ln = kf sp" if sp: "sp \<in> set ports" for sp
  proof -
    from lns sp obtain ln0 where "ln0 \<in> set ?lns" "ln_key ln0 = kf sp" by (metis imageE imageI)
    then have "ln0 \<in> set ?lns" "serves opts sp (ln_key ln0)" using at [OF sp] by simp_all
    then have "port_listener ?lns opts sp \<noteq> None"
      by (auto simp: port_listener_def findListenerForServicePort_def serves_def ln_key_def find_listener_None)
    then obtain ln where ln: "port_listener ?lns opts sp = Some ln" by blast
    then have "ln \<in> set ?lns" "serves opts sp (ln_key ln)"
      by (auto simp: port_listener_def findListenerForServicePort_def serves_def ln_key_def dest: find_listener_Some)
    moreover from this(1) lns obtain sp' where "sp' \<in> set ports" "ln_key ln = kf sp'" by (metis imageE imageI)
    ultimately show ?thesis using apart [OF sp] at ln by metis
  qed
  have pool: "chosen_pool ?lns ?ps opts sp = Some (pf sp)" if sp: "sp \<in> set ports" for sp
  proof -
    from ln [OF sp] obtain ln where ln: "ln \<in> set ?lns" "port_listener ?lns opts sp = Some ln" "ln_key ln = kf sp" by blast
    then have id: "ln_ID ln = fst (kf sp)" by (metis fst_conv ln_key_def)
    have "pf sp \<in> set ?ps" using ps sp by simp
    moreover have "ln_ID ln \<noteq> []" using rest lb ln(1) by (simp add: at_rest_def)
    ultimately obtain q where q: "pools_by_listener ?ps (ln_ID ln) = Some q"
      using pools_by_listener_finds [of "pf sp" ?ps "ln_ID ln"] at [OF sp] id by auto
    from pools_by_listener_Some [OF q] ps obtain sp' where sp': "sp' \<in> set ports" "q = pf sp'" "ln_ID ln \<in> set (pool_Listeners q)" by auto
    with at [OF sp'(1)] id have "fst (kf sp') = fst (kf sp)" by simp
    moreover have "kf sp \<in> ln_key ` set ?lns" "kf sp' \<in> ln_key ` set ?lns" using lns sp sp'(1) by blast+
    ultimately have "kf sp' = kf sp" using unique_keys [OF sane, of "kf sp'" lb "kf sp"] by simp
    with apart [OF sp sp'(1)] at [OF sp] at [OF sp'(1)] have "sp' = sp" by metis
    with q sp'(2) ln(2) show ?thesis by (simp add: chosen_pool_def)
  qed
  have "settled_port c w opts ips ?lns ?ps sp" if sp: "sp \<in> set ports" for sp
  proof -
    from ln [OF sp] obtain ln where "ln \<in> set ?lns" "port_listener ?lns opts sp = Some ln" by blast
    with rest lb updated node sp at [OF sp] pool [OF sp] show ?thesis by (simp add: settled_port_def at_rest_def)
  qed
  moreover have "nothing_obsolete opts ?lns ?ps ports"
    unfolding nothing_obsolete_def
  proof (intro conjI subsetI)
    fix i assume "i \<in> ln_ID ` set ?lns"
    then obtain ln where i: "i = ln_ID ln" "ln \<in> set ?lns" by blast
    with lns obtain sp where sp: "sp \<in> set ports" "ln_key ln = kf sp" by (metis imageE imageI)
    from ln [OF sp(1)] obtain ln' where "port_listener ?lns opts sp = Some ln'" "ln_key ln' = kf sp" by blast
    then have "ln_ID (the (port_listener ?lns opts sp)) = i" using sp(2) i(1) by (metis fst_conv ln_key_def option.sel)
    with sp(1) show "i \<in> (\<lambda>sp. ln_ID (the (port_listener ?lns opts sp))) ` set ports" by blast
  next
    fix i assume "i \<in> pool_ID ` set ?ps"
    then obtain sp where "sp \<in> set ports" "i = pool_ID (pf sp)" using ps by auto
    with pool show "i \<in> (\<lambda>sp. pool_ID (the (chosen_pool ?lns ?ps opts sp))) ` set ports" by force
  qed
  ultimately show ?thesis by (simp add: list_all_iff)
qed

lemma realised_settled:
  assumes c: "l_client l = c" and sane: "sane w" and rest: "at_rest c v w"
    and lb: "lb_key lb \<in> lb_keys v w" "lb_Name lb \<in> {lb_name l svc, lb_legacy_name l svc}"
    and lone: "lone {lb_name l svc, lb_legacy_name l svc} (lbs_of v w)"
    and sep: "separate opts (svc_Ports svc)" and ips: "node_addresses nodes = Ok ips"
    and realised: "realised opts (svc_Ports svc) ips (lns_of v w (lb_ID lb)) (pools_of v w (lb_ID lb))"
    and node: "\<forall>sp \<in> set (svc_Ports svc). sp_NodePort sp \<noteq> 0"
    and updated: "\<forall>lb \<in> set (lbs_of v w). \<forall>ln \<in> set (lns_of v w (lb_ID lb)). \<not> snd (listener_update ln opts)"
  shows "\<exists>lb \<in> set (lbs_of v w). settled l svc nodes opts w lb"
proof -
  from lb(1) obtain x where x: "x \<in> set (lbs_of v w)" "lb_ID lb = lb_ID x" "lb_Name lb = lb_Name x"
    by (auto simp: lb_keys_def lb_key_def)
  from rest have active: "\<forall>lb \<in> set (lbs_of v w). lb_ProvisioningStatus lb = ''ACTIVE''" by (simp add: at_rest_def)
  have "lb_Name x \<in> {lb_name l svc, lb_legacy_name l svc}" using lb(2) x(3) by simp
  with lone_live [OF lone x(1) this active] have "looked_up l svc (lbs_of v w) x" by (auto simp: looked_up_def)
  moreover have "\<forall>ln \<in> set (lns_of v w (lb_ID x)). \<not> snd (listener_update ln opts)" using updated x(1) by blast
  note realised_ports [OF sane rest x(1) sep realised [unfolded x(2)] node this]
  ultimately have "settled l svc nodes opts w x"
    using rest x(1) ips unfolding settled_def c at_rest_def by auto
  with x(1) show ?thesis by blast
qed

text \<open>So a run that follows a successful one changes nothing.\<close>

lemma EnsureLoadBalancer_again:
  assumes c: "l_client l = c" and d: "drivers c" and exact: "exact_polling (ExponentialBackoff c)"
    and distinct: "distinct (map servicePortKey (svc_Ports svc))" and sane: "sane (world s)"
    and opts: "resolveServiceOptions l svc nodes s = (Ok opts, s1)" "separate opts (svc_Ports svc)"
    and run: "EnsureLoadBalancer l cl svc nodes s = (Ok ingress, s')"
    and node: "\<forall>sp \<in> set (svc_Ports svc). sp_NodePort sp \<noteq> 0"
    and rest: "at_rest c v (world s')" "lone {lb_name l svc, lb_legacy_name l svc} (lbs_of v (world s'))"
    and updated: "\<forall>lb \<in> set (lbs_of v (world s')). \<forall>ln \<in> set (lns_of v (world s') (lb_ID lb)). \<not> snd (listener_update ln opts)"
    and again: "quiet (world s') (resolveServiceOptions l svc nodes) opts"
    and address: "\<forall>lb \<in> set (lbs_of v (world s')). \<exists>addr. settled_address c opts (world s') lb addr"
    and group: "so_ManageSecurityGroups opts \<Longrightarrow> settled_group c svc nodes opts (world s')"
  shows "\<exists>addr. quiet (world s') (EnsureLoadBalancer l cl svc nodes) [ip_string addr]"
proof -
  from EnsureLoadBalancer_realises_options [OF c d distinct sane opts run] obtain lb ips where
    lb: "lb_Name lb \<in> {lb_name l svc, lb_legacy_name l svc}" "node_addresses nodes = Ok ips" "sane (world s')"
      "lb_key lb \<in> lb_keys v (world s')"
      "realised opts (svc_Ports svc) ips (lns_of v (world s') (lb_ID lb)) (pools_of v (world s') (lb_ID lb))" by blast
  from realised_settled [OF c lb(3) rest(1) lb(4,1) rest(2) opts(2) lb(2,5) node updated] address obtain x addr where
    "settled l svc nodes opts (world s') x" "settled_address c opts (world s') x addr" by blast
  with group have conv: "converged l svc nodes opts (world s') x addr" by (simp add: converged_def c)
  from run have some: "nodes \<noteq> []" "svc_Ports svc \<noteq> []"
    unfolding EnsureLoadBalancer_parts by (auto simp: failM_def split: if_splits)
  have "quiet (world s') (EnsureLoadBalancer l cl svc nodes) [ip_string addr]"
    using some again quiet_parts [OF exact [folded c] conv distinct some(2)] by (simp add: EnsureLoadBalancer_parts quiet_bindM)
  then show ?thesis by blast
qed

end

end
