(* ===== verification/StoreGroups.thy ===== *)
theory StoreGroups
  imports SecurityGroups Triples
begin

text \<open>
  Security groups on an API that stores them. The locale \<open>group_store\<close> states how the API keeps the groups
  with their rules and which groups an instance is in; on it a successful \<open>ensureSecurityGroup\<close> leaves a group
  that admits the traffic to every port of the service, and has put every node into it. A small simulation
  instantiates the locale.
\<close>

section \<open>The laws of the API\<close>

text \<open>A view of a world: the groups and the groups of each instance; subnets and interfaces do not change.\<close>

record 'w group_view =
  groups_of :: "'w \<Rightarrow> security_group list"
  groups_on :: "'w \<Rightarrow> string \<Rightarrow> string set"
  cidr_of :: "string \<Rightarrow> string"
  interfaces_of :: "string \<Rightarrow> instance_interface list"

definition inert :: "'w group_view \<Rightarrow> ('w \<Rightarrow> bool) \<Rightarrow> ('w, 'a) ext \<Rightarrow> bool" where
  "inert g sane f \<longleftrightarrow> (\<forall>w. sane w \<longrightarrow> sane (snd (f w)) \<and> groups_of g (snd (f w)) = groups_of g w \<and>
     groups_on g (snd (f w)) = groups_on g w)"

definition add_rule :: "string \<Rightarrow> sg_rule \<Rightarrow> security_group \<Rightarrow> security_group" where
  "add_rule i r x = (if sg_ID x = i then x\<lparr>sg_Rules := sg_Rules x @ [r]\<rparr> else x)"

text \<open>The rule that a request for an ingress rule from a range of addresses leads to.\<close>

definition follows :: "rule_create_request \<Rightarrow> string \<Rightarrow> sg_rule \<Rightarrow> bool" where
  "follows req i r \<longleftrightarrow> sgr_SecurityGroupID r = i \<and> sgr_Direction r = rc_Direction req \<and>
     sgr_Protocol r = Some (rc_Protocol req) \<and> sgr_PortRangeMax r = rc_PortRangeMax req \<and>
     sgr_PortRangeMin r = rc_PortRangeMin req \<and> sgr_RemoteIPPrefix r = rc_RemoteIPPrefix req"

locale group_store =
  fixes c :: "'w client" and g :: "'w group_view" and sane :: "'w \<Rightarrow> bool"
  assumes ids: "sane w \<Longrightarrow> distinct (map sg_ID (groups_of g w)) \<and> [] \<notin> sg_ID ` set (groups_of g w)"
    and inert_reads: "inert g sane (api_sg_list (Networks c))" "inert g sane (api_sg_get (Networks c) i)"
      "inert g sane (api_subnet_get (Networks c) i)" "inert g sane (api_inst_get (Instances c) i)"
      "inert g sane (api_inst_list (Instances c) i)" "inert g sane (api_inst_interfaces (Instances c) i)"
    and sg_list: "sane w \<Longrightarrow> api_sg_list (Networks c) w = (Ok l, w') \<Longrightarrow> l = groups_of g w"
    and sg_get: "sane w \<Longrightarrow> api_sg_get (Networks c) i w = (Ok x, w') \<Longrightarrow> x \<in> set (groups_of g w) \<and> sg_ID x = i"
    and subnet_get: "sane w \<Longrightarrow> api_subnet_get (Networks c) i w = (Ok sn, w') \<Longrightarrow> sn_CIDR sn = cidr_of g i"
    and inst_got: "sane w \<Longrightarrow> api_inst_get (Instances c) i w = (Ok inst, w') \<Longrightarrow>
      inst_ID inst = i \<and> set (inst_SecurityGroups inst) = groups_on g w i"
    and interfaces: "sane w \<Longrightarrow> api_inst_interfaces (Instances c) i w = (Ok ifs, w') \<Longrightarrow> ifs = interfaces_of g i"
    and sg_create: "sane w \<Longrightarrow> api_sg_create (Networks c) name desc w = (Ok x, w') \<Longrightarrow>
      sane w' \<and> groups_of g w' = groups_of g w @ [x] \<and> sg_Name x = name \<and> groups_on g w' = groups_on g w"
    and rule_create: "sane w \<Longrightarrow> api_rule_create (Networks c) i req w = (Ok r, w') \<Longrightarrow>
      sane w' \<and> groups_of g w' = map (add_rule i r) (groups_of g w) \<and> follows req i r \<and> groups_on g w' = groups_on g w"
    and assign: "sane w \<Longrightarrow> api_inst_sg_assign (Instances c) i asg w = (Ok (), w') \<Longrightarrow>
      sane w' \<and> groups_of g w' = groups_of g w \<and> (\<forall>j. groups_on g w j \<subseteq> groups_on g w' j) \<and> asg_Name asg \<in> groups_on g w' i"

section \<open>What a service asks for\<close>

text \<open>A rule that lets the protocol in to a port from a range of addresses.\<close>

definition admits :: "sg_rule \<Rightarrow> string \<Rightarrow> int \<Rightarrow> string \<Rightarrow> bool" where
  "admits r protocol port cidr \<longleftrightarrow> sgr_Direction r = SGRuleDirectionIngress \<and> sgr_Protocol r = Some protocol \<and>
     sgr_PortRangeMin r = Some port \<and> sgr_PortRangeMax r = Some port \<and> sgr_RemoteIPPrefix r = Some cidr"

text \<open>The instance that the provider ID of a node names.\<close>

definition provider_instance :: "node \<Rightarrow> string option" where
  "provider_instance n =
     (let i = (case last_index (node_ProviderID n) CHR ''/'' of Some idx \<Rightarrow> drop (idx + 1) (node_ProviderID n)
        | None \<Rightarrow> node_ProviderID n)
      in if node_ProviderID n \<noteq> [] \<and> i \<noteq> [] then Some i else None)"

definition group_admits :: "'w client \<Rightarrow> 'w group_view \<Rightarrow> string \<Rightarrow> string \<Rightarrow> service_port list \<Rightarrow> 'w \<Rightarrow> bool" where
  "group_admits c g name subnet ports w \<longleftrightarrow> (\<exists>x \<in> set (groups_of g w). sg_Name x = name \<and>
     (\<forall>port \<in> set ports. \<exists>r \<in> set (sg_Rules x). admits r (toRuleProtocol c (sp_Protocol port)) (sp_NodePort port) (cidr_of g subnet)))"

text \<open>Every node is in the group, or has no port for it.\<close>

definition nodes_covered :: "'w group_view \<Rightarrow> string \<Rightarrow> node list \<Rightarrow> 'w \<Rightarrow> bool" where
  "nodes_covered g name nodes w \<longleftrightarrow> (\<forall>n \<in> set nodes. \<forall>i. provider_instance n = Some i \<longrightarrow>
     name \<in> groups_on g w i \<or> eligible_ports name (interfaces_of g i) = [])"

section \<open>The group of the service\<close>

lemma sg_id_map: "(\<And>x. sg_ID (f x) = sg_ID x \<and> sg_Name (f x) = sg_Name x) \<Longrightarrow> sg_id name (map f xs) = sg_id name xs"
  by (induction xs) auto

lemma sg_id_Some: "sg_id name xs \<noteq> [] \<Longrightarrow> \<exists>x \<in> set xs. sg_Name x = name \<and> sg_ID x = sg_id name xs"
  by (induction xs) auto

lemma sg_id_new: "[] \<notin> sg_ID ` set xs \<Longrightarrow> sg_id name xs = [] \<Longrightarrow> sg_id name (xs @ [x]) = (if sg_Name x = name then sg_ID x else [])"
  by (induction xs) (auto split: if_splits)

lemma add_rule_same [simp]: "sg_ID (add_rule i r x) = sg_ID x" "sg_Name (add_rule i r x) = sg_Name x"
  by (simp_all add: add_rule_def)

text \<open>A rule that the filter of \<open>ensure_rule\<close> lets through.\<close>

abbreviation rule_filter :: "string \<Rightarrow> int \<Rightarrow> string \<Rightarrow> string \<Rightarrow> rule_list_opts" where
  "rule_filter protocol port cidr gid \<equiv> no_filter\<lparr>ro_Direction := SGRuleDirectionIngress, ro_Protocol := protocol,
     ro_PortRangeMax := port, ro_PortRangeMin := port, ro_RemoteIPPrefix := cidr, ro_SecurityGroupID := gid\<rparr>"

lemma filter_admits:
  "compareSecurityGroup r (rule_filter protocol port cidr gid) \<Longrightarrow> protocol \<noteq> [] \<Longrightarrow> port \<noteq> 0 \<Longrightarrow> cidr \<noteq> [] \<Longrightarrow>
    admits r protocol port cidr"
  by (auto simp: compareSecurityGroup_def no_filter_def admits_def split: if_splits option.splits)

lemma rules_of_group:
  "gid \<noteq> [] \<Longrightarrow> getSecurityGroupRules c (rule_filter protocol port cidr gid) =
    bindM (bindM (call (\<lambda>_. SG (SecurityGroups_Get gid)) (api_sg_get (Networks c) gid)) (\<lambda>x. retM (sg_Rules x)))
      (\<lambda>rs. retM (filter (\<lambda>r. compareSecurityGroup r (rule_filter protocol port cidr gid)) rs))"
  by (simp add: getSecurityGroupRules_def)

lemma request_admits: "follows (lb_rule c cl svc gid cidr port) gid r \<Longrightarrow> admits r (toRuleProtocol c (sp_Protocol port)) (sp_NodePort port) cidr"
  by (simp add: follows_def lb_rule_def admits_def)

text \<open>The group \<open>gid\<close> is open to the traffic of a service port.\<close>

definition opens :: "'w client \<Rightarrow> string \<Rightarrow> string \<Rightarrow> security_group list \<Rightarrow> service_port \<Rightarrow> bool" where
  "opens c gid cidr groups port \<longleftrightarrow> (\<exists>x \<in> set groups. sg_ID x = gid \<and>
     (\<exists>r \<in> set (sg_Rules x). admits r (toRuleProtocol c (sp_Protocol port)) (sp_NodePort port) cidr))"

lemma opens_add_rule: "opens c gid cidr groups port \<Longrightarrow> opens c gid cidr (map (add_rule i r) groups) port"
proof -
  assume "opens c gid cidr groups port"
  then obtain x where x: "x \<in> set groups" "sg_ID x = gid"
    "\<exists>r \<in> set (sg_Rules x). admits r (toRuleProtocol c (sp_Protocol port)) (sp_NodePort port) cidr" unfolding opens_def by blast
  then show ?thesis unfolding opens_def by (intro bexI [of _ "add_rule i r x"]) (auto simp: add_rule_def)
qed

lemma opens_new_rule:
  "x \<in> set groups \<Longrightarrow> sg_ID x = gid \<Longrightarrow> follows (lb_rule c cl svc gid cidr port) gid r \<Longrightarrow>
    opens c gid cidr (map (add_rule gid r) groups) port"
  unfolding opens_def by (rule bexI [of _ "add_rule gid r x"]) (auto simp: add_rule_def intro: request_admits)

context group_store
begin

text \<open>While the rules are made: \<open>gid\<close> is the group of the name, and open to the ports so far.\<close>

definition opened :: "string \<Rightarrow> string \<Rightarrow> string \<Rightarrow> service_port list \<Rightarrow> security_group list \<Rightarrow> bool" where
  "opened name gid cidr ports groups \<longleftrightarrow> gid \<noteq> [] \<and> sg_id name groups = gid \<and> (\<forall>port \<in> set ports. opens c gid cidr groups port)"

abbreviation grouped :: "(security_group list \<Rightarrow> (string \<Rightarrow> string set) \<Rightarrow> bool) \<Rightarrow> 'w st \<Rightarrow> bool" where
  "grouped P s \<equiv> sane (world s) \<and> P (groups_of g (world s)) (groups_on g (world s))"

lemma inert_call:
  assumes "inert g sane f" "\<And>w x w'. sane w \<Longrightarrow> f w = (Ok x, w') \<Longrightarrow> P (groups_of g w) (groups_on g w) \<Longrightarrow> Q x (groups_of g w) (groups_on g w)"
  shows "triple (grouped P) (call k f) (\<lambda>x. grouped (Q x)) any_error"
proof (rule triple_call)
  fix s x w
  assume s: "grouped P s" and run: "f (world s) = (Ok x, w)"
  from assms(1) s run have "sane w \<and> groups_of g w = groups_of g (world s) \<and> groups_on g w = groups_on g (world s)"
    unfolding inert_def by (metis snd_conv)
  with assms(2) [OF _ run] s show "grouped (Q x) (s\<lparr>world := w, calls := calls s @ [k (Ok x)]\<rparr>)" by simp
qed simp

lemma triple_find_rules:
  assumes port: "protocol = toRuleProtocol c (sp_Protocol port)" "protocol \<noteq> []" "sp_NodePort port \<noteq> 0" "cidr \<noteq> []"
  shows "triple (grouped (\<lambda>gs on. opened name gid cidr done gs)) (getSecurityGroupRules c (rule_filter protocol (sp_NodePort port) cidr gid))
    (\<lambda>rules. grouped (\<lambda>gs on. opened name gid cidr done gs \<and> (rules \<noteq> [] \<longrightarrow> opens c gid cidr gs port))) any_error"
proof (rule triple_fact [where A = "gid \<noteq> []"])
  assume gid: "gid \<noteq> []"
  let ?f = "rule_filter protocol (sp_NodePort port) cidr gid"
  have "triple (grouped (\<lambda>gs on. opened name gid cidr done gs)) (call k (api_sg_get (Networks c) gid))
      (\<lambda>x. grouped (\<lambda>gs on. opened name gid cidr done gs \<and> x \<in> set gs \<and> sg_ID x = gid)) any_error" for k
    by (rule inert_call [OF inert_reads(2)]) (use sg_get in blast)
  then have read: "triple (grouped (\<lambda>gs on. opened name gid cidr done gs)) (bindM (call k (api_sg_get (Networks c) gid)) (\<lambda>x. retM (sg_Rules x)))
      (\<lambda>rs. grouped (\<lambda>gs on. opened name gid cidr done gs \<and> (\<exists>x \<in> set gs. sg_ID x = gid \<and> sg_Rules x = rs))) any_error" for k
    by (rule triple_bindM) (rule triple_retM, blast)
  have "\<exists>r \<in> set rs. admits r protocol (sp_NodePort port) cidr" if "filter (\<lambda>r. compareSecurityGroup r ?f) rs \<noteq> []" for rs
    using that filter_admits [OF _ port(2-)] by (auto simp: filter_empty_conv)
  then have pick: "opens c gid cidr gs port" if "filter (\<lambda>r. compareSecurityGroup r ?f) (sg_Rules x) \<noteq> []" "x \<in> set gs" "sg_ID x = gid" for x gs
    using that port(1) unfolding opens_def by blast
  show ?thesis
    unfolding rules_of_group [OF gid]
    by (rule triple_bindM [OF read], rule triple_retM, elim conjE bexE, intro conjI impI, assumption, assumption)
      (erule pick [rotated 1], simp_all)
qed (simp add: opened_def)

lemma triple_make_rule:
  "triple (grouped (\<lambda>gs on. opened name gid cidr done gs)) (SecurityGroups.rule_create c gid (lb_rule c cl svc gid cidr port))
    (\<lambda>_. grouped (\<lambda>gs on. opened name gid cidr (done @ [port]) gs)) any_error"
  unfolding SecurityGroups.rule_create_def
proof (rule triple_call)
  fix s :: "'w st" and r w
  let ?req = "lb_rule c cl svc gid cidr port" and ?gs = "groups_of g (world s)"
  assume s: "grouped (\<lambda>gs on. opened name gid cidr done gs) s" and run: "api_rule_create (Networks c) gid ?req (world s) = (Ok r, w)"
  from rule_create [OF conjunct1 [OF s] run] have new: "sane w" "groups_of g w = map (add_rule gid r) ?gs" "follows ?req gid r" by blast+
  from s obtain x where "x \<in> set ?gs" "sg_ID x = gid" using sg_id_Some unfolding opened_def by metis
  from opens_new_rule [OF this new(3)] s
  have "opened name gid cidr (done @ [port]) (groups_of g w)"
    unfolding opened_def new(2) by (auto simp: sg_id_map opens_add_rule)
  with new(1) show "grouped (\<lambda>gs on. opened name gid cidr (done @ [port]) gs) (s\<lparr>world := w, calls := calls s @ [SG (Rule_Create gid ?req)]\<rparr>)" by simp
qed simp

lemma triple_ensure_rule:
  assumes port: "toRuleProtocol c (sp_Protocol port) \<noteq> []" "sp_NodePort port \<noteq> 0" and cidr: "cidr = cidr_of g (so_SubnetID opts)" "cidr \<noteq> []"
  shows "triple (grouped (\<lambda>gs on. opened name gid cidr done gs)) (ensure_rule c cl svc opts gid port u)
    (\<lambda>_. grouped (\<lambda>gs on. opened name gid cidr (done @ [port]) gs)) any_error"
proof -
  let ?I = "\<lambda>gs on. opened name gid cidr done gs"
  have "triple (grouped ?I) (call k (api_subnet_get (Networks c) (so_SubnetID opts))) (\<lambda>sn. grouped (\<lambda>gs on. sn_CIDR sn = cidr \<and> ?I gs on)) any_error" for k
    by (rule inert_call [OF inert_reads(3)]) (use subnet_get cidr(1) in blast)
  then have subnet: "triple (grouped ?I) (wrapM f (call k (api_subnet_get (Networks c) (so_SubnetID opts)))) (\<lambda>sn s. sn_CIDR sn = cidr \<and> grouped ?I s) any_error" for f k
    by (rule triple_wrapM [OF triple_post]) simp
  note rules = triple_find_rules [OF refl port cidr(2)]
  have last: "opened name gid cidr done gs \<Longrightarrow> opens c gid cidr gs port \<Longrightarrow> opened name gid cidr (done @ [port]) gs" for gs
    by (simp add: opened_def ball_Un)
  have made: "triple (grouped (\<lambda>gs on. ?I gs on \<and> (rs \<noteq> [] \<longrightarrow> opens c gid cidr gs port)))
      (if length rs = 0 then bindM (wrapM f (SecurityGroups.rule_create c gid (lb_rule c cl svc gid cidr port))) (\<lambda>_. retM ()) else retM ())
      (\<lambda>_. grouped (\<lambda>gs on. opened name gid cidr (done @ [port]) gs)) any_error" for rs :: "sg_rule list" and f
  proof (rule triple_if)
    show "triple (grouped (\<lambda>gs on. ?I gs on \<and> (rs \<noteq> [] \<longrightarrow> opens c gid cidr gs port)))
      (bindM (wrapM f (SecurityGroups.rule_create c gid (lb_rule c cl svc gid cidr port))) (\<lambda>_. retM ()))
      (\<lambda>_. grouped (\<lambda>gs on. opened name gid cidr (done @ [port]) gs)) any_error"
      by (rule triple_bindM [OF triple_wrapM [OF triple_pre [OF triple_make_rule]]], blast, rule triple_retM)
  qed (auto intro!: triple_retM last)
  show ?thesis
    unfolding ensure_rule_def
    by (rule triple_bindM [OF subnet], rule triple_pure, simp only:, rule triple_bindM [OF triple_wrapM [OF rules] made])
qed

text \<open>The group is there, or made; then every port gets its rule.\<close>

lemma triple_find_group:
  "triple (grouped (\<lambda>_ _. True)) (bindM (sg_list c) (\<lambda>list.
      if sg_id name list = [] then
        bindM (wrapM f (call k (api_sg_create (Networks c) name desc))) (\<lambda>x. retM (sg_ID x))
      else retM (sg_id name list)))
    (\<lambda>gid. grouped (\<lambda>gs on. opened name gid cidr [] gs)) any_error"
proof (rule triple_bindM [where R = "\<lambda>list. grouped (\<lambda>gs on. gs = list)"])
  show "triple (grouped (\<lambda>_ _. True)) (sg_list c) (\<lambda>list. grouped (\<lambda>gs on. gs = list)) any_error"
    unfolding sg_list_def by (rule inert_call [OF inert_reads(1)]) (use sg_list in blast)
next
  fix list
  have create: "triple (\<lambda>s. grouped (\<lambda>gs on. gs = list) s \<and> sg_id name list = []) (call k (api_sg_create (Networks c) name desc))
      (\<lambda>x. grouped (\<lambda>gs on. opened name (sg_ID x) cidr [] gs)) any_error" for k
  proof (rule triple_call)
    fix s :: "'w st" and x w
    assume s: "grouped (\<lambda>gs on. gs = list) s \<and> sg_id name list = []" and run: "api_sg_create (Networks c) name desc (world s) = (Ok x, w)"
    from s have sane: "sane (world s)" by simp
    from sg_create [OF sane run] have new: "sane w" "groups_of g w = groups_of g (world s) @ [x]" "sg_Name x = name" by blast+
    from ids [OF new(1)] have "sg_ID x \<noteq> []" unfolding new(2) by auto
    with s ids [OF sane] new(3) have "opened name (sg_ID x) cidr [] (groups_of g w)"
      unfolding new(2) by (simp add: opened_def sg_id_new)
    with new(1) show "grouped (\<lambda>gs on. opened name (sg_ID x) cidr [] gs) (s\<lparr>world := w, calls := calls s @ [k (Ok x)]\<rparr>)" by simp
  qed simp
  show "triple (grouped (\<lambda>gs on. gs = list)) (if sg_id name list = [] then
        bindM (wrapM f (call k (api_sg_create (Networks c) name desc))) (\<lambda>x. retM (sg_ID x))
      else retM (sg_id name list)) (\<lambda>gid. grouped (\<lambda>gs on. opened name gid cidr [] gs)) any_error"
    by (rule triple_if, rule triple_bindM [OF triple_wrapM [OF triple_pre [OF create]]], simp, rule triple_retM, simp, rule triple_retM)
      (simp add: opened_def)
qed

lemma triple_all_rules:
  assumes ports: "\<forall>port \<in> set ports. toRuleProtocol c (sp_Protocol port) \<noteq> [] \<and> sp_NodePort port \<noteq> 0"
    and cidr: "cidr = cidr_of g (so_SubnetID opts)" "cidr \<noteq> []"
  shows "triple (grouped (\<lambda>gs on. opened name gid cidr [] gs)) (foldM (ensure_rule c cl svc opts gid) ports ())
    (\<lambda>_. grouped (\<lambda>gs on. opened name gid cidr ports gs)) any_error"
proof (rule triple_foldM [where I = "\<lambda>done _. grouped (\<lambda>gs on. opened name gid cidr done gs)"])
  fix "done" x rest a
  assume "ports = done @ x # rest"
  with ports have "toRuleProtocol c (sp_Protocol x) \<noteq> []" "sp_NodePort x \<noteq> 0" by simp_all
  then show "triple (grouped (\<lambda>gs on. opened name gid cidr done gs)) (ensure_rule c cl svc opts gid x a)
      (\<lambda>_. grouped (\<lambda>gs on. opened name gid cidr (done @ [x]) gs)) any_error"
    by (rule triple_ensure_rule [OF _ _ cidr])
qed

section \<open>The nodes\<close>

definition covered :: "string \<Rightarrow> node list \<Rightarrow> (string \<Rightarrow> string set) \<Rightarrow> bool" where
  "covered name nodes on \<longleftrightarrow> (\<forall>n \<in> set nodes. \<forall>i. provider_instance n = Some i \<longrightarrow>
     name \<in> on i \<or> eligible_ports name (interfaces_of g i) = [])"

lemma triple_node_instance:
  "triple (grouped P) (getInstanceByNode c n)
    (\<lambda>x. grouped (\<lambda>gs on. P gs on \<and> set (inst_SecurityGroups x) = on (inst_ID x) \<and>
      (\<forall>i. provider_instance n = Some i \<longrightarrow> inst_ID x = i))) any_error"
proof -
  have by_name: "triple (grouped P) (wrapM f (getInstanceByName c name)) (\<lambda>_. grouped P) any_error" for f name
    unfolding getInstanceByName_def
    by (rule triple_wrapM, rule triple_bindM [OF inert_call [OF inert_reads(5), where Q = "\<lambda>_. P"]])
      (auto intro!: triple_if triple_failM triple_firstM)
  have node: "triple (grouped P) (getNodeInstanceID c n) (\<lambda>j s. (\<forall>i. provider_instance n = Some i \<longrightarrow> j = i) \<and> grouped P s) any_error"
  proof (cases "provider_instance n")
    case None
    show ?thesis
      unfolding getNodeInstanceID_def Let_def None
      by (auto intro!: triple_if triple_retM triple_bindM [OF by_name])
  next
    case (Some i)
    then have "getNodeInstanceID c n = retM i"
      by (auto simp: provider_instance_def getNodeInstanceID_def Let_def split: if_splits)
    then show ?thesis by (simp add: Some triple_retM)
  qed
  have get: "triple (grouped P) (wrapM f (inst_get c j))
      (\<lambda>x. grouped (\<lambda>gs on. P gs on \<and> set (inst_SecurityGroups x) = on (inst_ID x) \<and> inst_ID x = j)) any_error" for f j
    unfolding inst_get_def
    by (rule triple_wrapM, rule inert_call [OF inert_reads(4)]) (use inst_got in fastforce)
  show ?thesis
    unfolding getInstanceByNode_def
    by (rule triple_bindM [OF node], rule triple_pure, rule triple_post [OF get]) simp
qed

lemma covered_mono: "covered name nodes on \<Longrightarrow> (\<And>j. on j \<subseteq> on' j) \<Longrightarrow> covered name nodes on'"
  unfolding covered_def by blast

lemma triple_apply_node:
  "triple (grouped (\<lambda>gs on. A gs \<and> covered name done on)) (apply_node c name n u)
    (\<lambda>_. grouped (\<lambda>gs on. A gs \<and> covered name (done @ [n]) on)) any_error"
proof -
  let ?I = "\<lambda>gs on. A gs \<and> covered name done on"
  let ?goal = "grouped (\<lambda>gs on. A gs \<and> covered name (done @ [n]) on)"
  have here: "covered name (done @ [n]) on" if "covered name done on"
    "\<And>i. provider_instance n = Some i \<Longrightarrow> name \<in> on i \<or> eligible_ports name (interfaces_of g i) = []" for on
    using that unfolding covered_def by auto
  have assigned: "triple (grouped (\<lambda>gs on. ?I gs on \<and> (\<forall>i. provider_instance n = Some i \<longrightarrow> j = i)))
      (wrapM f (call k (api_inst_sg_assign (Instances c) j \<lparr>asg_Name = name, asg_PortsSecurityGroupNames = ps\<rparr>))) (\<lambda>_. ?goal) any_error" for j f k ps
  proof (rule triple_wrapM, rule triple_call)
    fix s :: "'w st" and x w
    assume s: "grouped (\<lambda>gs on. ?I gs on \<and> (\<forall>i. provider_instance n = Some i \<longrightarrow> j = i)) s"
      and run: "api_inst_sg_assign (Instances c) j \<lparr>asg_Name = name, asg_PortsSecurityGroupNames = ps\<rparr> (world s) = (Ok x, w)"
    from run have "api_inst_sg_assign (Instances c) j \<lparr>asg_Name = name, asg_PortsSecurityGroupNames = ps\<rparr> (world s) = (Ok (), w)" by simp
    from assign [OF conjunct1 [OF s] this] have new: "sane w" "groups_of g w = groups_of g (world s)"
      "\<And>j. groups_on g (world s) j \<subseteq> groups_on g w j" "name \<in> groups_on g w j" by auto
    from s have "covered name done (groups_on g w)" using covered_mono [of name "done" "groups_on g (world s)"] new(3) by blast
    then have "covered name (done @ [n]) (groups_on g w)" by (rule here) (use s new(4) in auto)
    with s new(1,2) show "?goal (s\<lparr>world := w, calls := calls s @ [k (Ok x)]\<rparr>)" by simp
  qed simp
  let ?at = "\<lambda>x gs on. ?I gs on \<and> set (inst_SecurityGroups x) = on (inst_ID x) \<and> (\<forall>i. provider_instance n = Some i \<longrightarrow> inst_ID x = i)"
  have ports: "triple (grouped (?at x)) (wrapM f (call k (api_inst_interfaces (Instances c) (inst_ID x))))
      (\<lambda>ifs. grouped (\<lambda>gs on. ?at x gs on \<and> ifs = interfaces_of g (inst_ID x))) any_error" for x f k
    by (rule triple_wrapM, rule inert_call [OF inert_reads(6)]) (use interfaces in blast)
  have last: "triple (grouped (\<lambda>gs on. ?at x gs on \<and> ifs = interfaces_of g (inst_ID x)))
      (if length (eligible_ports name ifs) = 0 then retM ()
       else wrapM f (call k (api_inst_sg_assign (Instances c) (inst_ID x)
         \<lparr>asg_Name = name, asg_PortsSecurityGroupNames = eligible_ports name ifs\<rparr>))) (\<lambda>_. ?goal) any_error" for x ifs f k
    by (rule triple_if, rule triple_retM, use here in fastforce, rule triple_pre [OF assigned]) auto
  show ?thesis
    unfolding apply_node_def Let_def
  proof (rule triple_bindM [OF triple_node_instance], rule triple_if)
    show "triple (grouped (?at x)) (retM ()) (\<lambda>_. ?goal) any_error" if "name \<in> set (inst_SecurityGroups x)" for x
      by (rule triple_retM) (use that here in fastforce)
  qed (rule triple_bindM [OF ports last])
qed

section \<open>The whole operation\<close>

lemma triple_ensure_group:
  assumes ports: "\<forall>port \<in> set (svc_Ports svc). toRuleProtocol c (sp_Protocol port) \<noteq> [] \<and> sp_NodePort port \<noteq> 0"
    and cidr: "cidr_of g (so_SubnetID opts) \<noteq> []"
  shows "triple (\<lambda>s. sane (world s)) (ensureSecurityGroup c cl svc nodes opts)
    (\<lambda>_ s. sane (world s) \<and> group_admits c g (getSecurityGroupName svc) (so_SubnetID opts) (svc_Ports svc) (world s) \<and>
      nodes_covered g (getSecurityGroupName svc) nodes (world s)) any_error"
proof -
  let ?name = "getSecurityGroupName svc" and ?cidr = "cidr_of g (so_SubnetID opts)"
  let ?A = "\<lambda>gid gs. opened ?name gid ?cidr (svc_Ports svc) gs"
  have nodes: "triple (grouped (\<lambda>gs on. ?A gid gs)) (applyNodeSecurityGroupIDForLB c nodes ?name)
      (\<lambda>_. grouped (\<lambda>gs on. ?A gid gs \<and> covered ?name nodes on)) any_error" for gid
    unfolding applyNodeSecurityGroupIDForLB_def
    by (rule triple_pre [OF triple_foldM [where I = "\<lambda>done _. grouped (\<lambda>gs on. ?A gid gs \<and> covered ?name done on)"]],
        rule triple_apply_node) (simp add: covered_def)
  have reached: "group_admits c g ?name (so_SubnetID opts) (svc_Ports svc) w \<and> nodes_covered g ?name nodes w"
    if "sane w" "?A gid (groups_of g w)" "covered ?name nodes (groups_on g w)" for w gid
  proof -
    from that(2) obtain x where x: "x \<in> set (groups_of g w)" "sg_Name x = ?name" "sg_ID x = gid" using sg_id_Some unfolding opened_def by metis
    have "y = x" if "y \<in> set (groups_of g w)" "sg_ID y = gid" for y
      using ids [OF \<open>sane w\<close>] x that by (auto simp: distinct_map inj_on_def)
    with that(2) x have "\<forall>port \<in> set (svc_Ports svc). \<exists>r \<in> set (sg_Rules x). admits r (toRuleProtocol c (sp_Protocol port)) (sp_NodePort port) ?cidr"
      unfolding opened_def opens_def by blast
    with x that(3) show ?thesis unfolding group_admits_def nodes_covered_def covered_def by blast
  qed
  have all: "triple (grouped (\<lambda>_ _. True)) (bindM (bindM (sg_list c) (\<lambda>list.
        if sg_id ?name list = [] then
          bindM (wrapM f (call k (api_sg_create (Networks c) ?name desc))) (\<lambda>x. retM (sg_ID x))
        else retM (sg_id ?name list))) (\<lambda>gid.
      bindM (foldM (ensure_rule c cl svc opts gid) (svc_Ports svc) ()) (\<lambda>_. applyNodeSecurityGroupIDForLB c nodes ?name)))
    (\<lambda>_ s. sane (world s) \<and> group_admits c g ?name (so_SubnetID opts) (svc_Ports svc) (world s) \<and>
      nodes_covered g ?name nodes (world s)) any_error" for f k desc
    by (rule triple_bindM [OF triple_find_group], rule triple_bindM [OF triple_all_rules [OF ports refl cidr]],
        rule triple_post [OF nodes]) (use reached in blast)
  show ?thesis
    unfolding ensureSecurityGroup_def Let_def
    by (rule triple_if, simp add: triple_failM, rule triple_pre [OF all [unfolded bindM_assoc]]) simp
qed

end

end
