(* ===== verification/SimGroups.thy ===== *)
theory SimGroups
  imports Simulation StoreGroups
begin

text \<open>
  A simulated cloud of security groups: the groups are a list in the state, the groups of the instances a
  list of pairs, every request is carried out at once. It instantiates the locale of \<open>StoreGroups\<close>.
\<close>

record gsim =
  gs_groups :: "security_group list"
  gs_members :: "(string \<times> string) list"
  gs_next :: nat

definition gs_create :: "string \<Rightarrow> string \<Rightarrow> (gsim, security_group) ext" where
  "gs_create name desc w =
     (let x = \<lparr>sg_ID = ''sg-'' @ show_nat (gs_next w), sg_Name = name, sg_Rules = []\<rparr>
      in (Ok x, w\<lparr>gs_groups := gs_groups w @ [x], gs_next := gs_next w + 1\<rparr>))"

definition gs_rule :: "string \<Rightarrow> rule_create_request \<Rightarrow> (gsim, sg_rule) ext" where
  "gs_rule i req w =
     (let r = stored_rule (''rule-'' @ show_nat (gs_next w)) i req
      in (Ok r, w\<lparr>gs_groups := map (add_rule i r) (gs_groups w), gs_next := gs_next w + 1\<rparr>))"

definition gs_instance :: "string \<Rightarrow> (gsim, cloud_instance) ext" where
  "gs_instance i w = (Ok \<lparr>inst_ID = i, inst_Name = i, inst_Status = ''ACTIVE'', inst_Flavor = None,
     inst_Metadata = Map.empty, inst_Addresses = [],
     inst_SecurityGroups = map snd (filter (\<lambda>m. fst m = i) (gs_members w))\<rparr>, w)"

definition gs_interface :: "string \<Rightarrow> instance_interface" where
  "gs_interface i = \<lparr>if_PortID = ''port-'' @ i, if_IPAssignments = [], if_SubnetCIDRs = [''10.0.0.0/24'']\<rparr>"

definition gs_client :: "gsim client" where
  "gs_client = idle_client\<lparr>
     Networks := (Networks idle_client)\<lparr>
       api_subnet_get := (\<lambda>_ w. (Ok \<lparr>sn_CIDR = ''10.0.0.0/24''\<rparr>, w)),
       api_sg_list := (\<lambda>w. (Ok (gs_groups w), w)),
       api_sg_get := (\<lambda>i w. (found (\<lambda>x. sg_ID x = i) (gs_groups w), w)),
       api_sg_create := gs_create,
       api_rule_create := gs_rule\<rparr>,
     Instances := (Instances idle_client)\<lparr>
       api_inst_get := gs_instance,
       api_inst_interfaces := (\<lambda>i w. (Ok [gs_interface i], w)),
       api_inst_sg_assign := (\<lambda>i asg w. (Ok (), w\<lparr>gs_members := gs_members w @ [(i, asg_Name asg)]\<rparr>))\<rparr>\<rparr>"

definition gs_view :: "gsim group_view" where
  "gs_view = \<lparr>groups_of = gs_groups, groups_on = (\<lambda>w i. {name. (i, name) \<in> set (gs_members w)}),
     cidr_of = (\<lambda>_. ''10.0.0.0/24''), interfaces_of = (\<lambda>i. [gs_interface i])\<rparr>"

definition gs_sane :: "gsim \<Rightarrow> bool" where
  "gs_sane w \<longleftrightarrow> numbered ''sg-'' (gs_next w) (map sg_ID (gs_groups w))"

definition gs_empty :: "gsim st" where
  "gs_empty = start \<lparr>gs_groups = [], gs_members = [], gs_next = 0\<rparr>"

lemma gs_fields [simp]:
  "api_subnet_get (Networks gs_client) = (\<lambda>_ w. (Ok \<lparr>sn_CIDR = ''10.0.0.0/24''\<rparr>, w))"
  "api_sg_list (Networks gs_client) = (\<lambda>w. (Ok (gs_groups w), w))"
  "api_sg_get (Networks gs_client) = (\<lambda>i w. (found (\<lambda>x. sg_ID x = i) (gs_groups w), w))"
  "api_sg_create (Networks gs_client) = gs_create" "api_rule_create (Networks gs_client) = gs_rule"
  "api_inst_get (Instances gs_client) = gs_instance"
  "api_inst_list (Instances gs_client) = (\<lambda>_. not_found)"
  "api_inst_interfaces (Instances gs_client) = (\<lambda>i w. (Ok [gs_interface i], w))"
  "api_inst_sg_assign (Instances gs_client) = (\<lambda>i asg w. (Ok (), w\<lparr>gs_members := gs_members w @ [(i, asg_Name asg)]\<rparr>))"
  "SecurityGroupRuleProtocol_IsValid gs_client = (\<lambda>p. p \<in> {''tcp'', ''udp'', ''icmp'', ''any''})"
  "groups_of gs_view = gs_groups" "groups_on gs_view = (\<lambda>w i. {name. (i, name) \<in> set (gs_members w)})"
  "cidr_of gs_view = (\<lambda>_. ''10.0.0.0/24'')" "interfaces_of gs_view = (\<lambda>i. [gs_interface i])"
  by (simp_all add: gs_client_def gs_view_def idle_client_def)

lemma gs_sane_members [simp]: "gs_sane (w\<lparr>gs_members := ms\<rparr>) = gs_sane w"
  by (simp add: gs_sane_def)

lemma members_of [simp]: "snd ` {m \<in> set ms. fst m = i} = {name. (i, name) \<in> set ms}"
  by force

interpretation gsim: group_store gs_client gs_view gs_sane
proof unfold_locales
  fix w
  show "gs_sane w \<Longrightarrow> distinct (map sg_ID (groups_of gs_view w)) \<and> [] \<notin> sg_ID ` set (groups_of gs_view w)"
    by (fastforce simp: gs_sane_def numbered_def)
next
  fix name desc w x w'
  show "gs_sane w \<Longrightarrow> api_sg_create (Networks gs_client) name desc w = (Ok x, w') \<Longrightarrow>
      gs_sane w' \<and> groups_of gs_view w' = groups_of gs_view w @ [x] \<and> sg_Name x = name \<and> groups_on gs_view w' = groups_on gs_view w"
    using numbered_next [of "''sg-''" "gs_next w" "map sg_ID (gs_groups w)"] by (auto simp: gs_create_def gs_sane_def Let_def)
next
  fix i req w r w'
  show "gs_sane w \<Longrightarrow> api_rule_create (Networks gs_client) i req w = (Ok r, w') \<Longrightarrow>
      gs_sane w' \<and> groups_of gs_view w' = map (add_rule i r) (groups_of gs_view w) \<and> follows req i r \<and> groups_on gs_view w' = groups_on gs_view w"
    by (auto simp: gs_rule_def gs_sane_def Let_def numbered_Suc comp_def follows_def stored_rule_def)
qed (auto simp: inert_def gs_instance_def not_found_def dest: found_Ok split: option.splits)

text \<open>A service with one port.\<close>

definition gs_service :: service where
  "gs_service = example_service\<lparr>svc_Ports := [example_port]\<rparr>"

lemma gs_run: "fst (ensureSecurityGroup gs_client ''k8s'' gs_service [sim_node] opts gs_empty) = Ok ()"
  by code_simp

end
