(* ===== verification/Host.thy ===== *)
theory Host
  imports Polling
begin

text \<open>
  The machine the program runs on: files, mounts, commands and the metadata service of the cloud. These
  are functions of the operating system, so they are a parameter, the record \<open>host\<close>, like the cloud
  client; the JSON decoder is part of it. The state has the machine, the list of the host calls made so
  far, and the two package variables of \<^verbatim>\<open>internal/util/metadata\<close>. Paths are joined as \<^verbatim>\<open>path.Join\<close> does.
\<close>

section \<open>Types\<close>

record device_metadata =
  dm_Type :: string
  dm_Bus :: string
  dm_Serial :: string
  dm_Address :: string

record metadata =
  md_UUID :: string
  md_Name :: string
  md_AvailabilityZone :: string
  md_Devices :: "device_metadata list"

record http_response =
  hr_StatusCode :: int
  hr_Status :: string
  hr_Body :: string

record statfs =
  sf_Bavail :: "64 word"
  sf_Blocks :: "64 word"
  sf_Bfree :: "64 word"
  sf_Bsize :: "64 word"
  sf_Ffree :: "64 word"
  sf_Files :: "64 word"

text \<open>The calls; mounting keeps its answer.\<close>

datatype (plugins only: code size) host_call =
    Stat string
  | UnixStat string
  | Blkid
  | MountFS string string string "unit outcome"
  | UnmountFS string
  | RemoveFile string
  | OpenFile string
  | HttpGet string
  | ReadDir string
  | Glob string
  | ReadFile string
  | WriteFile string string
  | Udevadm
  | PathExists string "bool outcome"
  | LikelyNotMountPoint string
  | MkdirAll string
  | CreateFile string
  | EvalSymlinks string
  | SeekEnd string "64 word outcome"
  | Statfs string
  | Findmnt string
  | CleanupMountPoint string

text \<open>Calls whose value counts even when they report an error.\<close>

type_synonym ('w, 'a) total_ext = "'w \<Rightarrow> 'a \<times> 'w"

record 'w host =
  h_Stat :: "string \<Rightarrow> ('w, unit) ext"
  h_unix_Stat :: "string \<Rightarrow> ('w, 32 word) ext"
  h_blkid :: "('w, string) ext"
  h_TempDir :: string
  h_Mount :: "string \<Rightarrow> string \<Rightarrow> string \<Rightarrow> ('w, unit) ext"
  h_Unmount :: "string \<Rightarrow> ('w, unit) ext"
  h_Remove :: "string \<Rightarrow> ('w, unit) ext"
  h_Open :: "string \<Rightarrow> ('w, string) ext"
  h_ReadFile :: "string \<Rightarrow> ('w, string) ext"
  h_http_get :: "string \<Rightarrow> ('w, http_response) ext"
  h_ReadDir :: "string \<Rightarrow> ('w, string list \<times> error option) total_ext"
  h_Glob :: "string \<Rightarrow> ('w, string list) ext"
  h_WriteFile :: "string \<Rightarrow> string \<Rightarrow> ('w, unit) ext"
  h_udevadm :: "('w, string) ext"
  h_PathExists :: "string \<Rightarrow> ('w, bool) ext"
  h_IsLikelyNotMountPoint :: "string \<Rightarrow> ('w, bool \<times> error option) total_ext"
  h_MkdirAll :: "string \<Rightarrow> ('w, unit) ext"
  h_CreateFile :: "string \<Rightarrow> ('w, unit) ext"
  h_EvalSymlinks :: "string \<Rightarrow> ('w, string) ext"
  h_SeekEnd :: "string \<Rightarrow> ('w, 64 word) ext"
  h_Statfs :: "string \<Rightarrow> ('w, statfs) ext"
  h_findmnt :: "string \<Rightarrow> ('w, string) ext"
  h_CleanupMountPoint :: "string \<Rightarrow> ('w, unit) ext"
  h_Decode :: "string \<Rightarrow> metadata outcome"

section \<open>State and calls\<close>

record 'w machine =
  machine_world :: 'w
  machine_calls :: "host_call list"
  metadataCache :: "metadata option"
  MetadataService :: "string option"

definition hcall :: "('a outcome \<Rightarrow> host_call) \<Rightarrow> ('w, 'a) ext \<Rightarrow> ('w machine, 'a) prog" where
  "hcall c f s = (case f (machine_world s) of (r, w') \<Rightarrow>
     (r, s\<lparr>machine_world := w', machine_calls := machine_calls s @ [c r]\<rparr>))"

definition hcall_total :: "host_call \<Rightarrow> ('w, 'a) total_ext \<Rightarrow> ('w machine, 'a) prog" where
  "hcall_total c f = hcall (\<lambda>_. c) (\<lambda>w. case f w of (x, w') \<Rightarrow> (Ok x, w'))"

lemma emits_hcall [wp]: "(\<And>r. Q r [c r]) \<Longrightarrow> emits machine_calls (hcall c f) Q"
  by (simp add: emits_def hcall_def split: prod.splits)

lemma always_hcall [emits_intros]: "(\<And>r. R [c r]) \<Longrightarrow> always machine_calls R (hcall c f)"
  unfolding always_def by (rule emits_hcall) simp

lemma emits_hcall_total [wp]: "(\<And>x. Q (Ok x) [c]) \<Longrightarrow> emits machine_calls (hcall_total c f) Q"
  by (simp add: emits_def hcall_total_def hcall_def split: prod.splits)

lemma always_hcall_total [emits_intros]: "R [c] \<Longrightarrow> always machine_calls R (hcall_total c f)"
  unfolding always_def by (rule emits_hcall_total) simp

text \<open>A call whose error is dropped: \<^verbatim>\<open>_ = f()\<close>.\<close>

definition ignoreM :: "('s, 'a) prog \<Rightarrow> ('s, unit) prog" where
  "ignoreM m = tryM m (\<lambda>_. retM ()) (\<lambda>_. retM ())"

lemma wp_ignoreM [wp]:
  "emits tr m (\<lambda>r es. Q (case r of Panic p \<Rightarrow> Panic p | _ \<Rightarrow> Ok ()) es) \<Longrightarrow> emits tr (ignoreM m) Q"
  unfolding ignoreM_def by (intro wp_tryM) (erule emits_weaken, auto intro: emits_retM split: outcome.splits)

text \<open>\<^verbatim>\<open>os.IsNotExist\<close> and \<^verbatim>\<open>os.IsExist\<close> look at the error itself, not at what it wraps.\<close>

definition os_IsNotExist :: "error \<Rightarrow> bool" where
  "os_IsNotExist e = (case e of Lib NotExist _ \<Rightarrow> True | _ \<Rightarrow> False)"

definition os_IsExist :: "error \<Rightarrow> bool" where
  "os_IsExist e = (case e of Lib Exist _ \<Rightarrow> True | _ \<Rightarrow> False)"

section \<open>Closures with a variable\<close>

text \<open>A closure that assigns one variable of the enclosing function runs on pairs of the state and the variable.\<close>

definition outer :: "('s, 'a) prog \<Rightarrow> ('s \<times> 'v, 'a) prog" where
  "outer m = (\<lambda>(s, v). case m s of (r, s') \<Rightarrow> (r, (s', v)))"

definition set_var :: "'v \<Rightarrow> ('s \<times> 'v, unit) prog" where
  "set_var v = (\<lambda>(s, _). (Ok (), (s, v)))"

definition run_var :: "'v \<Rightarrow> ('s \<times> 'v, unit) prog \<Rightarrow> ('s, error option \<times> 'v) prog" where
  "run_var v m s = (case m (s, v) of
     (Ok _, (s', v')) \<Rightarrow> (Ok (None, v'), s')
   | (Err e, (s', v')) \<Rightarrow> (Ok (Some e, v'), s')
   | (Panic p, (s', v')) \<Rightarrow> (Panic p, s'))"

definition is_wait_timeout :: "error option \<Rightarrow> bool" where
  "is_wait_timeout err = (case err of Some (Lib ErrWaitTimeout _) \<Rightarrow> True | _ \<Rightarrow> False)"

section \<open>Paths\<close>

text \<open>\<^verbatim>\<open>path.Clean\<close>: the components that remain, in reverse order, and the joined result.\<close>

fun clean_parts :: "bool \<Rightarrow> string list \<Rightarrow> string list \<Rightarrow> string list" where
  "clean_parts rooted acc [] = rev acc"
| "clean_parts rooted acc (p # ps) =
     (if p = [] \<or> p = ''.'' then clean_parts rooted acc ps
      else if p = ''..'' then
        (case acc of
           [] \<Rightarrow> if rooted then clean_parts rooted [] ps else clean_parts rooted [p] ps
         | q # qs \<Rightarrow> if q = ''..'' then clean_parts rooted (p # acc) ps else clean_parts rooted qs ps)
      else clean_parts rooted (p # acc) ps)"

definition path_Clean :: "string \<Rightarrow> string" where
  "path_Clean p =
     (let rooted = has_prefix p ''/''; body = join ''/'' (clean_parts rooted [] (split CHR ''/'' p)) in
      if rooted then ''/'' @ body else if body = [] then ''.'' else body)"

definition path_Join :: "string list \<Rightarrow> string" where
  "path_Join ps = (let ps = filter (\<lambda>p. p \<noteq> []) ps in
     if ps = [] then [] else path_Clean (join ''/'' ps))"

section \<open>A machine without files\<close>

text \<open>Every host call fails as for a missing file; concrete runs replace the calls they need.\<close>

definition missing :: "('w, 'a) ext" where
  "missing w = (Err (Lib NotExist ''file does not exist''), w)"

definition no_entries :: "('w, string list \<times> error option) total_ext" where
  "no_entries w = (([], Some (Lib NotExist ''file does not exist'')), w)"

definition no_mount :: "('w, bool \<times> error option) total_ext" where
  "no_mount w = ((True, Some (Lib NotExist ''file does not exist'')), w)"

definition idle_host :: "'w host" where
  "idle_host = \<lparr>h_Stat = (\<lambda>_. missing), h_unix_Stat = (\<lambda>_. missing), h_blkid = missing, h_TempDir = ''/tmp'',
     h_Mount = (\<lambda>_ _ _. missing), h_Unmount = (\<lambda>_. missing), h_Remove = (\<lambda>_. missing),
     h_Open = (\<lambda>_. missing), h_ReadFile = (\<lambda>_. missing), h_http_get = (\<lambda>_. missing),
     h_ReadDir = (\<lambda>_. no_entries), h_Glob = (\<lambda>_. missing), h_WriteFile = (\<lambda>_ _. missing),
     h_udevadm = missing, h_PathExists = (\<lambda>_. missing), h_IsLikelyNotMountPoint = (\<lambda>_. no_mount),
     h_MkdirAll = (\<lambda>_. missing), h_CreateFile = (\<lambda>_. missing), h_EvalSymlinks = (\<lambda>_. missing),
     h_SeekEnd = (\<lambda>_. missing), h_Statfs = (\<lambda>_. missing), h_findmnt = (\<lambda>_. missing),
     h_CleanupMountPoint = (\<lambda>_. missing), h_Decode = (\<lambda>_. Err (Api ''EOF''))\<rparr>"

definition boot :: "'w \<Rightarrow> 'w machine" where
  "boot w = \<lparr>machine_world = w, machine_calls = [], metadataCache = None, MetadataService = None\<rparr>"

end
