(* ===== verification/Metadata.thy ===== *)
theory Metadata
  imports Host
begin

text \<open>
  The metadata service: \<^verbatim>\<open>internal/util/metadata/metadata.go\<close>. Metadata comes from the config drive or
  from the HTTP service, in a configured order, and is cached for the life of the process. The lemmas:
  the cache, the search as "the first source that answers", the config drive as a balanced use of the
  mount, and the check of the search order in the configuration.
\<close>

section \<open>Sources\<close>

abbreviation MetadataID :: string where "MetadataID \<equiv> ''metadataService''"
abbreviation ConfigDriveID :: string where "ConfigDriveID \<equiv> ''configDrive''"

definition defaultMetadataVersion :: string where
  "defaultMetadataVersion = ''latest''"

definition parseMetadata :: "'w host \<Rightarrow> string \<Rightarrow> metadata outcome" where
  "parseMetadata h r = (case h_Decode h r of
     Ok metadata \<Rightarrow> if md_UUID metadata = [] then Err (Sent ErrBadMetadata) else Ok metadata
   | r \<Rightarrow> r)"

definition getMetadataURL :: "string \<Rightarrow> string" where
  "getMetadataURL metadataVersion = ''http://169.254.169.254/openstack/'' @ metadataVersion @ ''/meta_data.json''"

definition getConfigDrivePath :: "string \<Rightarrow> string" where
  "getConfigDrivePath metadataVersion = ''openstack/'' @ metadataVersion @ ''/meta_data.json''"

definition configDriveDevice :: "'w host \<Rightarrow> ('w machine, string) prog" where
  "configDriveDevice h =
     (let dev = ''/dev/disk/by-label/config-2'' in
      tryM (hcall (\<lambda>_. Stat dev) (h_Stat h dev))
        (\<lambda>e. if os_IsNotExist e then
           bindM (wrapM (flatten ''unable to run blkid: '') (hcall (\<lambda>_. Blkid) (h_blkid h))) (\<lambda>out.
             retM (trim_space out))
         else retM dev)
        (\<lambda>_. retM dev))"

definition mount_fs :: "'w host \<Rightarrow> string \<Rightarrow> string \<Rightarrow> string \<Rightarrow> ('w machine, unit) prog" where
  "mount_fs h dev dir fstype = hcall (MountFS dev dir fstype) (h_Mount h dev dir fstype)"

definition getFromConfigDrive :: "'w host \<Rightarrow> string \<Rightarrow> ('w machine, metadata) prog" where
  "getFromConfigDrive h metadataVersion =
     bindM (configDriveDevice h) (\<lambda>dev.
       let mntdir = h_TempDir h in
       deferM (\<lambda>_. ignoreM (hcall (\<lambda>_. RemoveFile mntdir) (h_Remove h mntdir)))
         (bindM (wrapM (flatten (''error mounting configdrive '' @ dev @ '': ''))
            (tryM (mount_fs h dev mntdir ''iso9660'') (\<lambda>_. mount_fs h dev mntdir ''vfat'') retM)) (\<lambda>_.
          deferM (\<lambda>_. ignoreM (hcall (\<lambda>_. UnmountFS mntdir) (h_Unmount h mntdir)))
            (let configDrivePath = getConfigDrivePath metadataVersion; file = path_Join [mntdir, configDrivePath] in
             bindM (wrapM (flatten (''error reading '' @ configDrivePath @ '' on config drive: ''))
               (hcall (\<lambda>_. OpenFile file) (h_Open h file))) (\<lambda>f.
               liftM (parseMetadata h f))))))"

definition getFromMetadataService :: "'w host \<Rightarrow> string \<Rightarrow> ('w machine, metadata) prog" where
  "getFromMetadataService h metadataVersion =
     (let metadataURL = getMetadataURL metadataVersion in
      bindM (wrapM (flatten (''error fetching '' @ metadataURL @ '': ''))
        (hcall (\<lambda>_. HttpGet metadataURL) (h_http_get h metadataURL))) (\<lambda>resp.
        if hr_StatusCode resp \<noteq> 200
        then failM (Errorf (''unexpected status code when reading metadata from '' @ metadataURL @ '': '' @ hr_Status resp))
        else liftM (parseMetadata h (hr_Body resp))))"

section \<open>The cache and the search\<close>

definition setCache :: "metadata option \<Rightarrow> ('w machine, unit) prog" where
  "setCache value s = (Ok (), s\<lparr>metadataCache := value\<rparr>)"

definition SetMetadata :: "metadata option \<Rightarrow> ('w machine, unit) prog" where
  "SetMetadata value = setCache value"

definition Clear :: "('w machine, unit) prog" where
  "Clear = setCache None"

text \<open>The body of the loop for one element: the values of \<^verbatim>\<open>md\<close> and \<^verbatim>\<open>err\<close> after the switch.\<close>

definition try_source :: "'w host \<Rightarrow> string \<Rightarrow> metadata option \<Rightarrow> ('w machine, metadata option \<times> error option) prog" where
  "try_source h i md =
     (if i = ConfigDriveID then
        tryM (getFromConfigDrive h defaultMetadataVersion) (\<lambda>e. retM (None, Some e)) (\<lambda>m. retM (Some m, None))
      else if i = MetadataID then
        tryM (getFromMetadataService h defaultMetadataVersion) (\<lambda>e. retM (None, Some e)) (\<lambda>m. retM (Some m, None))
      else retM (md, Some (Errorf (i @ '' is not a valid metadata search order option. Supported options are '' @
        ConfigDriveID @ '' and '' @ MetadataID))))"

fun search :: "'w host \<Rightarrow> string list \<Rightarrow> metadata option \<Rightarrow> error option \<Rightarrow>
    ('w machine, metadata option \<times> error option) prog" where
  "search h [] md err = retM (md, err)"
| "search h (i # is) md err =
     bindM (try_source h (trim_space i) md) (\<lambda>(md, err).
       if err = None then retM (md, err) else search h is md err)"

definition GetMetadata :: "'w host \<Rightarrow> string \<Rightarrow> ('w machine, metadata option) prog" where
  "GetMetadata h order s =
     (if metadataCache s = None then
        bindM (search h (split CHR '','' order) None None) (\<lambda>(md, err).
          case err of
            Some e \<Rightarrow> failM e
          | None \<Rightarrow> bindM (setCache md) (\<lambda>_. retM md)) s
      else (Ok (metadataCache s), s))"

text \<open>\<^verbatim>\<open>GetMetadataProvider\<close> keeps the order of its first caller; the provider is its search order.\<close>

definition GetMetadataProvider :: "string \<Rightarrow> ('w machine, string) prog" where
  "GetMetadataProvider order s = (case MetadataService s of
     None \<Rightarrow> (Ok order, s\<lparr>MetadataService := Some order\<rparr>)
   | Some searchOrder \<Rightarrow> (Ok searchOrder, s))"

definition GetInstanceID :: "'w host \<Rightarrow> string \<Rightarrow> ('w machine, string) prog" where
  "GetInstanceID h searchOrder =
     bindM (GetMetadata h searchOrder) (\<lambda>md. bindM (derefM md) (\<lambda>md. retM (md_UUID md)))"

definition GetAvailabilityZone :: "'w host \<Rightarrow> string \<Rightarrow> ('w machine, string) prog" where
  "GetAvailabilityZone h searchOrder =
     bindM (GetMetadata h searchOrder) (\<lambda>md. bindM (derefM md) (\<lambda>md. retM (md_AvailabilityZone md)))"

section \<open>Device paths\<close>

definition diskPattern :: "device_metadata \<Rightarrow> string" where
  "diskPattern device = ''/dev/disk/by-path/*-'' @ dm_Bus device @ ''-'' @ dm_Address device"

definition is_disk :: "string \<Rightarrow> device_metadata \<Rightarrow> bool" where
  "is_disk volumeID device \<longleftrightarrow> dm_Type device = ''disk'' \<and> dm_Serial device = volumeID"

text \<open>The loop over the devices; \<^verbatim>\<open>GetDevicePath\<close> goes on after a pattern that does not match one path.\<close>

fun find_disk_path :: "'w host \<Rightarrow> string \<Rightarrow> device_metadata list \<Rightarrow> ('w machine, string) prog" where
  "find_disk_path h volumeID [] = failM (Errorf (''could not retrieve device metadata for volumeID: '' @ quoted volumeID))"
| "find_disk_path h volumeID (device # devices) =
     (if is_disk volumeID device then
        bindM (wrapM (flatten (''could not retrieve disk path for volumeID: '' @ quoted volumeID @
            ''. Error filepath.Glob('' @ quoted (diskPattern device) @ ''): ''))
          (hcall (\<lambda>_. Glob (diskPattern device)) (h_Glob h (diskPattern device)))) (\<lambda>diskPaths.
          case diskPaths of
            [p] \<Rightarrow> if p = [] then failM (Errorf (''disk path for volumeID '' @ quoted volumeID @ '' is empty'')) else retM p
          | _ \<Rightarrow> find_disk_path h volumeID devices)
      else find_disk_path h volumeID devices)"

definition metadata_GetDevicePath :: "'w host \<Rightarrow> string \<Rightarrow> ('w machine, string) prog" where
  "metadata_GetDevicePath h volumeID =
     bindM (wrapM (flatten ''could not retrieve instance metadata: '')
       (getFromMetadataService h defaultMetadataVersion)) (\<lambda>instanceMetadata.
       find_disk_path h volumeID (md_Devices instanceMetadata))"

section \<open>Checking the search order\<close>

fun check_elements :: "string list \<Rightarrow> unit outcome" where
  "check_elements [] = Ok ()"
| "check_elements (i # is) =
     (let i = trim_space i in
      if i = ConfigDriveID then check_elements is
      else if i = MetadataID then check_elements is
      else Err (Errorf (''invalid element '' @ quoted i @ '' found in section [Metadata] with key `search-order`.'' @
        ''Supported elements include '' @ quoted ConfigDriveID @ '' and '' @ quoted MetadataID)))"

definition CheckMetadataSearchOrder :: "string \<Rightarrow> unit outcome" where
  "CheckMetadataSearchOrder order =
     (if order = [] then
        Err (Errorf ''invalid value in section [Metadata] with key `search-order`. Value cannot be empty'')
      else if length (split CHR '','' order) > 2 then
        Err (Errorf ''invalid value in section [Metadata] with key `search-order`. Value cannot contain more than 2 elements'')
      else check_elements (split CHR '','' order))"

section \<open>Lemmas\<close>

text \<open>The metadata that a source returns has a UUID.\<close>

lemma parseMetadata_uuid: "parseMetadata h r = Ok m \<Longrightarrow> md_UUID m \<noteq> []"
  by (auto simp: parseMetadata_def split: outcome.splits if_splits)

lemma source_uuid [yield_intros]:
  "yields (getFromConfigDrive h v) (\<lambda>m. md_UUID m \<noteq> [])"
  "yields (getFromMetadataService h v) (\<lambda>m. md_UUID m \<noteq> [])"
  unfolding getFromConfigDrive_def getFromMetadataService_def Let_def
  by (intro yield_intros yields_any; erule parseMetadata_uuid)+

text \<open>The host calls do not touch the package variables.\<close>

lemma keeps_hcall [keep_intros]: "keeps metadataCache (hcall c f)"
  by (simp add: keeps_def hcall_def split: prod.splits)

lemma keeps_ignoreM [keep_intros]: "keeps f m \<Longrightarrow> keeps f (ignoreM m)"
  unfolding ignoreM_def by (intro keep_intros)

lemma keeps_search [keep_intros]: "keeps metadataCache (search h is md err)"
proof (induction "is" arbitrary: md err)
  case Nil
  show ?case by (simp add: keep_intros)
next
  case (Cons i "is")
  show ?case
    unfolding search.simps try_source_def getFromConfigDrive_def getFromMetadataService_def Let_def
      configDriveDevice_def mount_fs_def
    by (intro keep_intros Cons.IH)
qed

text \<open>Without an error, the last element tried has set \<^verbatim>\<open>md\<close>.\<close>

lemma yields_try_source [yield_intros]:
  "(\<And>md err. err = None \<longrightarrow> (\<exists>m. md = Some m \<and> md_UUID m \<noteq> []) \<Longrightarrow> Q (md, err)) \<Longrightarrow> yields (try_source h i md) Q"
  unfolding try_source_def
  by (intro yield_intros yields_weaken [OF source_uuid(1)] yields_weaken [OF source_uuid(2)]) auto

lemma yields_search:
  "err = None \<longrightarrow> (\<exists>m. md = Some m \<and> md_UUID m \<noteq> []) \<Longrightarrow>
    yields (search h is md err) (\<lambda>(md, err). err = None \<longrightarrow> (\<exists>m. md = Some m \<and> md_UUID m \<noteq> []))"
proof (induction "is" arbitrary: md err)
  case Nil
  then show ?case by (simp add: yields_basic)
next
  case (Cons i "is")
  show ?case unfolding search.simps
    by (intro yield_intros; clarify?; (rule Cons.IH)?) auto
qed

lemma yields_search_Cons:
  "yields (search h (i # is) md err) (\<lambda>(md, err). err = None \<longrightarrow> (\<exists>m. md = Some m \<and> md_UUID m \<noteq> []))"
  unfolding search.simps by (intro yield_intros yields_search) auto

subsection \<open>The use of the config drive\<close>

text \<open>
  An automaton over the host calls that follows the mount directory: whether the drive is mounted there,
  and \<open>None\<close> after a call out of order (mounting twice, reading a file or unmounting while not mounted,
  removing the directory while mounted).
\<close>

definition drive_step :: "string \<Rightarrow> bool \<Rightarrow> host_call \<Rightarrow> bool option" where
  "drive_step dir mounted c = (case c of
     MountFS _ d _ r \<Rightarrow> if mounted then None else (case r of Ok _ \<Rightarrow> if d = dir then Some True else None | _ \<Rightarrow> Some False)
   | UnmountFS d \<Rightarrow> if mounted \<and> d = dir then Some False else None
   | OpenFile _ \<Rightarrow> if mounted then Some mounted else None
   | RemoveFile _ \<Rightarrow> if mounted then None else Some mounted
   | _ \<Rightarrow> Some mounted)"

definition balanced :: "string \<Rightarrow> host_call list \<Rightarrow> bool" where
  "balanced dir es \<longleftrightarrow> follow (drive_step dir) False es = Some False"

interpretation balanced: trace_property "balanced dir" for dir
  by unfold_locales (simp_all add: balanced_def follow_append)

lemma balanced_call [simp]:
  "balanced dir [HttpGet u]" "balanced dir [Stat f]" "balanced dir [Blkid]"
  by (simp_all add: balanced_def drive_step_def)

lemma always_setCache [emits_intros]: "R [] \<Longrightarrow> always machine_calls R (setCache md)"
  by (simp add: always_def emits_def setCache_def)

lemma config_drive_balanced_use:
  "always machine_calls (balanced (h_TempDir h)) (getFromConfigDrive h v)"
  unfolding always_def getFromConfigDrive_def configDriveDevice_def mount_fs_def Let_def
  by (intro wp) (auto simp: balanced_def drive_step_def split: outcome.splits)

lemma always_search:
  "always machine_calls (balanced (h_TempDir h)) (search h is md err)"
proof (induction "is" arbitrary: md err)
  case Nil
  show ?case by (simp add: emits_intros)
next
  case (Cons i "is")
  show ?case
    unfolding search.simps try_source_def getFromMetadataService_def Let_def
    by (intro emits_intros config_drive_balanced_use Cons.IH) simp_all
qed

lemma GetMetadata_balanced: "always machine_calls (balanced (h_TempDir h)) (GetMetadata h order)"
proof (unfold always_def, rule emitsI)
  fix s
  have "emits machine_calls (bindM (search h (split CHR '','' order) None None) (\<lambda>(md, err).
          case err of Some e \<Rightarrow> failM e | None \<Rightarrow> bindM (setCache md) (\<lambda>_. retM md))) (\<lambda>_. balanced (h_TempDir h))"
    unfolding always_def [symmetric] by (intro emits_intros always_search balanced.R_Nil)
  then show "\<exists>es. machine_calls (snd (GetMetadata h order s)) = machine_calls s @ es \<and> balanced (h_TempDir h) es"
    unfolding GetMetadata_def by (auto simp: emits_def balanced.R_Nil)
qed

subsection \<open>Errors of the search\<close>

definition valid_element :: "string \<Rightarrow> bool" where
  "valid_element i \<longleftrightarrow> trim_space i \<in> {ConfigDriveID, MetadataID}"

definition source_error :: "'w host \<Rightarrow> error \<Rightarrow> bool" where
  "source_error h e \<longleftrightarrow> (\<exists>s s'. getFromConfigDrive h defaultMetadataVersion s = (Err e, s') \<or>
     getFromMetadataService h defaultMetadataVersion s = (Err e, s'))"

lemma try_source_error:
  assumes "i \<in> {ConfigDriveID, MetadataID}"
  shows "yields (try_source h i md) (\<lambda>(md, err). \<forall>e. err = Some e \<longrightarrow> source_error h e)"
  using assms
  by (auto intro!: yieldsI simp: try_source_def tryM_def retM_def source_error_def
      split: if_splits prod.splits outcome.splits) blast+

lemma search_error:
  assumes "\<And>i. i \<in> set is \<Longrightarrow> valid_element i" "\<And>e. err = Some e \<Longrightarrow> source_error h e"
  shows "yields (search h is md err) (\<lambda>(md, err). \<forall>e. err = Some e \<longrightarrow> source_error h e)"
  using assms
proof (induction "is" arbitrary: md err)
  case Nil
  then show ?case by (simp add: yields_basic)
next
  case (Cons i "is")
  show ?case unfolding search.simps
  proof (rule yields_bind [OF try_source_error], goal_cases)
    case 1
    then show ?case using Cons.prems(1) [of i] by (simp add: valid_element_def)
  next
    case (2 x)
    then show ?case by (cases x) (auto intro!: yield_intros Cons.IH simp: Cons.prems(1))
  qed
qed

lemma search_no_error: "fst (search h is md err s) \<noteq> Err e"
proof (induction "is" arbitrary: md err s)
  case Nil
  show ?case by (simp add: retM_def)
next
  case (Cons i "is")
  have "fst (try_source h i' md s) \<noteq> Err e" for i' s
    by (auto simp: try_source_def tryM_def retM_def split: prod.splits outcome.splits)
  with Cons.IH show ?case
    by (auto simp: bindM_def retM_def split: prod.splits outcome.splits) (metis fst_conv)+
qed

lemma check_elements_ok: "check_elements is = Ok () \<longleftrightarrow> (\<forall>i \<in> set is. valid_element i)"
  by (induction "is") (auto simp: valid_element_def Let_def)

lemma CheckMetadataSearchOrder_ok:
  "CheckMetadataSearchOrder order = Ok () \<longleftrightarrow>
     order \<noteq> [] \<and> length (split CHR '','' order) \<le> 2 \<and> (\<forall>i \<in> set (split CHR '','' order). valid_element i)"
  by (auto simp: CheckMetadataSearchOrder_def check_elements_ok)

subsection \<open>The cache\<close>

definition cache_ok :: "'w machine \<Rightarrow> bool" where
  "cache_ok s \<longleftrightarrow> (case metadataCache s of None \<Rightarrow> True | Some m \<Rightarrow> md_UUID m \<noteq> [])"

lemma GetMetadata_hit: "metadataCache s = Some m \<Longrightarrow> GetMetadata h order s = (Ok (Some m), s)"
  by (simp add: GetMetadata_def)

lemma GetMetadata_miss:
  assumes "metadataCache s = None" "GetMetadata h order s = (r, s')"
  shows "case r of Ok md \<Rightarrow> (\<exists>m. md = Some m \<and> md_UUID m \<noteq> [] \<and> metadataCache s' = Some m)
    | _ \<Rightarrow> metadataCache s' = None"
proof -
  obtain r1 s1 where run: "search h (split CHR '','' order) None None s = (r1, s1)" by fastforce
  moreover from run have "metadataCache s1 = None"
    using assms(1) keepsD [OF keeps_search] by metis
  moreover have "err = None \<longrightarrow> (\<exists>m. md = Some m \<and> md_UUID m \<noteq> [])" if "r1 = Ok (md, err)" for md err
    using yieldsD [OF yields_search_Cons] run that by (cases "split CHR '','' order") fastforce+
  ultimately show ?thesis
    using assms by (auto simp: GetMetadata_def bindM_def setCache_def retM_def failM_def split: outcome.splits option.splits)
qed

section \<open>Properties\<close>

text \<open>C23: The metadata is read once. If the cache is empty or holds metadata with a UUID, then after
  GetMetadata it is so again; an error or a panic leaves it empty, and a success returns the cached
  metadata, which every later call returns again, without any call to the host, whatever search order it
  is given.\<close>

theorem metadata_cached:
  assumes "cache_ok s" "GetMetadata h order s = (r, s')"
  shows "cache_ok s' \<and> (case r of
      Ok md \<Rightarrow> (\<exists>m. md = Some m \<and> md_UUID m \<noteq> [] \<and> metadataCache s' = Some m) \<and>
        (\<forall>h' order'. GetMetadata h' order' s' = (Ok md, s'))
    | _ \<Rightarrow> metadataCache s' = None)"
proof (cases "metadataCache s")
  case None
  from GetMetadata_miss [OF this assms(2)] show ?thesis
    by (cases r) (auto simp: cache_ok_def GetMetadata_hit)
next
  case (Some m)
  with assms show ?thesis by (auto simp: cache_ok_def GetMetadata_hit)
qed

definition example_metadata :: metadata where
  "example_metadata = \<lparr>md_UUID = ''u1'', md_Name = ''node-1'', md_AvailabilityZone = ''az'', md_Devices = []\<rparr>"

definition example_host :: "'w host" where
  "example_host = idle_host\<lparr>h_http_get := (\<lambda>_. answer (Ok \<lparr>hr_StatusCode = 200, hr_Status = ''200 OK'', hr_Body = ''{}''\<rparr>)),
     h_Decode := (\<lambda>_. Ok example_metadata)\<rparr>"

lemma example_metadata_run:
  "GetMetadata example_host MetadataID (boot w) = (Ok (Some example_metadata),
     (boot w)\<lparr>machine_calls := [HttpGet (getMetadataURL ''latest'')], metadataCache := Some example_metadata\<rparr>)"
proof -
  have "trim_space MetadataID = MetadataID" "split CHR '','' MetadataID = [MetadataID]" by code_simp+
  then show ?thesis
    by (simp add: GetMetadata_def boot_def example_host_def try_source_def getFromMetadataService_def prog_defs
        hcall_def answer_def parseMetadata_def example_metadata_def setCache_def defaultMetadataVersion_def Let_def)
qed

theorem metadata_cached_witness:
  "GetMetadata idle_host ConfigDriveID (snd (GetMetadata example_host MetadataID (boot ()))) =
     (Ok (Some example_metadata), snd (GetMetadata example_host MetadataID (boot ())))"
  using metadata_cached [of "boot ()" example_host MetadataID, OF _ example_metadata_run]
  unfolding example_metadata_run by (simp add: cache_ok_def boot_def)

text \<open>C24: Every use of the config drive is balanced. Whatever happens in GetMetadata, an error and a panic
  included, a successful mount on the temporary directory is followed by exactly one attempt to unmount
  it before the directory is removed; no file is read unless the drive is mounted, and nothing is
  mounted twice.\<close>

theorem config_drive_balanced:
  "\<exists>es. machine_calls (snd (GetMetadata h order s)) = machine_calls s @ es \<and> balanced (h_TempDir h) es"
  using GetMetadata_balanced [of h order] unfolding always_def emits_def by blast

text \<open>The check of the search order is enough. When it accepts an order, GetMetadata reports only errors of
  the config drive and of the metadata service, never the one about an invalid option.\<close>

theorem search_order_checked:
  assumes "CheckMetadataSearchOrder order = Ok ()" "GetMetadata h order s = (Err e, s')"
  shows "source_error h e"
proof -
  have valid: "valid_element i" if "i \<in> set (split CHR '','' order)" for i
    using assms(1) that by (simp add: CheckMetadataSearchOrder_ok)
  have "yields (search h (split CHR '','' order) None None) (\<lambda>(md, err). \<forall>e. err = Some e \<longrightarrow> source_error h e)"
    by (rule search_error) (simp_all add: valid)
  then show ?thesis
    using assms(2) search_no_error [of h _ _ _ s] by (auto simp: GetMetadata_def bindM_def setCache_def retM_def failM_def
      split: if_splits prod.splits outcome.splits option.splits dest: yieldsD) (metis fst_conv)+
qed

theorem search_order_checked_witness:
  "CheckMetadataSearchOrder ''configDrive, metadataService'' = Ok () \<and> CheckMetadataSearchOrder MetadataID = Ok () \<and>
   source_error (idle_host :: unit host)
     (Errorf ''error fetching http://169.254.169.254/openstack/latest/meta_data.json: file does not exist'')"
proof (intro conjI)
  show "CheckMetadataSearchOrder ''configDrive, metadataService'' = Ok ()" by code_simp
  show ok: "CheckMetadataSearchOrder MetadataID = Ok ()" by code_simp
  have "trim_space MetadataID = MetadataID" "split CHR '','' MetadataID = [MetadataID]" by code_simp+
  then have "fst (GetMetadata idle_host MetadataID (boot ())) =
      Err (Errorf ''error fetching http://169.254.169.254/openstack/latest/meta_data.json: file does not exist'')"
    by (simp add: GetMetadata_def boot_def idle_host_def try_source_def getFromMetadataService_def prog_defs
        hcall_def missing_def setCache_def defaultMetadataVersion_def Let_def getMetadataURL_def flatten_def)
  then show "source_error (idle_host :: unit host)
      (Errorf ''error fetching http://169.254.169.254/openstack/latest/meta_data.json: file does not exist'')"
    using search_order_checked [OF ok] by (metis prod.collapse)
qed

end
