(* ===== verification/Provider.thy ===== *)
theory Provider
  imports Nodes Metadata
begin

text \<open>
  The provider: \<^verbatim>\<open>internal/edgecenter/edgecenter.go\<close> (configuration, the API client, \<^verbatim>\<open>Edgecenter\<close> and the
  interfaces it offers), \<^verbatim>\<open>routes.go\<close>, and the two functions of \<^verbatim>\<open>instances.go\<close> that read the metadata.
  The configuration parser, the constructor of the API client and the certificate pools are libraries and
  are parameters. The lemmas: what a started provider is guaranteed to have, and the local instance ID.
\<close>

section \<open>Configuration\<close>

record bs_opts =
  bs_BSVersion :: string
  bs_TrustDevicePath :: bool
  bs_IgnoreVolumeAZ :: bool

record router_opts =
  ro_RouterID :: string

record config =
  cfg_LoadBalancer :: lb_opts
  cfg_LoadBalancerClass :: "(string \<rightharpoonup> lb_class) option"
  cfg_BlockStorage :: bs_opts
  cfg_Route :: router_opts
  cfg_Metadata :: metadata_opts
  cfg_Networking :: networking_opts
  cfg_Edgecenter :: edgecenter_opts

definition defaultTimeOut :: int where
  "defaultTimeOut = 60 * 10 ^ 9"

text \<open>\<open>ReadInto\<close> is \<^verbatim>\<open>gcfg.FatalOnly(gcfg.ReadInto(&cfg, config))\<close>: the values read, or a fatal error.\<close>

definition ReadConfig :: "('r \<Rightarrow> config outcome) \<Rightarrow> 'r option \<Rightarrow> config outcome" where
  "ReadConfig ReadInto reader = (case reader of
     None \<Rightarrow> Err (Errorf ''no Edgecenter cloud provider config file given'')
   | Some r \<Rightarrow> (case ReadInto r of
       Ok cfg \<Rightarrow>
         (let md = cfg_Metadata cfg;
              md = (if mo_SearchOrder md = [] then md\<lparr>mo_SearchOrder := ConfigDriveID @ '','' @ MetadataID\<rparr> else md);
              md = (if mo_RequestTimeout md = 0 then md\<lparr>mo_RequestTimeout := defaultTimeOut\<rparr> else md) in
          Ok (cfg\<lparr>cfg_Metadata := md,
            cfg_LoadBalancer := (cfg_LoadBalancer cfg)\<lparr>lbo_LBClasses := cfg_LoadBalancerClass cfg\<rparr>\<rparr>))
     | r \<Rightarrow> r))"

text \<open>\<^verbatim>\<open>MyDuration.UnmarshalText\<close>: the receiver is the state, in nanoseconds; \<open>ParseDuration\<close> is Go's.\<close>

definition UnmarshalText :: "(string \<Rightarrow> int outcome) \<Rightarrow> string \<Rightarrow> (int, unit) prog" where
  "UnmarshalText ParseDuration txt d = (case ParseDuration txt of
     Ok res \<Rightarrow> (Ok (), res)
   | Err e \<Rightarrow> (Err e, d)
   | Panic p \<Rightarrow> (Panic p, d))"

section \<open>The API client\<close>

record client_config =
  cc_APIKey :: string
  cc_BaseURL :: string
  cc_Region :: int
  cc_Project :: int
  cc_UserAgent :: string

text \<open>The chain of HTTP transports; \<open>'p\<close> is the type of certificate pools.\<close>

datatype 'p transport =
    DefaultTransport
  | LibraryTransport
  | TLSTransport 'p bool
  | Instrumented "'p transport"

record ('w, 'p) connection =
  conn_client :: "'w client"
  conn_Transport :: "'p transport option"
  conn_Timeout :: int

record ('w, 'p) client_lib =
  NewWithRetries :: "client_config \<Rightarrow> ('w, 'p) connection outcome"
  NewPool :: "string \<Rightarrow> 'p outcome"
  AppendCertsFromPEM :: "string \<Rightarrow> 'p option"

definition user_agent :: "string \<Rightarrow> string \<Rightarrow> string list \<Rightarrow> string" where
  "user_agent Version userAgent extraUserAgent =
     foldl (\<lambda>ua data. data @ '' '' @ ua) (userAgent @ ''/'' @ Version) extraUserAgent"

definition ca_pool :: "('w, 'p) client_lib \<Rightarrow> edgecenter_opts \<Rightarrow> 'p option outcome" where
  "ca_pool lib cfg =
     (if eo_CAFile cfg \<noteq> [] then
        (case NewPool lib (eo_CAFile cfg) of
           Ok pool \<Rightarrow> Ok (Some pool)
         | Err e \<Rightarrow> Err (Wrapf (''failed to read and parse '' @ eo_CAFile cfg @ '' certificate: '') e)
         | Panic p \<Rightarrow> Panic p)
      else if eo_CAFileContents cfg \<noteq> [] then
        (case AppendCertsFromPEM lib (eo_CAFileContents cfg) of
           Some pool \<Rightarrow> Ok (Some pool)
         | None \<Rightarrow> Err (Errorf ''failed to parse os-certAuthority certificate''))
      else Ok None)"

definition NewEdgecenterClient ::
    "('w, 'p) client_lib \<Rightarrow> string \<Rightarrow> edgecenter_opts \<Rightarrow> string \<Rightarrow> string list \<Rightarrow> ('w, 'p) connection outcome" where
  "NewEdgecenterClient lib Version cfg userAgent extraUserAgent =
     (if eo_ApiToken cfg = [] then Err (Errorf ''token is not set in configuration'')
      else (case NewWithRetries lib \<lparr>cc_APIKey = eo_ApiToken cfg, cc_BaseURL = eo_ApiURL cfg,
          cc_Region = eo_RegionID cfg, cc_Project = eo_ProjectID cfg,
          cc_UserAgent = user_agent Version userAgent extraUserAgent\<rparr> of
        Err e \<Rightarrow> Err (Wrapf ''failed to create edgecenter client: '' e)
      | Panic p \<Rightarrow> Panic p
      | Ok client \<Rightarrow>
          (let transport = (case conn_Transport client of None \<Rightarrow> DefaultTransport | Some t \<Rightarrow> t) in
           case ca_pool lib cfg of
             Err e \<Rightarrow> Err e
           | Panic p \<Rightarrow> Panic p
           | Ok caPool \<Rightarrow>
               (let transport = (case caPool of
                   None \<Rightarrow> transport
                 | Some pool \<Rightarrow> TLSTransport pool (eo_TLSInsecure cfg = ''true'')) in
                Ok (client\<lparr>conn_Transport := Some (Instrumented transport)\<rparr>)))))"

section \<open>The provider\<close>

record ('w, 'p) edgecenter =
  ec_conn :: "('w, 'p) connection"
  ec_region :: string
  ec_cfg :: config
  ec_lbOpts :: lb_opts
  ec_bsOpts :: bs_opts
  ec_routeOpts :: router_opts
  ec_metadataOpts :: metadata_opts
  ec_networkingOpts :: networking_opts
  ec_localInstanceID :: string

abbreviation ec_client :: "('w, 'p) edgecenter \<Rightarrow> 'w client" where
  "ec_client ec \<equiv> conn_client (ec_conn ec)"

text \<open>\<^verbatim>\<open>edgecenter.go\<close> has its own copy of the check in \<^verbatim>\<open>metadata.go\<close>.\<close>

definition checkMetadataSearchOrder :: "string \<Rightarrow> unit outcome" where
  "checkMetadataSearchOrder order =
     (if order = [] then
        Err (Errorf ''invalid value in section [Metadata] with key `search-order`. Value cannot be empty'')
      else
        (let elements = split CHR '','' order in
         if length elements > 2 then
           Err (Errorf ''invalid value in section [Metadata] with key `search-order`. Value cannot contain more than 2 elements'')
         else fst (foldM (\<lambda>i _. let i = trim_space i in
           if i = ConfigDriveID then retM ()
           else if i = MetadataID then retM ()
           else failM (Errorf (''invalid element '' @ quoted i @ '' found in section [Metadata] with key `search-order`.'' @
             ''Supported elements include '' @ quoted ConfigDriveID @ '' and '' @ quoted MetadataID))) elements () ())))"

definition checkEdgecenterOpts :: "('w, 'p) edgecenter \<Rightarrow> unit outcome" where
  "checkEdgecenterOpts ec =
     (let lbOpts = ec_lbOpts ec in
      if lbo_CreateMonitor lbOpts \<and> lbo_MonitorDelay lbOpts = 0 then
        Err (Errorf ''monitor-delay not set in cloud provider config'')
      else if lbo_CreateMonitor lbOpts \<and> lbo_MonitorTimeout lbOpts = 0 then
        Err (Errorf ''monitor-timeout not set in cloud provider config'')
      else if lbo_CreateMonitor lbOpts \<and> lbo_MonitorMaxRetries lbOpts = 0 then
        Err (Errorf ''monitor-max-retries not set in cloud provider config'')
      else checkMetadataSearchOrder (mo_SearchOrder (ec_metadataOpts ec)))"

definition NewEdgecenter ::
    "('w, 'p) client_lib \<Rightarrow> string \<Rightarrow> string list \<Rightarrow> config \<Rightarrow> ('w, 'p) edgecenter outcome" where
  "NewEdgecenter lib Version userAgentData cfg =
     (case NewEdgecenterClient lib Version (cfg_Edgecenter cfg) ''edgecenter-cloud-controller-manager'' userAgentData of
        Err e \<Rightarrow> Err e
      | Panic p \<Rightarrow> Panic p
      | Ok client \<Rightarrow>
          (let gcr = \<lparr>ec_conn = client\<lparr>conn_Timeout := mo_RequestTimeout (cfg_Metadata cfg)\<rparr>,
                 ec_region = eo_Region (cfg_Edgecenter cfg), ec_cfg = cfg, ec_lbOpts = cfg_LoadBalancer cfg,
                 ec_bsOpts = cfg_BlockStorage cfg, ec_routeOpts = cfg_Route cfg, ec_metadataOpts = cfg_Metadata cfg,
                 ec_networkingOpts = cfg_Networking cfg, ec_localInstanceID = []\<rparr> in
           (case checkEdgecenterOpts gcr of
              Ok _ \<Rightarrow> Ok gcr
            | Err e \<Rightarrow> Err e
            | Panic p \<Rightarrow> Panic p)))"

text \<open>The factory that \<^verbatim>\<open>init\<close> registers under the provider's name.\<close>

definition provider_factory ::
    "('w, 'p) client_lib \<Rightarrow> string \<Rightarrow> string list \<Rightarrow> ('r \<Rightarrow> config outcome) \<Rightarrow> 'r option \<Rightarrow> ('w, 'p) edgecenter outcome" where
  "provider_factory lib Version userAgentData ReadInto reader =
     (case ReadConfig ReadInto reader of
        Ok cfg \<Rightarrow> NewEdgecenter lib Version userAgentData cfg
      | Err e \<Rightarrow> Err e
      | Panic p \<Rightarrow> Panic p)"

section \<open>The interfaces it offers\<close>

definition Instances_of :: "('w, 'p) edgecenter \<Rightarrow> 'w instances option" where
  "Instances_of ec = Some \<lparr>i_client = ec_client ec, i_opts = ec_metadataOpts ec, i_networkingOpts = ec_networkingOpts ec\<rparr>"

text \<open>
  \<^verbatim>\<open>reflect.DeepEqual(ec.lbOpts, LoadBalancerOpts{})\<close>; the list of node security groups, which no
  configuration key sets, stands for a nil slice when it is empty.
\<close>

definition empty_lb_opts :: "lb_opts \<Rightarrow> bool" where
  "empty_lb_opts opts \<longleftrightarrow>
     lbo_LBVersion opts = [] \<and> \<not> lbo_UseOctavia opts \<and> lbo_SubnetID opts = [] \<and> lbo_NetworkID opts = [] \<and>
     lbo_FloatingNetworkID opts = [] \<and> lbo_FloatingSubnetID opts = [] \<and> Option.is_none (lbo_LBClasses opts) \<and>
     lbo_LBMethod opts = [] \<and> lbo_LBProvider opts = [] \<and> \<not> lbo_CreateMonitor opts \<and>
     lbo_MonitorDelay opts = 0 \<and> lbo_MonitorTimeout opts = 0 \<and> lbo_MonitorMaxRetries opts = 0 \<and>
     \<not> lbo_ManageSecurityGroups opts \<and> lbo_NodeSecurityGroupIDs opts = [] \<and> \<not> lbo_InternalLB opts"

definition LoadBalancer_of :: "('w, 'p) edgecenter \<Rightarrow> 'w lbaas option" where
  "LoadBalancer_of ec =
     (if empty_lb_opts (ec_lbOpts ec) then None
      else if lbo_LBVersion (ec_lbOpts ec) \<noteq> [] \<and> lbo_LBVersion (ec_lbOpts ec) \<noteq> ''v2'' then None
      else Some \<lparr>l_client = ec_client ec, l_opts = ec_lbOpts ec, l_edgecenter = cfg_Edgecenter (ec_cfg ec)\<rparr>)"

text \<open>\<^verbatim>\<open>routes.go\<close>: the provider passes a nil client, and the operations do nothing.\<close>

record 'w routes =
  r_client :: "'w client option"
  r_opts :: router_opts
  r_networkingOpts :: networking_opts

definition NewRoutes :: "'w client option \<Rightarrow> router_opts \<Rightarrow> networking_opts \<Rightarrow> 'w routes outcome" where
  "NewRoutes client opts networkingOpts =
     (if ro_RouterID opts = [] then Err (Sent ErrNoRouterID)
      else Ok \<lparr>r_client = client, r_opts = opts, r_networkingOpts = networkingOpts\<rparr>)"

definition ListRoutes :: "'w routes \<Rightarrow> string \<Rightarrow> ('w st, 'route list) prog" where
  "ListRoutes r clusterName = retM []"

definition CreateRoute :: "'w routes \<Rightarrow> string \<Rightarrow> string \<Rightarrow> 'route \<Rightarrow> ('w st, unit) prog" where
  "CreateRoute r clusterName nameHint route = retM ()"

definition DeleteRoute :: "'w routes \<Rightarrow> string \<Rightarrow> 'route \<Rightarrow> ('w st, unit) prog" where
  "DeleteRoute r clusterName route = retM ()"

definition Routes_of :: "('w, 'p) edgecenter \<Rightarrow> 'w routes option" where
  "Routes_of ec = (case NewRoutes None (ec_routeOpts ec) (ec_networkingOpts ec) of
     Ok r \<Rightarrow> Some r
   | _ \<Rightarrow> None)"

text \<open>The remaining interfaces, and the helper for conditional unwinding, which nothing uses.\<close>

definition InstancesV2_of :: "('w, 'p) edgecenter \<Rightarrow> 'w instances option" where
  "InstancesV2_of ec = Some \<lparr>i_client = ec_client ec, i_opts = ec_metadataOpts ec, i_networkingOpts = ec_networkingOpts ec\<rparr>"

definition Zones_of :: "('w, 'p) edgecenter \<Rightarrow> ('w, 'p) edgecenter option" where
  "Zones_of ec = Some ec"

definition Clusters_of :: "('w, 'p) edgecenter \<Rightarrow> unit option" where
  "Clusters_of ec = None"

definition HasClusterID :: "('w, 'p) edgecenter \<Rightarrow> bool" where
  "HasClusterID ec = True"

definition ScrubDNS :: "('w, 'p) edgecenter \<Rightarrow> string list \<Rightarrow> string list \<Rightarrow> string list \<times> string list" where
  "ScrubDNS ec nameServers searches = (nameServers, searches)"

definition newCaller :: bool where
  "newCaller = True"

definition disarm :: "bool \<Rightarrow> bool" where
  "disarm c = False"

definition caller_call :: "bool \<Rightarrow> ('s, unit) prog \<Rightarrow> ('s, unit) prog" where
  "caller_call c f = (if c then f else retM ())"

section \<open>Metadata of this machine\<close>

definition GetZone :: "'m host \<Rightarrow> ('w, 'p) edgecenter \<Rightarrow> ('m machine, zone) prog" where
  "GetZone h ec =
     bindM (GetMetadata h (mo_SearchOrder (ec_metadataOpts ec))) (\<lambda>md. bindM (derefM md) (\<lambda>md.
       retM \<lparr>z_FailureDomain = md_AvailabilityZone md, z_Region = ec_region ec\<rparr>))"

definition CurrentNodeName :: "'m host \<Rightarrow> 'w instances \<Rightarrow> string \<Rightarrow> ('m machine, string) prog" where
  "CurrentNodeName h i hostname =
     bindM (GetMetadata h (mo_SearchOrder (i_opts i))) (\<lambda>md. bindM (derefM md) (\<lambda>md. retM (md_Name md)))"

abbreviation instanceIDFile :: string where "instanceIDFile \<equiv> ''/var/lib/cloud/data/instance-id''"

text \<open>The error of the metadata is overwritten by that of the file, which is nil when the file was read.\<close>

definition readInstanceID :: "'m host \<Rightarrow> string \<Rightarrow> ('m machine, string) prog" where
  "readInstanceID h searchOrder =
     tryM (GetMetadata h searchOrder)
       (\<lambda>_. bindM (hcall (\<lambda>_. ReadFile instanceIDFile) (h_ReadFile h instanceIDFile)) (\<lambda>idBytes.
          let instanceID = trim_space idBytes in
          if instanceID \<noteq> [] \<and> instanceID \<noteq> ''iid-datasource-none'' then retM instanceID else retM []))
       (\<lambda>md. bindM (derefM md) (\<lambda>md. retM (md_UUID md)))"

text \<open>The method assigns \<^verbatim>\<open>ec.localInstanceID\<close>: the result has the receiver after the call.\<close>

definition Edgecenter_InstanceID ::
    "'m host \<Rightarrow> ('w, 'p) edgecenter \<Rightarrow> ('m machine, string \<times> ('w, 'p) edgecenter) prog" where
  "Edgecenter_InstanceID h ec =
     (if ec_localInstanceID ec = [] then
        bindM (readInstanceID h (mo_SearchOrder (ec_metadataOpts ec))) (\<lambda>id.
          retM (id, ec\<lparr>ec_localInstanceID := id\<rparr>))
      else retM (ec_localInstanceID ec, ec))"

section \<open>Lemmas\<close>

lemma check_elements_foldM:
  "fst (foldM (\<lambda>i _. let i = trim_space i in
      if i = ConfigDriveID then retM () else if i = MetadataID then retM () else failM (f i)) is () ()) =
   (case find (\<lambda>i. \<not> valid_element i) is of None \<Rightarrow> Ok () | Some i \<Rightarrow> Err (f (trim_space i)))"
  by (induction "is") (auto simp: valid_element_def Let_def bindM_def retM_def failM_def)

lemma check_elements_find:
  "check_elements is = (case find (\<lambda>i. \<not> valid_element i) is of None \<Rightarrow> Ok ()
     | Some i \<Rightarrow> Err (Errorf (''invalid element '' @ quoted (trim_space i) @ '' found in section [Metadata] with key `search-order`.'' @
        ''Supported elements include '' @ quoted ConfigDriveID @ '' and '' @ quoted MetadataID)))"
  by (induction "is") (auto simp: valid_element_def Let_def)

text \<open>The two copies of the check agree.\<close>

lemma checkMetadataSearchOrder_copy: "checkMetadataSearchOrder = CheckMetadataSearchOrder"
  unfolding fun_eq_iff checkMetadataSearchOrder_def CheckMetadataSearchOrder_def check_elements_find
  by (simp add: check_elements_foldM Let_def [of "split _ _"])

lemma NewEdgecenterClient_token:
  "NewEdgecenterClient lib Version cfg userAgent extra = Ok c \<Longrightarrow> eo_ApiToken cfg \<noteq> []"
  by (auto simp: NewEdgecenterClient_def split: if_splits)

lemma NewEdgecenter_ok:
  assumes "NewEdgecenter lib Version ua cfg = Ok ec"
  shows "\<exists>c. NewEdgecenterClient lib Version (cfg_Edgecenter cfg) ''edgecenter-cloud-controller-manager'' ua = Ok c \<and>
      ec_conn ec = c\<lparr>conn_Timeout := mo_RequestTimeout (cfg_Metadata cfg)\<rparr>"
    and "ec_cfg ec = cfg" "ec_lbOpts ec = cfg_LoadBalancer cfg" "ec_metadataOpts ec = cfg_Metadata cfg"
      "ec_localInstanceID ec = []" "checkEdgecenterOpts ec = Ok ()"
  using assms
  by (auto simp: NewEdgecenter_def Let_def split: outcome.splits)

lemma checkEdgecenterOpts_ok:
  "checkEdgecenterOpts ec = Ok () \<longleftrightarrow>
     (lbo_CreateMonitor (ec_lbOpts ec) \<longrightarrow> lbo_MonitorDelay (ec_lbOpts ec) \<noteq> 0 \<and>
       lbo_MonitorTimeout (ec_lbOpts ec) \<noteq> 0 \<and> lbo_MonitorMaxRetries (ec_lbOpts ec) \<noteq> 0) \<and>
     CheckMetadataSearchOrder (mo_SearchOrder (ec_metadataOpts ec)) = Ok ()"
  by (auto simp: checkEdgecenterOpts_def checkMetadataSearchOrder_copy Let_def)

text \<open>Which interfaces are offered, and that routes do nothing.\<close>

lemma LoadBalancer_of_iff:
  "LoadBalancer_of ec = Some l \<longleftrightarrow> \<not> empty_lb_opts (ec_lbOpts ec) \<and> lbo_LBVersion (ec_lbOpts ec) \<in> {[], ''v2''} \<and>
     l = \<lparr>l_client = ec_client ec, l_opts = ec_lbOpts ec, l_edgecenter = cfg_Edgecenter (ec_cfg ec)\<rparr>"
  by (auto simp: LoadBalancer_of_def)

lemma Routes_of_None: "Routes_of ec = None \<longleftrightarrow> ro_RouterID (ec_routeOpts ec) = []"
  by (simp add: Routes_of_def NewRoutes_def)

lemma routes_do_nothing:
  "emits calls (CreateRoute r c n route) (\<lambda>r es. r = Ok () \<and> es = [])"
  "emits calls (DeleteRoute r c route) (\<lambda>r es. r = Ok () \<and> es = [])"
  "emits calls (ListRoutes r c) (\<lambda>r es. r = Ok [] \<and> es = [])"
  unfolding CreateRoute_def DeleteRoute_def ListRoutes_def by (intro wp; simp)+

lemma ReadConfig_ok:
  assumes "ReadConfig ReadInto reader = Ok cfg"
  shows "mo_SearchOrder (cfg_Metadata cfg) \<noteq> []" "mo_RequestTimeout (cfg_Metadata cfg) \<noteq> 0"
    "lbo_LBClasses (cfg_LoadBalancer cfg) = cfg_LoadBalancerClass cfg"
  using assms
  by (auto simp: ReadConfig_def Let_def defaultTimeOut_def split: option.splits outcome.splits if_splits)

text \<open>A configured certificate authority is used, and only then can the verification be off.\<close>

definition transport_ok :: "edgecenter_opts \<Rightarrow> 'p transport \<Rightarrow> bool" where
  "transport_ok cfg t \<longleftrightarrow> (case t of
      TLSTransport pool insecure \<Rightarrow> (eo_CAFile cfg \<noteq> [] \<or> eo_CAFileContents cfg \<noteq> []) \<and> insecure = (eo_TLSInsecure cfg = ''true'')
    | Instrumented _ \<Rightarrow> False
    | _ \<Rightarrow> eo_CAFile cfg = [] \<and> eo_CAFileContents cfg = [])"

lemma NewEdgecenterClient_transport:
  assumes "NewEdgecenterClient lib Version cfg userAgent extra = Ok c"
    and "\<forall>cc c. NewWithRetries lib cc = Ok c \<longrightarrow> conn_Transport c \<in> {None, Some LibraryTransport}"
  shows "\<exists>t. conn_Transport c = Some (Instrumented t) \<and> transport_ok cfg t"
  using assms
  by (fastforce simp: NewEdgecenterClient_def ca_pool_def transport_ok_def Let_def
      split: if_splits outcome.splits option.splits)

text \<open>What a started provider has.\<close>

definition provider_ok :: "('w, 'p) edgecenter \<Rightarrow> bool" where
  "provider_ok ec \<longleftrightarrow>
     eo_ApiToken (cfg_Edgecenter (ec_cfg ec)) \<noteq> [] \<and>
     CheckMetadataSearchOrder (mo_SearchOrder (ec_metadataOpts ec)) = Ok () \<and>
     conn_Timeout (ec_conn ec) = mo_RequestTimeout (ec_metadataOpts ec) \<and> conn_Timeout (ec_conn ec) \<noteq> 0 \<and>
     lbo_LBClasses (ec_lbOpts ec) = cfg_LoadBalancerClass (ec_cfg ec) \<and>
     (lbo_CreateMonitor (ec_lbOpts ec) \<longrightarrow> lbo_MonitorDelay (ec_lbOpts ec) \<noteq> 0 \<and>
       lbo_MonitorTimeout (ec_lbOpts ec) \<noteq> 0 \<and> lbo_MonitorMaxRetries (ec_lbOpts ec) \<noteq> 0) \<and>
     (\<exists>t. conn_Transport (ec_conn ec) = Some (Instrumented t) \<and> transport_ok (cfg_Edgecenter (ec_cfg ec)) t) \<and>
     ec_localInstanceID ec = []"

lemma readInstanceID_ok:
  assumes "readInstanceID h order s = (Ok iid, s')"
  obtains m where "iid = md_UUID m" "GetMetadata h order s = (Ok (Some m), s')"
  | e bytes s1 w' where "GetMetadata h order s = (Err e, s1)" "h_ReadFile h instanceIDFile (machine_world s1) = (Ok bytes, w')"
      "iid = (if trim_space bytes = ''iid-datasource-none'' then [] else trim_space bytes)"
      "metadataCache s' = metadataCache s1"
  using assms unfolding readInstanceID_def
  by (auto simp: derefM_def hcall_def retM_def panicM_def Let_def elim!: tryM_OkE bindM_OkE
      split: option.splits prod.splits if_splits)

lemma GetMetadata_miss_Ok:
  "metadataCache s = None \<Longrightarrow> GetMetadata h order s = (Ok md, s') \<Longrightarrow>
    \<exists>m. md = Some m \<and> md_UUID m \<noteq> [] \<and> metadataCache s' = Some m"
  using GetMetadata_miss [of s h order "Ok md" s'] by simp

lemma GetMetadata_miss_Err:
  "GetMetadata h order s = (Err e, s') \<Longrightarrow> metadataCache s' = None"
  using GetMetadata_miss [of s h order "Err e" s'] GetMetadata_hit [of s _ h order]
  by (cases "metadataCache s") auto

section \<open>Properties\<close>

lemma provider_factory_ok:
  assumes "provider_factory lib Version userAgentData ReadInto reader = Ok ec"
    and "\<forall>cc c. NewWithRetries lib cc = Ok c \<longrightarrow> conn_Transport c \<in> {None, Some LibraryTransport}"
  shows "provider_ok ec"
proof -
  from assms(1) obtain cfg where read: "ReadConfig ReadInto reader = Ok cfg"
    and new: "NewEdgecenter lib Version userAgentData cfg = Ok ec"
    by (auto simp: provider_factory_def split: outcome.splits)
  note cfg = ReadConfig_ok [OF read] and ec = NewEdgecenter_ok [OF new]
  from ec(1) obtain c where c: "NewEdgecenterClient lib Version (cfg_Edgecenter cfg) ''edgecenter-cloud-controller-manager'' userAgentData = Ok c"
    "ec_conn ec = c\<lparr>conn_Timeout := mo_RequestTimeout (cfg_Metadata cfg)\<rparr>" by blast
  obtain t where "conn_Transport c = Some (Instrumented t)" "transport_ok (cfg_Edgecenter cfg) t"
    using NewEdgecenterClient_transport [OF c(1) assms(2)] by blast
  moreover have "eo_ApiToken (cfg_Edgecenter cfg) \<noteq> []"
    using c(1) by (rule NewEdgecenterClient_token)
  ultimately show ?thesis
    using cfg c(2) ec(2-6) by (auto simp: provider_ok_def checkEdgecenterOpts_ok)
qed

text \<open>C17: A provider that the registered factory returns is configured completely. It has a token, a
  search order that names only known metadata sources, a timeout (60 seconds if none is configured) that
  its API client uses, the classes of the LoadBalancerClass sections, and monitor settings if monitors are
  on; its transport is instrumented once, and the verification of certificates is off only if TLSInsecure
  is true and a certificate authority is configured. The client library is relied on to return a client
  with its own transport or none.\<close>

theorem provider_started:
  assumes "provider_factory lib Version userAgentData ReadInto reader = Ok ec"
    and "\<forall>cc c. NewWithRetries lib cc = Ok c \<longrightarrow> conn_Transport c \<in> {None, Some LibraryTransport}"
  shows "provider_ok ec"
  using assms by (rule provider_factory_ok)

text \<open>Where the local instance ID comes from. A successful Edgecenter.InstanceID without a stored ID
  returns the UUID of the metadata, or, when the metadata failed, what the instance-id file holds, and then
  an empty file or one with "iid-datasource-none" gives the empty ID without an error. The ID is stored in
  the provider, and unless it is empty every later call returns it without any call to the host.\<close>

theorem instance_id_resolved:
  assumes "ec_localInstanceID ec = []" "metadataCache s = None"
    and "Edgecenter_InstanceID h ec s = (Ok (iid, ec'), s')"
  shows "((\<exists>m. metadataCache s' = Some m \<and> iid = md_UUID m \<and> iid \<noteq> []) \<or>
      (metadataCache s' = None \<and> (\<exists>bytes w w'. h_ReadFile h instanceIDFile w = (Ok bytes, w') \<and>
        iid = (if trim_space bytes = ''iid-datasource-none'' then [] else trim_space bytes)))) \<and>
    ec' = ec\<lparr>ec_localInstanceID := iid\<rparr> \<and>
    (iid \<noteq> [] \<longrightarrow> (\<forall>h' s1. Edgecenter_InstanceID h' ec' s1 = (Ok (iid, ec'), s1)))"
proof -
  from assms have read: "readInstanceID h (mo_SearchOrder (ec_metadataOpts ec)) s = (Ok iid, s')"
    and ec': "ec' = ec\<lparr>ec_localInstanceID := iid\<rparr>"
    by (auto simp: Edgecenter_InstanceID_def retM_def elim!: bindM_OkE)
  from read have "(\<exists>m. metadataCache s' = Some m \<and> iid = md_UUID m \<and> iid \<noteq> []) \<or>
      (metadataCache s' = None \<and> (\<exists>bytes w w'. h_ReadFile h instanceIDFile w = (Ok bytes, w') \<and>
        iid = (if trim_space bytes = ''iid-datasource-none'' then [] else trim_space bytes)))"
    by (rule readInstanceID_ok) (auto dest: GetMetadata_miss_Ok [OF assms(2)] GetMetadata_miss_Err)
  moreover have "iid \<noteq> [] \<longrightarrow> (\<forall>h' s1. Edgecenter_InstanceID h' ec' s1 = (Ok (iid, ec'), s1))"
    using ec' by (simp add: Edgecenter_InstanceID_def retM_def)
  ultimately show ?thesis using ec' by blast
qed

text \<open>A library whose clients have no transport of their own, and a minimal configuration.\<close>

definition example_lib :: "(unit, string) client_lib" where
  "example_lib = \<lparr>NewWithRetries = (\<lambda>_. Ok \<lparr>conn_client = idle_client, conn_Transport = None, conn_Timeout = 0\<rparr>),
     NewPool = (\<lambda>f. Ok f), AppendCertsFromPEM = (\<lambda>pem. Some pem)\<rparr>"

definition example_config :: config where
  "example_config = \<lparr>cfg_LoadBalancer = \<lparr>lbo_LBVersion = ''v2'', lbo_UseOctavia = False, lbo_SubnetID = [], lbo_NetworkID = [],
       lbo_FloatingNetworkID = [], lbo_FloatingSubnetID = [], lbo_LBClasses = None, lbo_LBMethod = [], lbo_LBProvider = [],
       lbo_CreateMonitor = False, lbo_MonitorDelay = 0, lbo_MonitorTimeout = 0, lbo_MonitorMaxRetries = 0,
       lbo_ManageSecurityGroups = False, lbo_NodeSecurityGroupIDs = [], lbo_InternalLB = False\<rparr>,
     cfg_LoadBalancerClass = Some Map.empty,
     cfg_BlockStorage = \<lparr>bs_BSVersion = [], bs_TrustDevicePath = False, bs_IgnoreVolumeAZ = False\<rparr>,
     cfg_Route = \<lparr>ro_RouterID = []\<rparr>, cfg_Metadata = \<lparr>mo_SearchOrder = [], mo_RequestTimeout = 0\<rparr>,
     cfg_Networking = \<lparr>no_IPv6SupportDisabled = False, no_PublicNetworkName = [], no_InternalNetworkName = []\<rparr>,
     cfg_Edgecenter = \<lparr>eo_ApiURL = ''https://api'', eo_ProjectID = 1, eo_RegionID = 2, eo_ApiToken = ''token'',
       eo_ClusterID = ''c'', eo_NoBillingTag = False, eo_Region = ''region'', eo_CAFile = ''ca.pem'',
       eo_TLSInsecure = [], eo_CAFileContents = []\<rparr>\<rparr>"

lemma default_order_ok: "checkMetadataSearchOrder (ConfigDriveID @ '','' @ MetadataID) = Ok ()"
  by code_simp

lemma example_provider:
  "\<exists>ec. provider_factory example_lib ''v1'' [] (\<lambda>_. Ok example_config) (Some ()) = Ok ec \<and>
     mo_SearchOrder (ec_metadataOpts ec) = ''configDrive,metadataService''"
  using default_order_ok
  by (simp add: provider_factory_def ReadConfig_def NewEdgecenter_def NewEdgecenterClient_def ca_pool_def
      example_lib_def example_config_def checkEdgecenterOpts_def defaultTimeOut_def Let_def)

lemma example_lib_transport: "\<forall>cc c. NewWithRetries example_lib cc = Ok c \<longrightarrow> conn_Transport c \<in> {None, Some LibraryTransport}"
  by (auto simp: example_lib_def)

theorem provider_started_witness:
  "\<exists>ec. provider_factory example_lib ''v1'' [] (\<lambda>_. Ok example_config) (Some ()) = Ok ec \<and> provider_ok ec \<and>
     mo_SearchOrder (ec_metadataOpts ec) = ''configDrive,metadataService''"
  using example_provider provider_started [OF _ example_lib_transport] by blast

text \<open>A machine whose metadata cannot be read and whose instance-id file says that cloud-init had no data.\<close>

definition dataless_host :: "'m host" where
  "dataless_host = idle_host\<lparr>h_ReadFile := (\<lambda>_. answer (Ok ''iid-datasource-none''))\<rparr>"

lemma GetMetadata_idle:
  assumes "h_http_get h = (\<lambda>_. missing)"
  shows "\<exists>e calls. GetMetadata h MetadataID (boot w) = (Err e, (boot w)\<lparr>machine_calls := calls\<rparr>)"
proof -
  have "trim_space MetadataID = MetadataID" "split CHR '','' MetadataID = [MetadataID]" by code_simp+
  with assms show ?thesis
    by (simp add: GetMetadata_def boot_def try_source_def getFromMetadataService_def prog_defs
        hcall_def missing_def setCache_def Let_def)
qed

definition example_provider :: "(unit, string) edgecenter" where
  "example_provider = \<lparr>ec_conn = \<lparr>conn_client = idle_client, conn_Transport = None, conn_Timeout = 60\<rparr>,
     ec_region = ''region'', ec_cfg = example_config, ec_lbOpts = cfg_LoadBalancer example_config,
     ec_bsOpts = cfg_BlockStorage example_config, ec_routeOpts = \<lparr>ro_RouterID = []\<rparr>,
     ec_metadataOpts = \<lparr>mo_SearchOrder = MetadataID, mo_RequestTimeout = 60\<rparr>,
     ec_networkingOpts = cfg_Networking example_config, ec_localInstanceID = []\<rparr>"

theorem instance_id_resolved_witness:
  "\<exists>s'. Edgecenter_InstanceID dataless_host example_provider (boot ()) = (Ok ([], example_provider), s') \<and>
     metadataCache s' = None"
proof -
  have "h_http_get (dataless_host :: unit host) = (\<lambda>_. missing)" by (simp add: dataless_host_def idle_host_def)
  from GetMetadata_idle [OF this] obtain e calls where
    "GetMetadata dataless_host MetadataID (boot ()) = (Err e, (boot ())\<lparr>machine_calls := calls\<rparr>)" by blast
  moreover have "trim_space ''iid-datasource-none'' = ''iid-datasource-none''" by code_simp
  moreover have "mo_SearchOrder (ec_metadataOpts example_provider) = MetadataID"
    and fresh: "ec_localInstanceID example_provider = []" by (simp_all add: example_provider_def)
  ultimately have "\<exists>s'. Edgecenter_InstanceID dataless_host example_provider (boot ()) = (Ok ([], example_provider), s')"
    by (simp add: Edgecenter_InstanceID_def readInstanceID_def tryM_def bindM_def retM_def hcall_def
        dataless_host_def answer_def)
  then obtain s' where run: "Edgecenter_InstanceID dataless_host example_provider (boot ()) = (Ok ([], example_provider), s')" ..
  moreover have "metadataCache s' = None"
    using instance_id_resolved [OF fresh _ run] by (auto simp: boot_def)
  ultimately show ?thesis by blast
qed

end
