(* ===== verification/Rounding.thy ===== *)
theory Rounding
  imports Prelude GoStrings "HOL-Library.Word" "HOL-Library.Signed_Division"
begin

text \<open>
  Sizes: \<^verbatim>\<open>internal/volume/util/util.go\<close> and the copy of \<^verbatim>\<open>RoundUpSize\<close> in \<^verbatim>\<open>internal/util/util.go\<close>.
  An \<^verbatim>\<open>int64\<close> is a \<open>64 word\<close> read with \<open>sint\<close>; Go's division truncates, as \<open>sdiv\<close> does, and panics on
  zero. The width of \<^verbatim>\<open>int\<close> depends on the platform and is the type variable \<open>'n\<close>.
\<close>

definition div64 :: "64 word \<Rightarrow> 64 word \<Rightarrow> 64 word" where
  "div64 x y = word_of_int (sint x sdiv sint y)"

definition mod64 :: "64 word \<Rightarrow> 64 word \<Rightarrow> 64 word" where
  "mod64 x y = word_of_int (sint x smod sint y)"

definition GIB :: "64 word" where
  "GIB = 1024 * 1024 * 1024"

definition RoundUpSize :: "64 word \<Rightarrow> 64 word \<Rightarrow> 64 word outcome" where
  "RoundUpSize volumeSizeBytes allocationUnitBytes =
     (if allocationUnitBytes = 0 then Panic ''integer divide by zero''
      else
        (let roundedUp = div64 volumeSizeBytes allocationUnitBytes in
         Ok (if sint (mod64 volumeSizeBytes allocationUnitBytes) > 0 then roundedUp + 1 else roundedUp)))"

definition util_RoundUpSize :: "64 word \<Rightarrow> 64 word \<Rightarrow> 64 word outcome" where
  "util_RoundUpSize volumeSizeBytes allocationUnitBytes =
     (if allocationUnitBytes = 0 then Panic ''integer divide by zero''
      else
        (let roundedUp = div64 volumeSizeBytes allocationUnitBytes in
         Ok (if sint (mod64 volumeSizeBytes allocationUnitBytes) > 0 then roundedUp + 1 else roundedUp)))"

text \<open>\<^verbatim>\<open>int(roundedUp)\<close> keeps the low bits, the conversion back extends the sign.\<close>

definition RoundUpSizeInt :: "64 word \<Rightarrow> 64 word \<Rightarrow> ('n :: len) word outcome" where
  "RoundUpSizeInt volumeSizeBytes allocationUnitBytes =
     (case RoundUpSize volumeSizeBytes allocationUnitBytes of
        Ok roundedUp \<Rightarrow>
          (let roundedUpInt = (scast roundedUp :: 'n word) in
           if (scast roundedUpInt :: 64 word) \<noteq> roundedUp
           then Err (Errorf (''capacity '' @ show_int (sint roundedUp) @ '' is too great, casting results in integer overflow''))
           else Ok roundedUpInt)
      | Err e \<Rightarrow> Err e
      | Panic p \<Rightarrow> Panic p)"

text \<open>\<open>Value\<close> is \<^verbatim>\<open>Quantity.Value\<close> of \<^verbatim>\<open>k8s.io/apimachinery\<close>.\<close>

definition RoundUpToGiBInt :: "('q \<Rightarrow> 64 word) \<Rightarrow> 'q \<Rightarrow> ('n :: len) word outcome" where
  "RoundUpToGiBInt Value sz = RoundUpSizeInt (Value sz) GIB"

section \<open>Lemmas\<close>

text \<open>The copies agree.\<close>

lemma util_RoundUpSize_copy: "util_RoundUpSize = RoundUpSize"
  by (simp add: fun_eq_iff util_RoundUpSize_def RoundUpSize_def)

lemma div_mod_pos:
  fixes x y :: int
  assumes "0 \<le> x" "0 < y"
  shows "x sdiv y = x div y" "x smod y = x mod y"
  using assms by (simp_all add: signed_divide_int_def signed_modulo_int_def sgn_if)

lemma sint64: "- (2 ^ 63) \<le> sint (x :: 64 word)" "sint (x :: 64 word) < 2 ^ 63"
  using sint_greater_eq [of x] sint_less [of x] by simp_all

lemma sint_of_int64: "- (2 ^ 63) \<le> x \<Longrightarrow> x < 2 ^ 63 \<Longrightarrow> sint (word_of_int x :: 64 word) = x"
  by (simp add: sint_sbintrunc' signed_take_bit_int_eq_self)

text \<open>The ceiling of a quotient.\<close>

definition ceil_div :: "int \<Rightarrow> int \<Rightarrow> int" where
  "ceil_div x y = (if x mod y > 0 then x div y + 1 else x div y)"

lemma ceil_div_bounds:
  assumes "0 < y"
  shows "x \<le> ceil_div x y * y" "ceil_div x y * y < x + y"
proof -
  define q r where "q = x div y" and "r = x mod y"
  have "x = q * y + r" "0 \<le> r" "r < y" using assms by (simp_all add: q_def r_def)
  then show "x \<le> ceil_div x y * y" "ceil_div x y * y < x + y"
    unfolding ceil_div_def q_def [symmetric] r_def [symmetric] by (auto simp: algebra_simps)
qed

lemma ceil_div_range:
  assumes "0 \<le> x" "0 < y"
  shows "0 \<le> ceil_div x y" "ceil_div x y \<le> x"
proof -
  have "0 \<le> x div y" using assms by (simp add: pos_imp_zdiv_nonneg_iff)
  then show "0 \<le> ceil_div x y" by (simp add: ceil_div_def)
  show "ceil_div x y \<le> x"
  proof (rule ccontr)
    assume "\<not> ceil_div x y \<le> x"
    then have "(x + 1) * y \<le> ceil_div x y * y" using assms(2) by (intro mult_right_mono) auto
    then have "(x + 1) * y < x + y" using ceil_div_bounds(2) [OF assms(2), of x] by linarith
    then have "x * y < x * 1" by (simp add: algebra_simps)
    then show False using assms mult_left_mono [of 1 y x] by linarith
  qed
qed

lemma RoundUpSize_nonneg:
  assumes "0 \<le> sint sz" "0 < sint unit"
  shows "\<exists>n. RoundUpSize sz unit = Ok n \<and> sint n = ceil_div (sint sz) (sint unit)"
proof -
  let ?q = "sint sz div sint unit" and ?r = "sint sz mod sint unit"
  have "?r < sint unit" using assms(2) by simp
  then have "?r < 2 ^ 63" using sint64(2) [of unit] by linarith
  moreover have "?q < 2 ^ 63"
    using ceil_div_range(2) [OF assms] sint64(2) [of sz] by (simp add: ceil_div_def split: if_splits)
  ultimately have ranges: "0 \<le> ?q" "?q < 2 ^ 63" "0 \<le> ?r" "?r < 2 ^ 63"
    using assms by (simp_all add: pos_imp_zdiv_nonneg_iff)
  have "unit \<noteq> 0" using assms by auto
  moreover have "sint (mod64 sz unit) = ?r" "div64 sz unit = word_of_int ?q"
    using sint_of_int64 [of ?r] ranges(3,4) by (simp_all add: mod64_def div64_def div_mod_pos [OF assms])
  moreover have "sint (word_of_int ?q :: 64 word) = ?q" using ranges by (simp add: sint_of_int64)
  moreover have "sint (word_of_int ?q + 1 :: 64 word) = ?q + 1" if "?r > 0"
  proof -
    have "?q + 1 \<le> sint sz" using ceil_div_range [OF assms] that by (simp add: ceil_div_def)
    then have "?q + 1 < 2 ^ 63" using sint64(2) [of sz] by linarith
    moreover have "word_of_int ?q + 1 = (word_of_int (?q + 1) :: 64 word)" by simp
    ultimately show ?thesis using ranges by (simp only: sint_of_int64)
  qed
  ultimately show ?thesis by (auto simp: RoundUpSize_def ceil_div_def Let_def)
qed

text \<open>The conversion to \<^verbatim>\<open>int\<close> fails exactly for the values that its width cannot hold.\<close>

lemma scast_round_trip:
  assumes "LENGTH('n :: len) \<le> 64"
  shows "(scast (scast x :: 'n word) :: 64 word) = x \<longleftrightarrow>
    - (2 ^ (LENGTH('n) - 1)) \<le> sint x \<and> sint x < 2 ^ (LENGTH('n) - 1)"
proof -
  have n: "sint (scast x :: 'n word) = signed_take_bit (LENGTH('n) - 1) (sint x)"
    unfolding scast_eq sint_sbintrunc' ..
  have "(scast (scast x :: 'n word) :: 64 word) = x \<longleftrightarrow>
      sint (scast (scast x :: 'n word) :: 64 word) = sint x"
    by (auto dest: arg_cong [where f = "word_of_int :: int \<Rightarrow> 64 word"])
  also have "\<dots> \<longleftrightarrow> signed_take_bit 63 (signed_take_bit (LENGTH('n) - 1) (sint x)) = sint x"
    unfolding scast_eq [of "scast x :: 'n word"] sint_sbintrunc' n by simp
  also have "\<dots> \<longleftrightarrow> signed_take_bit (LENGTH('n) - 1) (sint x) = sint x"
    using assms by (cases "LENGTH('n) = 64") (simp_all add: signed_take_bit_signed_take_bit min_def)
  also have "\<dots> \<longleftrightarrow> - (2 ^ (LENGTH('n) - 1)) \<le> sint x \<and> sint x < 2 ^ (LENGTH('n) - 1)"
    by (auto simp: signed_take_bit_int_eq_self_iff)
  finally show ?thesis .
qed

lemma sint_scast_fits:
  "- (2 ^ (LENGTH('n) - 1)) \<le> sint x \<Longrightarrow> sint x < 2 ^ (LENGTH('n) - 1) \<Longrightarrow>
    sint (scast (x :: 64 word) :: ('n :: len) word) = sint x"
  unfolding scast_eq sint_sbintrunc' by (rule signed_take_bit_int_eq_self)

lemma RoundUpSizeInt_cases:
  assumes "LENGTH('n :: len) \<le> 64" "RoundUpSize sz unit = Ok n"
  shows "if - (2 ^ (LENGTH('n) - 1)) \<le> sint n \<and> sint n < 2 ^ (LENGTH('n) - 1)
    then \<exists>m :: 'n word. RoundUpSizeInt sz unit = Ok m \<and> sint m = sint n
    else \<exists>e. (RoundUpSizeInt sz unit :: 'n word outcome) = Err e"
  using scast_round_trip [OF assms(1), of n] assms(2)
  by (auto simp: RoundUpSizeInt_def Let_def sint_scast_fits)

section \<open>Properties\<close>

text \<open>Rounding up is exact. For a size that is not negative and a positive unit, RoundUpSize returns the
  least number of units that hold the size, without overflow; RoundUpSizeInt returns the same number where
  an int has 64 bits, and where it has 32 bits it returns the number or the overflow error, the error
  exactly from two to the 31 on.\<close>

theorem round_up_size:
  assumes "0 \<le> sint sz" "0 < sint unit"
  shows "\<exists>n. RoundUpSize sz unit = Ok n \<and>
    sint sz \<le> sint n * sint unit \<and> sint n * sint unit < sint sz + sint unit \<and>
    (\<exists>m :: 64 word. RoundUpSizeInt sz unit = Ok m \<and> sint m = sint n) \<and>
    (if sint n < 2 ^ 31 then \<exists>m :: 32 word. RoundUpSizeInt sz unit = Ok m \<and> sint m = sint n
     else \<exists>e. (RoundUpSizeInt sz unit :: 32 word outcome) = Err e)"
proof -
  obtain n where n: "RoundUpSize sz unit = Ok n" "sint n = ceil_div (sint sz) (sint unit)"
    using RoundUpSize_nonneg [OF assms] by blast
  have "0 \<le> sint n" using n(2) ceil_div_range(1) [OF assms] by simp
  with n ceil_div_bounds [OF assms(2), of "sint sz"] sint64 [of n]
    RoundUpSizeInt_cases [where 'n = 64, OF _ n(1)] RoundUpSizeInt_cases [where 'n = 32, OF _ n(1)]
  show ?thesis by (auto split: if_splits)
qed

theorem round_up_size_witness:
  "RoundUpSize (1500 * 1024 * 1024) GIB = Ok 2 \<and>
   sint (1500 * 1024 * 1024 :: 64 word) \<le> sint (2 :: 64 word) * sint GIB"
proof -
  have "RoundUpSize (1500 * 1024 * 1024) GIB = Ok 2" by code_simp
  with round_up_size [of "1500 * 1024 * 1024" GIB] show ?thesis by (auto simp: GIB_def)
qed

end
