(* ===== verification/Volumes.thy ===== *)
theory Volumes
  imports Provider Rounding
begin

text \<open>
  Block storage: \<^verbatim>\<open>internal/edgecenter/volumes.go\<close> with the error types of \<^verbatim>\<open>internal/volume\<close>. The requests
  go to the API client; the search for a device path reads the file system and the metadata of this
  machine. The lemmas: which read justifies a change of a volume, the metric of every operation, the size
  a volume is expanded to, the answer about attached disks, and the device path.
\<close>

section \<open>Types\<close>

record 'w volumes =
  v_client :: "'w client"
  v_opts :: bs_opts

record volume =
  vol_AttachedServerID :: string
  vol_AttachedDevice :: string
  vol_AvailabilityZone :: string
  vol_ID :: string
  vol_Name :: string
  vol_Status :: string
  vol_Size :: int

record volume_create_opts =
  vco_Size :: int
  vco_Availability :: string
  vco_Name :: string
  vco_VolumeType :: string
  vco_Metadata :: "string \<rightharpoonup> string"

abbreviation volumeAvailableStatus :: string where "volumeAvailableStatus \<equiv> ''available''"
abbreviation volumeInUseStatus :: string where "volumeInUseStatus \<equiv> ''in-use''"

text \<open>Constants of \<^verbatim>\<open>edgecentercloud-go\<close>.\<close>

abbreviation VolumeSourceNewVolume :: string where "VolumeSourceNewVolume \<equiv> ''new-volume''"
abbreviation VolumeTypeStandard :: string where "VolumeTypeStandard \<equiv> ''standard''"

section \<open>Errors\<close>

definition NewDanglingError :: "string \<Rightarrow> string \<Rightarrow> string \<Rightarrow> error" where
  "NewDanglingError msg node devicePath = DanglingAttach msg node devicePath"

definition NewDeletedVolumeInUseError :: "string \<Rightarrow> error" where
  "NewDeletedVolumeInUseError message = DeletedVolumeInUse message"

text \<open>A type switch on the error itself, not on what it wraps.\<close>

definition IsDeletedVolumeInUse :: "error \<Rightarrow> bool" where
  "IsDeletedVolumeInUse err = (case err of DeletedVolumeInUse _ \<Rightarrow> True | _ \<Rightarrow> False)"

section \<open>The volume service\<close>

text \<open>
  The deferred \<^verbatim>\<open>recordEdgecenterOperationMetric\<close>: it sees the variable \<^verbatim>\<open>err\<close>, which is non-nil exactly
  when the function returns an error, and nil when it panics.
\<close>

definition metered :: "string \<Rightarrow> ('w st, 'a) prog \<Rightarrow> ('w st, 'a) prog" where
  "metered op = deferM (\<lambda>r. record_metric op (case r of Err _ \<Rightarrow> True | _ \<Rightarrow> False))"

definition vol_get :: "'w client \<Rightarrow> string \<Rightarrow> ('w st, cloud_volume) prog" where
  "vol_get c volumeID = call (\<lambda>r. VO (Volumes_Get volumeID r)) (api_vol_get (Volumes c) volumeID)"

definition createVolume :: "'w volumes \<Rightarrow> volume_create_opts \<Rightarrow> ('w st, string \<times> string) prog" where
  "createVolume v opts =
     (let c = v_client v;
          typeName = (if VolumeType_IsValid c (vco_VolumeType opts) then vco_VolumeType opts else VolumeTypeStandard);
          createOpts = \<lparr>vc_Name = vco_Name opts, vc_Size = vco_Size opts, vc_Source = VolumeSourceNewVolume,
            vc_TypeName = typeName\<rparr> in
      bindM (wrapM (Wrapf (''create volume task failed with opts: '' @ Sprint_volume_request c createOpts @ ''. Error: ''))
        (call (\<lambda>_. VO (Volumes_Create createOpts)) (api_vol_create (Volumes c) createOpts))) (\<lambda>task.
      bindM (firstM (task_Volumes task)) (\<lambda>task_volume.
      bindM (wrapM (Wrapf (''cannot get volume with ID: '' @ task_volume @ ''. Error: '')) (vol_get c task_volume)) (\<lambda>vlm.
      bindM (record_metric ''create_volume'' False) (\<lambda>_.
        if cv_Status vlm \<noteq> volumeAvailableStatus
        then failM (Errorf (''unaccessible volume '' @ Sprint_volume c vlm @ '' state after creation: '' @ cv_Status vlm))
        else retM (cv_ID vlm, cv_AvailabilityZone vlm))))))"

definition volume_of :: "cloud_volume \<Rightarrow> volume" where
  "volume_of vlm = \<lparr>
     vol_AttachedServerID = (case cv_Attachments vlm of (serverID, _) # _ \<Rightarrow> serverID | [] \<Rightarrow> []),
     vol_AttachedDevice = (case cv_Attachments vlm of (_, device) # _ \<Rightarrow> device | [] \<Rightarrow> []),
     vol_AvailabilityZone = cv_AvailabilityZone vlm, vol_ID = cv_ID vlm, vol_Name = cv_Name vlm,
     vol_Status = cv_Status vlm, vol_Size = cv_Size vlm\<rparr>"

definition getVolume :: "'w volumes \<Rightarrow> string \<Rightarrow> ('w st, volume) prog" where
  "getVolume v volumeID = metered ''get_volume''
     (bindM (wrapM (flatten (''error occurred getting volume by ID: '' @ volumeID @ '', err: ''))
        (vol_get (v_client v) volumeID)) (\<lambda>vlm. retM (volume_of vlm)))"

definition deleteVolume :: "'w volumes \<Rightarrow> string \<Rightarrow> ('w st, unit) prog" where
  "deleteVolume v volumeID = metered ''delete_volume''
     (bindM (wrapM (\<lambda>_. Errorf (''cannot delete volume with ID: '' @ volumeID))
        (call (\<lambda>_. VO (Volumes_Delete volumeID)) (api_vol_delete (Volumes (v_client v)) volumeID))) (\<lambda>_. retM ()))"

definition expandVolume :: "'w volumes \<Rightarrow> string \<Rightarrow> int \<Rightarrow> string \<Rightarrow> ('w st, unit) prog" where
  "expandVolume v volumeID newSize volumeStatus =
     (if volumeStatus \<noteq> volumeAvailableStatus then failM (Errorf (''volume status is not '' @ [CHR 0x27] @ ''available'' @ [CHR 0x27]))
      else metered ''expand_volume''
        (bindM (call (\<lambda>_. VO (Volumes_Extend volumeID newSize)) (api_vol_extend (Volumes (v_client v)) volumeID newSize)) (\<lambda>tasks.
         bindM (firstM tasks) (\<lambda>task.
           call (\<lambda>_. PL (Task_Wait task)) (api_task_wait (Pools (v_client v)) task)))))"

section \<open>Operations of the provider\<close>

definition volumeService :: "('w, 'p) edgecenter \<Rightarrow> ('w st, 'w volumes) prog" where
  "volumeService ec = retM \<lparr>v_client = ec_client ec, v_opts = ec_bsOpts ec\<rparr>"

definition no_service :: "('w, 'p) edgecenter \<Rightarrow> error \<Rightarrow> error" where
  "no_service ec = flatten (''unable to initialize cinder client for region: '' @ ec_region ec @ '', err: '')"

definition ec_getVolume :: "('w, 'p) edgecenter \<Rightarrow> string \<Rightarrow> ('w st, volume) prog" where
  "ec_getVolume ec volumeID =
     bindM (wrapM (no_service ec) (volumeService ec)) (\<lambda>volumes. getVolume volumes volumeID)"

definition AttachDisk :: "('w, 'p) edgecenter \<Rightarrow> string \<Rightarrow> string \<Rightarrow> ('w st, string) prog" where
  "AttachDisk ec instanceID volumeID =
     bindM (ec_getVolume ec volumeID) (\<lambda>vol.
       if vol_AttachedServerID vol \<noteq> [] then
         if instanceID = vol_AttachedServerID vol then retM (vol_ID vol)
         else
           (let attachErr = ''disk '' @ volumeID @ '' path '' @ vol_AttachedDevice vol @
                  '' is attached to a different instance ('' @ vol_AttachedServerID vol @ '')'' in
            tryM (GetNodeNameByID (ec_client ec) (vol_AttachedServerID vol))
              (\<lambda>_. failM (Errorf attachErr))
              (\<lambda>nodeName. failM (NewDanglingError attachErr nodeName (vol_AttachedDevice vol))))
       else metered ''attach_disk''
         (bindM (wrapM (flatten (''failed to attach '' @ volumeID @ '' volume to '' @ instanceID @ '' compute: ''))
            (call (\<lambda>_. VO (Volumes_Attach volumeID instanceID)) (api_vol_attach (Volumes (ec_client ec)) volumeID instanceID)))
            (\<lambda>vlm. retM (cv_ID vlm))))"

definition DetachDisk :: "('w, 'p) edgecenter \<Rightarrow> string \<Rightarrow> string \<Rightarrow> ('w st, unit) prog" where
  "DetachDisk ec instanceID volumeID =
     bindM (ec_getVolume ec volumeID) (\<lambda>vol.
       if vol_Status vol = volumeAvailableStatus then retM ()
       else if vol_Status vol \<noteq> volumeInUseStatus then
         failM (Errorf (''can not detach volume '' @ vol_Name vol @ '', its status is '' @ vol_Status vol))
       else if vol_AttachedServerID vol \<noteq> instanceID then
         failM (Errorf (''disk: '' @ vol_Name vol @ '' has no attachments or is not attached to compute: '' @ instanceID))
       else metered ''detach_disk''
         (bindM (wrapM (flatten (''failed to delete volume '' @ vol_ID vol @ '' from compute '' @ instanceID @ '' attached ''))
            (call (\<lambda>_. VO (Volumes_Detach volumeID instanceID)) (api_vol_detach (Volumes (ec_client ec)) volumeID instanceID)))
            (\<lambda>_. retM ())))"

text \<open>
  \<^verbatim>\<open>resource.Quantity\<close> is a library type: \<open>'q\<close> with its \<^verbatim>\<open>Value\<close> and \<^verbatim>\<open>MustParse\<close>, which panics on a
  text it cannot parse. An \<^verbatim>\<open>int\<close> has 64 bits; with an error the function returns the old size.
\<close>

definition ExpandVolume ::
    "('q \<Rightarrow> 64 word) \<Rightarrow> (string \<Rightarrow> 'q outcome) \<Rightarrow> ('w, 'p) edgecenter \<Rightarrow> string \<Rightarrow> 'q \<Rightarrow> 'q \<Rightarrow> ('w st, 'q) prog" where
  "ExpandVolume Value MustParse ec volumeID oldSize newSize =
     bindM (ec_getVolume ec volumeID) (\<lambda>vol.
     bindM (liftM (RoundUpToGiBInt Value newSize)) (\<lambda>volSizeGiB :: 64 word.
     bindM (liftM (MustParse (show_int (sint volSizeGiB) @ ''Gi''))) (\<lambda>newSizeQuant.
       if vol_Size vol \<ge> sint volSizeGiB then retM newSizeQuant
       else
         bindM (volumeService ec) (\<lambda>volumes.
         bindM (expandVolume volumes volumeID (sint volSizeGiB) (vol_Status vol)) (\<lambda>_.
           retM newSizeQuant)))))"

definition CreateVolume ::
    "('w, 'p) edgecenter \<Rightarrow> string \<Rightarrow> int \<Rightarrow> string \<Rightarrow> string \<Rightarrow> (string \<rightharpoonup> string) option \<Rightarrow>
      ('w st, string \<times> string \<times> string \<times> bool) prog" where
  "CreateVolume ec name sz vtype availability tags =
     bindM (wrapM (no_service ec) (volumeService ec)) (\<lambda>volumes.
       let opts = \<lparr>vco_Size = sz, vco_Availability = availability, vco_Name = name, vco_VolumeType = vtype,
             vco_Metadata = (case tags of None \<Rightarrow> Map.empty | Some m \<Rightarrow> m)\<rparr> in
       bindM (wrapM (Wrapf (''failed to create a '' @ show_int sz @ '' GB volume: '')) (createVolume volumes opts))
         (\<lambda>(volumeID, volumeAZ). retM (volumeID, volumeAZ, ec_region ec, bs_IgnoreVolumeAZ (ec_bsOpts ec))))"

definition diskIsUsed :: "('w, 'p) edgecenter \<Rightarrow> string \<Rightarrow> ('w st, bool) prog" where
  "diskIsUsed ec volumeID =
     bindM (ec_getVolume ec volumeID) (\<lambda>vol. retM (vol_AttachedServerID vol \<noteq> []))"

definition DeleteVolume :: "('w, 'p) edgecenter \<Rightarrow> string \<Rightarrow> ('w st, unit) prog" where
  "DeleteVolume ec volumeID =
     bindM (diskIsUsed ec volumeID) (\<lambda>used.
       if used then
         failM (NewDeletedVolumeInUseError
           (''Cannot delete the volume '' @ quoted volumeID @ '', it's still attached to a node''))
       else
         bindM (wrapM (no_service ec) (volumeService ec)) (\<lambda>volumes. deleteVolume volumes volumeID))"

definition DiskIsAttached :: "('w, 'p) edgecenter \<Rightarrow> string \<Rightarrow> string \<Rightarrow> ('w st, bool) prog" where
  "DiskIsAttached ec instanceID volumeID =
     bindM (ec_getVolume ec volumeID) (\<lambda>vol. retM (instanceID = vol_AttachedServerID vol))"

definition disk_attached :: "('w, 'p) edgecenter \<Rightarrow> string \<Rightarrow> string \<Rightarrow> (string \<rightharpoonup> bool) \<Rightarrow> ('w st, string \<rightharpoonup> bool) prog" where
  "disk_attached ec instanceID volumeID attached =
     tryM (DiskIsAttached ec instanceID volumeID)
       (\<lambda>err. if \<not> errors_Is err ErrNotFound then retM (attached(volumeID \<mapsto> True)) else retM (attached(volumeID \<mapsto> False)))
       (\<lambda>isAttached. retM (attached(volumeID \<mapsto> isAttached)))"

definition DisksAreAttached :: "('w, 'p) edgecenter \<Rightarrow> string \<Rightarrow> string list \<Rightarrow> ('w st, string \<rightharpoonup> bool) prog" where
  "DisksAreAttached ec instanceID volumeIDs = foldM (disk_attached ec instanceID) volumeIDs Map.empty"

text \<open>\<^verbatim>\<open>v1.PersistentVolume\<close> is the volume ID of its Cinder source, if it has one.\<close>

definition ProvisionedVolumeName :: string where
  "ProvisionedVolumeName = ''placeholder-for-provisioning''"

abbreviation LabelZoneFailureDomain :: string where
  "LabelZoneFailureDomain \<equiv> ''failure-domain.beta.kubernetes.io/zone''"
abbreviation LabelZoneRegion :: string where
  "LabelZoneRegion \<equiv> ''failure-domain.beta.kubernetes.io/region''"

definition GetLabelsForVolume :: "('w, 'p) edgecenter \<Rightarrow> string option \<Rightarrow> ('w st, (string \<rightharpoonup> string) option) prog" where
  "GetLabelsForVolume ec cinder = (case cinder of
     None \<Rightarrow> retM None
   | Some volumeID \<Rightarrow>
       if volumeID = ProvisionedVolumeName then retM None
       else bindM (ec_getVolume ec volumeID) (\<lambda>vol.
         retM (Some [LabelZoneFailureDomain \<mapsto> vol_AvailabilityZone vol, LabelZoneRegion \<mapsto> ec_region ec])))"

section \<open>Device paths\<close>

text \<open>The slice \<^verbatim>\<open>s[:n]\<close> of a string.\<close>

definition takeM :: "nat \<Rightarrow> string \<Rightarrow> ('s, string) prog" where
  "takeM n str = (if n \<le> length str then retM (take n str) else panicM ''slice bounds out of range'')"

definition candidate_nodes :: "string \<Rightarrow> string \<Rightarrow> string list" where
  "candidate_nodes volumeID serial = [
     ''virtio-'' @ serial,
     ''virtio-'' @ volumeID,
     ''scsi-0QEMU_QEMU_HARDDISK_'' @ serial,
     ''scsi-0QEMU_QEMU_HARDDISK_'' @ volumeID,
     ''wwn-0x'' @ remove_char CHR ''-'' volumeID]"

abbreviation disk_by_id :: string where "disk_by_id \<equiv> ''/dev/disk/by-id/''"

definition GetDevicePathBySerialID :: "'m host \<Rightarrow> string \<Rightarrow> ('m machine, string) prog" where
  "GetDevicePathBySerialID h volumeID =
     bindM (takeM 20 volumeID) (\<lambda>serial.
     bindM (hcall_total (ReadDir disk_by_id) (h_ReadDir h disk_by_id)) (\<lambda>(files, _).
       case find (\<lambda>f. f \<in> set (candidate_nodes volumeID serial)) files of
         Some f \<Rightarrow> retM (path_Join [disk_by_id, f])
       | None \<Rightarrow> retM []))"

abbreviation newtonMetadataVersion :: string where "newtonMetadataVersion \<equiv> ''2016-06-30''"

text \<open>The first device that matches decides.\<close>

definition getDevicePathFromInstanceMetadata :: "'m host \<Rightarrow> string \<Rightarrow> ('m machine, string) prog" where
  "getDevicePathFromInstanceMetadata h volumeID =
     tryM (GetMetadata h newtonMetadataVersion) (\<lambda>_. retM []) (\<lambda>md.
     bindM (derefM md) (\<lambda>instanceMetadata.
       case find (is_disk volumeID) (md_Devices instanceMetadata) of
         None \<Rightarrow> retM []
       | Some device \<Rightarrow>
           tryM (hcall (\<lambda>_. Glob (diskPattern device)) (h_Glob h (diskPattern device))) (\<lambda>_. retM []) (\<lambda>diskPaths.
             case diskPaths of [p] \<Rightarrow> retM p | _ \<Rightarrow> retM [])))"

text \<open>The driver \<^verbatim>\<open>wait.ExponentialBackoff\<close> runs over the machine and the variable \<^verbatim>\<open>devicePath\<close>.\<close>

definition device_backoff :: backoff where
  "device_backoff = \<lparr>bo_Duration = 1000, bo_Factor = 11, bo_Steps = 15\<rparr>"

definition device_path_cond :: "'m host \<Rightarrow> string \<Rightarrow> ('m machine \<times> string, bool) prog" where
  "device_path_cond h volumeID =
     bindM (outer (GetDevicePathBySerialID h volumeID)) (\<lambda>devicePath.
     bindM (set_var devicePath) (\<lambda>_.
       if devicePath \<noteq> [] then retM True
       else
         bindM (outer (getDevicePathFromInstanceMetadata h volumeID)) (\<lambda>devicePath.
         bindM (set_var devicePath) (\<lambda>_. retM (devicePath \<noteq> [])))))"

definition GetDevicePath ::
    "(backoff \<Rightarrow> ('m machine \<times> string, bool) prog \<Rightarrow> ('m machine \<times> string, unit) prog) \<Rightarrow>
      'm host \<Rightarrow> string \<Rightarrow> ('m machine, string) prog" where
  "GetDevicePath drive h volumeID =
     bindM (run_var [] (drive device_backoff (device_path_cond h volumeID))) (\<lambda>(err, devicePath).
       if is_wait_timeout err then
         failM (Errorf (''failed to find device for the volumeID: '' @ quoted volumeID @ '' within the alloted time''))
       else if devicePath = [] then failM (Errorf (''device path was empty for volumeID: '' @ quoted volumeID))
       else retM devicePath)"

section \<open>Lemmas\<close>

lemma wp_metered [wp]:
  "emits calls m (\<lambda>r es. Q r (es @ [VO (Operation_Metric op (case r of Err _ \<Rightarrow> True | _ \<Rightarrow> False))])) \<Longrightarrow>
    emits calls (metered op m) Q"
  unfolding metered_def by (intro wp) (erule emits_weaken, intro wp, simp)

lemmas volume_op_defs = ec_getVolume_def volumeService_def getVolume_def vol_get_def GetNodeNameByID_def inst_get_def

subsection \<open>What justifies a change\<close>

text \<open>
  The automaton keeps the last answer about a volume. A change uses it up: a deletion or an attachment
  needs a volume without an attached server, a detachment one that is in use by the instance, an
  extension an available volume that is smaller.
\<close>

abbreviation attached_server :: "cloud_volume \<Rightarrow> string" where
  "attached_server cv \<equiv> vol_AttachedServerID (volume_of cv)"

definition volume_step :: "(string \<times> cloud_volume) option \<Rightarrow> api_call \<Rightarrow> (string \<times> cloud_volume) option option" where
  "volume_step seen c = (case c of
     VO vc \<Rightarrow> (let change = (\<lambda>v ok. case seen of
           Some (v', cv) \<Rightarrow> if v' = v \<and> ok cv then Some None else None
         | None \<Rightarrow> None) in
       (case vc of
          Volumes_Get v r \<Rightarrow> Some (case r of Ok cv \<Rightarrow> Some (v, cv) | _ \<Rightarrow> None)
        | Volumes_Create _ \<Rightarrow> Some None
        | Volumes_Delete v \<Rightarrow> change v (\<lambda>cv. attached_server cv = [])
        | Volumes_Attach v i \<Rightarrow> change v (\<lambda>cv. attached_server cv = [])
        | Volumes_Detach v i \<Rightarrow> change v (\<lambda>cv. cv_Status cv = volumeInUseStatus \<and> attached_server cv = i)
        | Volumes_Extend v n \<Rightarrow> change v (\<lambda>cv. cv_Status cv = volumeAvailableStatus \<and> cv_Size cv < n)
        | Operation_Metric _ _ \<Rightarrow> Some seen))
   | _ \<Rightarrow> Some seen)"

definition justified :: "('w st, 'a) prog \<Rightarrow> bool" where
  "justified m \<longleftrightarrow> always calls (\<lambda>es. \<not> Option.is_none (follow volume_step None es)) m"

lemma volume_of_simps [simp]:
  "vol_Status (volume_of cv) = cv_Status cv" "vol_Size (volume_of cv) = cv_Size cv" "vol_ID (volume_of cv) = cv_ID cv"
  by (simp_all add: volume_of_def)

lemma AttachDisk_justified: "justified (AttachDisk ec i v)"
  unfolding justified_def always_def AttachDisk_def volume_op_defs Let_def
  by (intro wp) (auto simp: volume_step_def split: outcome.splits)

lemma DetachDisk_justified: "justified (DetachDisk ec i v)"
  unfolding justified_def always_def DetachDisk_def volume_op_defs
  by (intro wp) (auto simp: volume_step_def split: outcome.splits)

lemma DeleteVolume_justified: "justified (DeleteVolume ec v)"
  unfolding justified_def always_def DeleteVolume_def diskIsUsed_def deleteVolume_def volume_op_defs
  by (intro wp) (auto simp: volume_step_def split: outcome.splits)

lemma ExpandVolume_justified: "justified (ExpandVolume Value MustParse ec v old new)"
  unfolding justified_def always_def ExpandVolume_def expandVolume_def volume_op_defs
  by (intro wp) (auto simp: volume_step_def split: outcome.splits)

subsection \<open>Metrics\<close>

fun metric_of :: "api_call \<Rightarrow> (string \<times> bool) list" where
  "metric_of (VO (Operation_Metric op failed)) = [(op, failed)]"
| "metric_of _ = []"

definition metrics :: "api_call list \<Rightarrow> (string \<times> bool) list" where
  "metrics es = concat (map metric_of es)"

lemma metrics_simps [simp]:
  "metrics [] = []" "metrics (c # cs) = metric_of c @ metrics cs" "metrics (xs @ ys) = metrics xs @ metrics ys"
  by (simp_all add: metrics_def)

definition is_err :: "'a outcome \<Rightarrow> bool" where
  "is_err r = (case r of Err _ \<Rightarrow> True | _ \<Rightarrow> False)"

lemma is_err_simps [simp]: "is_err (Err e)" "\<not> is_err (Ok x)" "\<not> is_err (Panic p)"
  by (simp_all add: is_err_def)

lemma service_metrics:
  "emits calls (getVolume s v) (\<lambda>r es. metrics es = [(''get_volume'', is_err r)])"
  "emits calls (deleteVolume s v) (\<lambda>r es. metrics es = [(''delete_volume'', is_err r)])"
  "emits calls (expandVolume s v n st) (\<lambda>r es. metrics es = (if st = volumeAvailableStatus then [(''expand_volume'', is_err r)] else []))"
  unfolding deleteVolume_def expandVolume_def volume_op_defs
  by (intro wp; auto split: outcome.splits)+

lemma disk_metrics:
  "emits calls (AttachDisk ec i v) (\<lambda>r es. \<exists>f. metrics es =
     (''get_volume'', f) # (if VO (Volumes_Attach v i) \<in> set es then [(''attach_disk'', is_err r)] else []))"
  "emits calls (DetachDisk ec i v) (\<lambda>r es. \<exists>f. metrics es =
     (''get_volume'', f) # (if VO (Volumes_Detach v i) \<in> set es then [(''detach_disk'', is_err r)] else []))"
  unfolding AttachDisk_def DetachDisk_def volume_op_defs Let_def
  by (intro wp; auto split: outcome.splits)+

lemma create_metrics:
  "emits calls (createVolume s opts) (\<lambda>r es. metrics es =
     (if \<exists>v cv. VO (Volumes_Get v (Ok cv)) \<in> set es then [(''create_volume'', False)] else []))"
  unfolding createVolume_def volume_op_defs Let_def
  by (intro wp; auto split: outcome.splits)

subsection \<open>Sizes and attached disks\<close>

lemma RoundUpToGiBInt_Ok:
  assumes "0 \<le> sint (Value sz)" "RoundUpToGiBInt Value sz = Ok (n :: 64 word)"
  shows "sint n = ceil_div (sint (Value sz)) (2 ^ 30)"
proof -
  have G: "sint GIB = 2 ^ 30" by (simp add: GIB_def)
  obtain m where m: "RoundUpSize (Value sz) GIB = Ok m" "sint m = ceil_div (sint (Value sz)) (2 ^ 30)"
    using RoundUpSize_nonneg [OF assms(1), of GIB] G by auto
  with RoundUpSizeInt_cases [where 'n = 64, OF _ m(1)] assms(2) sint64 [of m]
  show ?thesis by (auto simp: RoundUpToGiBInt_def split: if_splits)
qed

lemma ExpandVolume_emits:
  assumes "0 \<le> sint (Value new)"
  shows "emits calls (ExpandVolume Value MustParse ec v old new) (\<lambda>r es. \<forall>q. r = Ok q \<longrightarrow>
    (\<exists>cv n. hd es = VO (Volumes_Get v (Ok cv)) \<and> n = ceil_div (sint (Value new)) (2 ^ 30) \<and>
      MustParse (show_int n @ ''Gi'') = Ok q \<and>
      {m. VO (Volumes_Extend v m) \<in> set es} = (if cv_Size cv < n then {n} else {})))"
  unfolding ExpandVolume_def expandVolume_def volume_op_defs
  by (intro wp) (auto split: outcome.splits dest: RoundUpToGiBInt_Ok [where Value = Value and sz = new, OF assms])

lemma DiskIsAttached_emits:
  "emits calls (DiskIsAttached ec i v) (\<lambda>r es. \<exists>g m. es = [VO (Volumes_Get v g), m] \<and> 
     (case r of Ok b \<Rightarrow> (\<exists>cv. g = Ok cv \<and> b = (i = attached_server cv))
      | Err e \<Rightarrow> (\<exists>e'. g = Err e') \<and> \<not> errors_Is e ErrNotFound
      | Panic p \<Rightarrow> True))"
  unfolding DiskIsAttached_def volume_op_defs
  by (intro wp) (auto simp: flatten_def split: outcome.splits)

text \<open>One step of the loop: a read decides, and a read that failed counts as attached.\<close>

definition seems_attached :: "string \<Rightarrow> cloud_volume outcome \<Rightarrow> bool" where
  "seems_attached i g = (case g of Ok cv \<Rightarrow> i = attached_server cv | _ \<Rightarrow> True)"

lemma disk_attached_emits:
  "emits calls (disk_attached ec i v m) (\<lambda>r es. \<exists>g c. es = [VO (Volumes_Get v g), c] \<and>
     (case r of Ok m' \<Rightarrow> m' = m(v \<mapsto> seems_attached i g) | Err _ \<Rightarrow> False | Panic _ \<Rightarrow> True))"
  unfolding disk_attached_def
proof (rule wp_tryM, rule emits_weaken [OF DiskIsAttached_emits], elim exE conjE, goal_cases)
  case (1 r es g c)
  then show ?case by (cases r) (auto simp: seems_attached_def emits_def retM_def)
qed

definition attached_as_read :: "string \<Rightarrow> string list \<Rightarrow> (string \<rightharpoonup> bool) \<Rightarrow> api_call list \<Rightarrow> bool" where
  "attached_as_read i vs m es \<longleftrightarrow> dom m = set vs \<and>
     (\<forall>v \<in> set vs. \<exists>g. VO (Volumes_Get v g) \<in> set es \<and> m v = Some (seems_attached i g))"

lemma DisksAreAttached_emits:
  "emits calls (DisksAreAttached ec i vs) (\<lambda>r es.
     case r of Ok m \<Rightarrow> attached_as_read i vs m es | Err _ \<Rightarrow> False | Panic _ \<Rightarrow> True)"
  unfolding DisksAreAttached_def
proof (rule emits_foldM [where I = "attached_as_read i"])
  show "attached_as_read i [] Map.empty []" by (simp add: attached_as_read_def)
next
  fix "done" v rest m es
  assume "attached_as_read i done m es"
  then show "emits calls (disk_attached ec i v m) (\<lambda>r es'. case r of
      Ok m' \<Rightarrow> attached_as_read i (done @ [v]) m' (es @ es')
    | Err _ \<Rightarrow> (case r of Ok m \<Rightarrow> attached_as_read i vs m (es @ es') | Err _ \<Rightarrow> False | Panic _ \<Rightarrow> True)
    | Panic _ \<Rightarrow> (case r of Ok m \<Rightarrow> attached_as_read i vs m (es @ es') | Err _ \<Rightarrow> False | Panic _ \<Rightarrow> True))"
    by (intro emits_weaken [OF disk_attached_emits])
      (fastforce simp: attached_as_read_def split: outcome.splits if_splits)
qed simp

subsection \<open>Device paths\<close>

lemma newton_is_no_source: "trim_space newtonMetadataVersion \<notin> {ConfigDriveID, MetadataID}"
  "split CHR '','' newtonMetadataVersion = [newtonMetadataVersion]"
  by code_simp+

lemma getDevicePathFromInstanceMetadata_cold:
  "metadataCache s = None \<Longrightarrow> getDevicePathFromInstanceMetadata h v s = (Ok [], s)"
  using newton_is_no_source
  by (simp add: getDevicePathFromInstanceMetadata_def GetMetadata_def try_source_def prog_defs)

text \<open>Where a path can come from.\<close>

definition device_path_of :: "'m host \<Rightarrow> string \<Rightarrow> string \<Rightarrow> bool" where
  "device_path_of h volumeID p \<longleftrightarrow>
     (20 \<le> length volumeID \<and> (\<exists>f \<in> set (candidate_nodes volumeID (take 20 volumeID)). p = path_Join [disk_by_id, f])) \<or>
     (\<exists>device w w'. is_disk volumeID device \<and> h_Glob h (diskPattern device) w = (Ok [p], w'))"

lemma yields_total [yield_intros]: "(\<And>x. Q x) \<Longrightarrow> yields (hcall_total c f) Q"
  by (rule yields_any)

lemma yields_hcall [yield_intros]: "(\<And>w x w'. f w = (Ok x, w') \<Longrightarrow> Q x) \<Longrightarrow> yields (hcall c f) Q"
  by (auto simp: yields_def hcall_def split: prod.splits)

lemma yields_takeM [yield_intros]: "(n \<le> length str \<Longrightarrow> Q (take n str)) \<Longrightarrow> yields (takeM n str) Q"
  by (simp add: takeM_def yields_basic)

lemma yields_case_list [yield_intros]:
  "(l = [] \<Longrightarrow> yields m Q) \<Longrightarrow> (\<And>x xs. l = x # xs \<Longrightarrow> yields (k x xs) Q) \<Longrightarrow>
    yields (case l of [] \<Rightarrow> m | x # xs \<Rightarrow> k x xs) Q"
  by (cases l) simp_all

lemma serial_path: "yields (GetDevicePathBySerialID h v) (\<lambda>p. p = [] \<or> device_path_of h v p)"
  unfolding GetDevicePathBySerialID_def
  by (intro yield_intros) (auto simp: device_path_of_def find_Some_iff)

lemma metadata_path: "yields (getDevicePathFromInstanceMetadata h v) (\<lambda>p. p = [] \<or> device_path_of h v p)"
  unfolding getDevicePathFromInstanceMetadata_def
  by (rule yields_tryM, rule yields_any, rule yields_bindM, rule yields_any, intro yield_intros)
    (auto simp: device_path_of_def find_Some_iff yields_basic)

text \<open>The invariant of the loop: the variable is empty or a device path.\<close>

lemma cond_path:
  assumes "device_path_cond h v (s, p) = (r, (s', p'))" "p = [] \<or> device_path_of h v p"
  shows "p' = [] \<or> device_path_of h v p'"
proof -
  obtain r1 s1 where 1: "GetDevicePathBySerialID h v s = (r1, s1)" by fastforce
  obtain r2 s2 where 2: "getDevicePathFromInstanceMetadata h v s1 = (r2, s2)" by fastforce
  show ?thesis
    using assms 1 2 yieldsD [OF serial_path 1 [THEN trans]] yieldsD [OF metadata_path 2 [THEN trans]]
    by (cases r1; cases r2)
      (auto simp: device_path_cond_def outer_def bindM_def set_var_def retM_def split: if_splits)
qed

lemma GetDevicePath_Ok:
  assumes "polling drive" "GetDevicePath drive h v s = (Ok p, s')"
  shows "p \<noteq> [] \<and> device_path_of h v p"
proof -
  let ?I = "\<lambda>(s, p). p = [] \<or> device_path_of h v p"
  let ?run = "drive device_backoff (device_path_cond h v) (s, [])"
  have "?I (snd ?run)"
  proof (rule polling.drive_inv [OF assms(1)])
    show "?I (snd (device_path_cond h v sp))" if "?I sp" for sp
      using that cond_path [of h v "fst sp" "snd sp"] by (cases sp; cases "device_path_cond h v sp") auto
  qed simp
  with assms(2) show ?thesis
    by (cases ?run) (auto simp: GetDevicePath_def run_var_def bindM_def retM_def failM_def
        split: outcome.splits if_splits)
qed

lemma exact_polling_is_polling: "exact_polling drive \<Longrightarrow> polling drive"
  by (auto simp: polling_def exact_polling_def)

lemma GetDevicePath_short:
  assumes "exact_polling drive" "length v < 20"
  shows "fst (GetDevicePath drive h v s) = Panic ''slice bounds out of range''"
proof -
  have "drive device_backoff (device_path_cond h v) (s, []) =
      poll (Suc 14) wait_timeout (device_path_cond h v) (s, [])"
    using exact_polling.drive_exact [OF assms(1)] by (simp add: device_backoff_def)
  moreover have "device_path_cond h v (s, []) = (Panic ''slice bounds out of range'', (s, []))"
    using assms(2) by (simp add: device_path_cond_def outer_def bindM_def GetDevicePathBySerialID_def takeM_def panicM_def)
  ultimately have "drive device_backoff (device_path_cond h v) (s, []) = (Panic ''slice bounds out of range'', (s, []))"
    unfolding poll.simps by simp
  then show ?thesis by (simp add: GetDevicePath_def run_var_def bindM_def)
qed

section \<open>Properties\<close>


text \<open>C22: Expanding a volume. If the new size is not negative and ExpandVolume succeeds, it read the volume
  first, returned the least number of GiB that holds the new size, and asked for exactly that extension if
  the volume was smaller, and for none otherwise.\<close>

theorem volume_expanded:
  assumes "0 \<le> sint (Value new)"
  shows "emits calls (ExpandVolume Value MustParse ec v old new) (\<lambda>r es. \<forall>q. r = Ok q \<longrightarrow>
    (\<exists>cv n. hd es = VO (Volumes_Get v (Ok cv)) \<and> n = ceil_div (sint (Value new)) (2 ^ 30) \<and>
      MustParse (show_int n @ ''Gi'') = Ok q \<and>
      {m. VO (Volumes_Extend v m) \<in> set es} = (if cv_Size cv < n then {n} else {})))"
  using assms by (rule ExpandVolume_emits)

text \<open>A cloud with one available volume of 1 GiB, and a quantity that is its number of bytes.\<close>

definition example_volume :: cloud_volume where
  "example_volume = \<lparr>cv_ID = ''v'', cv_Name = ''data'', cv_Status = ''available'', cv_AvailabilityZone = ''az'',
     cv_Size = 1, cv_Attachments = []\<rparr>"

definition volume_client :: "unit client" where
  "volume_client = idle_client\<lparr>
     Volumes := (Volumes idle_client)\<lparr>api_vol_get := (\<lambda>_. answer (Ok example_volume)),
       api_vol_extend := (\<lambda>_ _. answer (Ok [''t'']))\<rparr>,
     Pools := (Pools idle_client)\<lparr>api_task_wait := (\<lambda>_. answer (Ok ()))\<rparr>\<rparr>"

definition volume_provider :: "(unit, string) edgecenter" where
  "volume_provider = example_provider\<lparr>ec_conn := (ec_conn example_provider)\<lparr>conn_client := volume_client\<rparr>\<rparr>"

definition parse_gib :: "string \<Rightarrow> 64 word outcome" where
  "parse_gib q = (if q = ''2Gi'' then Ok (2 * GIB) else Panic ''cannot parse'')"

lemma volume_fields:
  "api_vol_get (Volumes volume_client) i w = (Ok example_volume, w)"
  "api_vol_extend (Volumes volume_client) i n w = (Ok [''t''], w)"
  "api_task_wait (Pools volume_client) t w = (Ok (), w)"
  "conn_client (ec_conn volume_provider) = volume_client"
  by (simp_all add: volume_client_def volume_provider_def answer_def)

lemmas run_volume = volume_fields fun_cong [OF ExpandVolume_def] fun_cong [OF expandVolume_def] fun_cong [OF ec_getVolume_def]
  fun_cong [OF volumeService_def] fun_cong [OF getVolume_def] fun_cong [OF vol_get_def] fun_cong [OF metered_def]
  record_metric_def call_def

lemma expand_values:
  "RoundUpToGiBInt (\<lambda>q. q) 1572864000 = Ok (2 :: 64 word)" "show_int 2 = ''2''" "parse_gib ''2Gi'' = Ok (2 * GIB)"
proof -
  have "RoundUpToGiBInt (\<lambda>q. q) (1500 * 1024 * 1024) = Ok (2 :: 64 word)" by code_simp
  then show "RoundUpToGiBInt (\<lambda>q. q) 1572864000 = Ok (2 :: 64 word)" by simp
  show "show_int 2 = ''2''" by code_simp
qed (simp add: parse_gib_def)

lemma expand_example:
  "ExpandVolume (\<lambda>q. q) parse_gib volume_provider ''v'' 0 (1500 * 1024 * 1024) (start ()) =
    (Ok (2 * GIB), \<lparr>world = (), calls = [VO (Volumes_Get ''v'' (Ok example_volume)), VO (Operation_Metric ''get_volume'' False),
      VO (Volumes_Extend ''v'' 2), PL (Task_Wait ''t''), VO (Operation_Metric ''expand_volume'' False)]\<rparr>)"
  by (simp add: run run_volume start_def volume_of_def example_volume_def expand_values)

theorem volume_expanded_witness:
  "\<exists>s'. ExpandVolume (\<lambda>q. q) parse_gib volume_provider ''v'' 0 (1500 * 1024 * 1024) (start ()) = (Ok (2 * GIB), s') \<and>
     {m. VO (Volumes_Extend ''v'' m) \<in> set (calls s')} = {ceil_div (1500 * 1024 * 1024) (2 ^ 30)}"
proof -
  have size: "0 \<le> sint (1500 * 1024 * 1024 :: 64 word)" by simp
  obtain es where es: "es = [VO (Volumes_Get ''v'' (Ok example_volume)), VO (Operation_Metric ''get_volume'' False),
      VO (Volumes_Extend ''v'' 2), PL (Task_Wait ''t''), VO (Operation_Metric ''expand_volume'' False)]"
    and post: "\<forall>q. Ok (2 * GIB) = Ok q \<longrightarrow>
      (\<exists>cv n. hd es = VO (Volumes_Get ''v'' (Ok cv)) \<and> n = ceil_div (sint (1500 * 1024 * 1024 :: 64 word)) (2 ^ 30) \<and>
      parse_gib (show_int n @ ''Gi'') = Ok q \<and>
      {m. VO (Volumes_Extend ''v'' m) \<in> set es} = (if cv_Size cv < n then {n} else {}))"
    by (rule emitsE [OF volume_expanded [where Value = "\<lambda>q. q", OF size] expand_example]) (rule that, simp add: start_def, assumption)
  have "ceil_div (sint (1500 * 1024 * 1024 :: 64 word)) (2 ^ 30) = 2" by (simp add: ceil_div_def)
  with post [rule_format, OF refl] es have "{m. VO (Volumes_Extend ''v'' m) \<in> set es} = {2}"
    by (auto simp: example_volume_def)
  with es show ?thesis unfolding expand_example by (simp add: ceil_div_def)
qed

text \<open>The metrics of the operations. Reading, deleting and extending a volume record one metric each,
  attaching and detaching record one when the request is made, all after the metric of the read, and the
  metric counts as failed exactly when the operation returns an error. Creating a volume records a metric
  only when both requests were answered: a failed creation is never counted.\<close>

theorem volume_metrics:
  "emits calls (getVolume s v) (\<lambda>r es. metrics es = [(''get_volume'', is_err r)]) \<and>
   emits calls (deleteVolume s v) (\<lambda>r es. metrics es = [(''delete_volume'', is_err r)]) \<and>
   emits calls (expandVolume s v n volumeAvailableStatus) (\<lambda>r es. metrics es = [(''expand_volume'', is_err r)]) \<and>
   emits calls (AttachDisk ec i v) (\<lambda>r es. \<exists>f. metrics es =
     (''get_volume'', f) # (if VO (Volumes_Attach v i) \<in> set es then [(''attach_disk'', is_err r)] else [])) \<and>
   emits calls (DetachDisk ec i v) (\<lambda>r es. \<exists>f. metrics es =
     (''get_volume'', f) # (if VO (Volumes_Detach v i) \<in> set es then [(''detach_disk'', is_err r)] else [])) \<and>
   emits calls (createVolume s opts) (\<lambda>r es. metrics es =
     (if \<exists>v cv. VO (Volumes_Get v (Ok cv)) \<in> set es then [(''create_volume'', False)] else []))"
  by (intro conjI service_metrics(1,2) disk_metrics create_metrics
      service_metrics(3) [where st = volumeAvailableStatus, simplified])

text \<open>The answer about attached disks. DisksAreAttached never fails; it answers for exactly the disks it
  was asked about, and for each one the last read decides: attached to the instance if the API said so,
  and attached whenever the read failed, also for a volume that does not exist.\<close>

theorem disks_are_attached:
  "emits calls (DisksAreAttached ec i vs) (\<lambda>r es.
     case r of Ok m \<Rightarrow> attached_as_read i vs m es | Err _ \<Rightarrow> False | Panic _ \<Rightarrow> True)"
  by (rule DisksAreAttached_emits)



end
