(* ===== verification/Mounts.thy ===== *)
theory Mounts
  imports Volumes
begin

text \<open>
  Host utilities: \<^verbatim>\<open>internal/util/util.go\<close>, \<^verbatim>\<open>internal/util/mount/mount.go\<close> and
  \<^verbatim>\<open>internal/util/blockdevice/blockdevice_linux.go\<close>. Everything they ask the operating system is a call of
  the \<open>host\<close>; the loop of \<^verbatim>\<open>ScanForAttach\<close> runs over the sequence of timer events it is woken by. The
  lemmas: the loop ends, a rescan that succeeds saw the new size, and what the list comparison decides.
\<close>

section \<open>Lists and patches\<close>

definition StringListEqual :: "string list \<Rightarrow> string list \<Rightarrow> bool" where
  "StringListEqual list1 list2 =
     (if length list1 = 0 \<and> length list2 = 0 then True
      else if length list1 \<noteq> length list2 then False
      else (let s1 = fold insert list1 {}; s2 = fold insert list2 {} in s1 = s2))"

fun Contains :: "string list \<Rightarrow> string \<Rightarrow> bool" where
  "Contains [] strToSearch = False"
| "Contains (item # items) strToSearch = (if item = strToSearch then True else Contains items strToSearch)"

text \<open>The JSON encoder, the merge and the client are libraries; \<open>Patch\<close> is the request for a namespace and a name.\<close>

definition PatchService ::
    "(service \<Rightarrow> string outcome) \<Rightarrow> (string \<Rightarrow> string \<Rightarrow> string outcome) \<Rightarrow>
      (string \<Rightarrow> string \<Rightarrow> string \<Rightarrow> ('s, unit) prog) \<Rightarrow> service \<Rightarrow> service \<Rightarrow> ('s, unit) prog" where
  "PatchService Marshal CreateTwoWayMergePatch Patch cur new =
     bindM (wrapM (flatten ''failed to serialize current service object: '') (liftM (Marshal cur))) (\<lambda>curJSON.
     bindM (wrapM (flatten ''failed to serialize modified service object: '') (liftM (Marshal new))) (\<lambda>modJSON.
     bindM (wrapM (flatten ''failed to create 2-way merge patch: '') (liftM (CreateTwoWayMergePatch curJSON modJSON))) (\<lambda>patch.
       if length patch = 0 \<or> patch = ''{}'' then retM ()
       else wrapM (flatten (''failed to patch service object '' @ svc_Namespace cur @ ''/'' @ svc_Name cur @ '': ''))
         (Patch (svc_Namespace cur) (svc_Name cur) patch))))"

section \<open>Block devices\<close>

abbreviation S_IFMT :: "32 word" where "S_IFMT \<equiv> 0xF000"
abbreviation S_IFBLK :: "32 word" where "S_IFBLK \<equiv> 0x6000"

definition IsBlockDevice :: "'m host \<Rightarrow> string \<Rightarrow> ('m machine, bool) prog" where
  "IsBlockDevice h file =
     bindM (wrapM (flatten (''failed to stat() '' @ quoted file @ '': '')) (hcall (\<lambda>_. UnixStat file) (h_unix_Stat h file)))
       (\<lambda>Mode. retM (and Mode S_IFMT = S_IFBLK))"

definition GetBlockDeviceSize :: "'m host \<Rightarrow> string \<Rightarrow> ('m machine, 64 word) prog" where
  "GetBlockDeviceSize h file =
     bindM (hcall (\<lambda>_. OpenFile file) (h_Open h file)) (\<lambda>_.
       wrapM (flatten (''error seeking to end of '' @ file @ '': '')) (hcall (SeekEnd file) (h_SeekEnd h file)))"

definition checkBlockDeviceSize :: "'m host \<Rightarrow> string \<Rightarrow> 64 word \<Rightarrow> ('m machine, unit) prog" where
  "checkBlockDeviceSize h devicePath newSize =
     bindM (GetBlockDeviceSize h devicePath) (\<lambda>sz.
       if sint sz < sint newSize
       then failM (Errorf (''current volume size is less than expected one: '' @ show_int (sint sz) @ '' < '' @ show_int (sint newSize)))
       else retM ())"

definition findBlockDeviceRescanPath :: "'m host \<Rightarrow> string \<Rightarrow> ('m machine, string) prog" where
  "findBlockDeviceRescanPath h file =
     bindM (hcall (\<lambda>_. EvalSymlinks file) (h_EvalSymlinks h file)) (\<lambda>devicePath.
       let parts = split CHR ''/'' devicePath in
       if length parts = 3 \<and> has_prefix (parts ! 1) ''dev'' then
         (let link = path_Join [''/sys/block'', parts ! 2, ''device'', ''rescan''] in
          hcall (\<lambda>_. EvalSymlinks link) (h_EvalSymlinks h link))
       else failM (Errorf (''illegal path for device '' @ devicePath)))"

definition RescanBlockDeviceGeometry :: "'m host \<Rightarrow> string \<Rightarrow> 64 word \<Rightarrow> ('m machine, unit) prog" where
  "RescanBlockDeviceGeometry h devicePath newSize =
     (if newSize = 0 then retM ()
      else
        tryM (checkBlockDeviceSize h devicePath newSize) (\<lambda>bdSizeErr.
          tryM (findBlockDeviceRescanPath h devicePath) (\<lambda>_. failM bdSizeErr) (\<lambda>blockDeviceRescanPath.
          tryM (hcall (\<lambda>_. WriteFile blockDeviceRescanPath ''1'') (h_WriteFile h blockDeviceRescanPath ''1''))
            (\<lambda>_. failM bdSizeErr)
            (\<lambda>_. checkBlockDeviceSize h devicePath newSize)))
        retM)"

text \<open>On systems other than Linux (\<^verbatim>\<open>blockdevice_unsupported.go\<close>).\<close>

definition IsBlockDevice_unsupported :: "string \<Rightarrow> bool outcome" where
  "IsBlockDevice_unsupported path = Err (Errorf ''IsBlockDevice is not implemented for this OS'')"

definition GetBlockDeviceSize_unsupported :: "string \<Rightarrow> 64 word outcome" where
  "GetBlockDeviceSize_unsupported path = Err (Errorf ''GetBlockDeviceSize is not implemented for this OS'')"

definition RescanBlockDeviceGeometry_unsupported :: "string \<Rightarrow> string \<Rightarrow> 64 word \<Rightarrow> unit outcome" where
  "RescanBlockDeviceGeometry_unsupported devicePath deviceMountPath newSize =
     Err (Errorf ''RescanBlockDeviceGeometry is not implemented for this OS'')"

section \<open>Mounts\<close>

abbreviation scsiPath :: string where "scsiPath \<equiv> ''/sys/class/scsi_host/''"

definition scan_host :: "'m host \<Rightarrow> string \<Rightarrow> ('m machine, unit) prog" where
  "scan_host h f = (let file = scsiPath @ f @ ''/scan'' in
     wrapM (Wrapf (''Unable to scan '' @ f @ '': '')) (hcall (\<lambda>_. WriteFile file ''- - -'') (h_WriteFile h file ''- - -'')))"

definition probeVolume :: "'m host \<Rightarrow> ('m machine, unit) prog" where
  "probeVolume h =
     bindM (hcall_total (ReadDir scsiPath) (h_ReadDir h scsiPath)) (\<lambda>(dirs, err).
     bindM (if err = None then foldM (\<lambda>f _. scan_host h f) dirs () else retM ()) (\<lambda>_.
     bindM (hcall (\<lambda>_. Udevadm) (h_udevadm h)) (\<lambda>_. retM ())))"

definition mount_getDevicePathBySerialID :: "'m host \<Rightarrow> string \<Rightarrow> ('m machine, string) prog" where
  "mount_getDevicePathBySerialID h volumeID =
     bindM (takeM 20 volumeID) (\<lambda>serial.
     bindM (hcall_total (ReadDir disk_by_id) (h_ReadDir h disk_by_id)) (\<lambda>(files, _).
       case find (\<lambda>f. f \<in> set (candidate_nodes volumeID serial)) files of
         Some f \<Rightarrow> retM (path_Join [disk_by_id, f])
       | None \<Rightarrow> retM []))"

definition mount_path_cond :: "'m host \<Rightarrow> string \<Rightarrow> ('m machine \<times> string, bool) prog" where
  "mount_path_cond h volumeID =
     bindM (outer (mount_getDevicePathBySerialID h volumeID)) (\<lambda>devicePath.
     bindM (set_var devicePath) (\<lambda>_.
       if devicePath \<noteq> [] then retM True
       else bindM (outer (ignoreM (probeVolume h))) (\<lambda>_. retM False)))"

definition mount_GetDevicePath ::
    "(backoff \<Rightarrow> ('m machine \<times> string, bool) prog \<Rightarrow> ('m machine \<times> string, unit) prog) \<Rightarrow>
      'm host \<Rightarrow> string \<Rightarrow> ('m machine, string) prog" where
  "mount_GetDevicePath drive h volumeID =
     bindM (run_var [] (drive device_backoff (mount_path_cond h volumeID))) (\<lambda>(err, devicePath).
       if is_wait_timeout err then
         failM (Errorf (''Failed to find device for the volumeID: '' @ quoted volumeID @ '' within the alloted time''))
       else if devicePath = [] then failM (Errorf (''Device path was empty for volumeID: '' @ quoted volumeID))
       else retM devicePath)"

text \<open>
  The events that wake the loop: the ticker, every second, and the timer, once, after a minute. \<open>None\<close> is
  a loop that is still waiting when the events given are used up.
\<close>

datatype event = Tick | Timer

fun ScanForAttach :: "'m host \<Rightarrow> string \<Rightarrow> event list \<Rightarrow> ('m machine, unit option) prog" where
  "ScanForAttach h devicePath [] = retM None"
| "ScanForAttach h devicePath (Tick # events) =
     bindM (ignoreM (probeVolume h)) (\<lambda>_.
     tryM (hcall (PathExists devicePath) (h_PathExists h devicePath))
       (\<lambda>_. ScanForAttach h devicePath events)
       (\<lambda>exists. if exists then retM (Some ()) else ScanForAttach h devicePath events))"
| "ScanForAttach h devicePath (Timer # events) =
     failM (Errorf (''could not find attached Cinder disk '' @ devicePath @ ''. Timeout waiting for mount paths to be created''))"

definition IsLikelyNotMountPointAttach :: "'m host \<Rightarrow> string \<Rightarrow> ('m machine, bool \<times> error option) prog" where
  "IsLikelyNotMountPointAttach h targetpath =
     bindM (hcall_total (LikelyNotMountPoint targetpath) (h_IsLikelyNotMountPoint h targetpath)) (\<lambda>(notMnt, err).
       case err of
         Some e \<Rightarrow>
           if os_IsNotExist e then
             tryM (hcall (\<lambda>_. MkdirAll targetpath) (h_MkdirAll h targetpath))
               (\<lambda>e. retM (notMnt, Some e)) (\<lambda>_. retM (True, None))
           else retM (notMnt, err)
       | None \<Rightarrow> retM (notMnt, err))"

definition GetMountFs :: "'m host \<Rightarrow> string \<Rightarrow> ('m machine, string) prog" where
  "GetMountFs h volumePath = hcall (\<lambda>_. Findmnt volumePath) (h_findmnt h volumePath)"

definition UnmountPath :: "'m host \<Rightarrow> string \<Rightarrow> ('m machine, unit) prog" where
  "UnmountPath h mountPath = hcall (\<lambda>_. CleanupMountPoint mountPath) (h_CleanupMountPoint h mountPath)"

definition MakeDir :: "'m host \<Rightarrow> string \<Rightarrow> ('m machine, unit) prog" where
  "MakeDir h pathname =
     tryM (hcall (\<lambda>_. MkdirAll pathname) (h_MkdirAll h pathname))
       (\<lambda>err. if \<not> os_IsExist err then failM err else retM ()) retM"

definition MakeFile :: "'m host \<Rightarrow> string \<Rightarrow> ('m machine, unit) prog" where
  "MakeFile h pathname =
     tryM (hcall (\<lambda>_. CreateFile pathname) (h_CreateFile h pathname))
       (\<lambda>err. if \<not> os_IsExist err then failM err else retM ()) retM"

record device_stats =
  ds_Block :: bool
  ds_AvailableBytes :: "64 word"
  ds_TotalBytes :: "64 word"
  ds_UsedBytes :: "64 word"
  ds_AvailableInodes :: "64 word"
  ds_TotalInodes :: "64 word"
  ds_UsedInodes :: "64 word"

definition GetDeviceStats :: "'m host \<Rightarrow> string \<Rightarrow> ('m machine, device_stats) prog" where
  "GetDeviceStats h file =
     bindM (IsBlockDevice h file) (\<lambda>isBlock.
       if isBlock then
         bindM (GetBlockDeviceSize h file) (\<lambda>sz.
           retM \<lparr>ds_Block = True, ds_AvailableBytes = 0, ds_TotalBytes = sz, ds_UsedBytes = 0,
             ds_AvailableInodes = 0, ds_TotalInodes = 0, ds_UsedInodes = 0\<rparr>)
       else
         bindM (hcall (\<lambda>_. Statfs file) (h_Statfs h file)) (\<lambda>fs.
           retM \<lparr>ds_Block = False, ds_AvailableBytes = sf_Bavail fs * sf_Bsize fs,
             ds_TotalBytes = sf_Blocks fs * sf_Bsize fs,
             ds_UsedBytes = (sf_Blocks fs - sf_Bfree fs) * sf_Bsize fs,
             ds_AvailableInodes = sf_Ffree fs, ds_TotalInodes = sf_Files fs,
             ds_UsedInodes = sf_Files fs - sf_Ffree fs\<rparr>))"

section \<open>Lemmas\<close>

text \<open>The comparison ignores how often an element occurs, as long as the lengths agree.\<close>

lemma StringListEqual_iff: "StringListEqual list1 list2 \<longleftrightarrow> length list1 = length list2 \<and> set list1 = set list2"
  by (auto simp: StringListEqual_def Let_def union_set_fold [symmetric])

lemma StringListEqual_not_multiset: "StringListEqual [''a'', ''a'', ''b''] [''a'', ''b'', ''b'']"
  unfolding StringListEqual_iff by auto

lemma Contains_iff: "Contains list x \<longleftrightarrow> x \<in> set list"
  by (induction list) auto

text \<open>An empty patch is not sent.\<close>

lemma liftM_Ok: "liftM (Ok x) = retM x"
  by (rule ext) (simp add: liftM_def retM_def)

lemma PatchService_empty:
  "\<lbrakk>Marshal cur = Ok a; Marshal new = Ok b; merge a b = Ok ''{}''\<rbrakk> \<Longrightarrow> PatchService Marshal merge Patch cur new = retM ()"
  by (simp add: PatchService_def liftM_Ok)

subsection \<open>The attach loop\<close>

text \<open>The answers to the existence checks.\<close>

fun answer_of :: "host_call \<Rightarrow> bool outcome list" where
  "answer_of (PathExists _ r) = [r]"
| "answer_of _ = []"

definition answers :: "host_call list \<Rightarrow> bool outcome list" where
  "answers es = concat (map answer_of es)"

lemma answers_simps [simp]:
  "answers [] = []" "answers (c # cs) = answer_of c @ answers cs" "answers (xs @ ys) = answers xs @ answers ys"
  by (simp_all add: answers_def)

interpretation no_answers: trace_property "\<lambda>es. answers es = []"
  by unfold_locales simp_all

lemma probeVolume_answers: "always machine_calls (\<lambda>es. answers es = []) (probeVolume h)"
  unfolding probeVolume_def scan_host_def Let_def by (intro emits_intros) simp_all

definition scanned :: "nat \<Rightarrow> unit option outcome \<Rightarrow> bool outcome list \<Rightarrow> bool" where
  "scanned n r as \<longleftrightarrow> (case r of
     Ok x \<Rightarrow> x = Some () \<and> (\<exists>bad. as = bad @ [Ok True] \<and> length bad < n \<and> Ok True \<notin> set bad)
   | Err _ \<Rightarrow> length as = n \<and> Ok True \<notin> set as
   | Panic _ \<Rightarrow> True)"

lemma scanned_Suc: "a \<noteq> Ok True \<Longrightarrow> scanned n r as \<Longrightarrow> scanned (Suc n) r (a # as)"
  by (auto simp: scanned_def split: outcome.splits)

lemma ScanForAttach_emits:
  "emits machine_calls (ScanForAttach h p (replicate n Tick @ Timer # events)) (\<lambda>r es. scanned n r (answers es))"
proof (induction n)
  case 0
  show ?case by (auto simp: scanned_def intro!: wp)
next
  case (Suc n)
  have rest: "emits machine_calls (ScanForAttach h p (replicate n Tick @ Timer # events))
      (\<lambda>r es'. scanned (Suc n) r (answers (es @ [PathExists p a] @ es')))"
    if "answers es = []" "a \<noteq> Ok True" for es a
    using that by (intro emits_weaken [OF Suc]) (simp add: scanned_Suc)
  have probe: "emits machine_calls (ignoreM (probeVolume h)) (\<lambda>r es. answers es = [] \<and> (\<forall>e. r \<noteq> Err e))"
    unfolding ignoreM_def
    by (rule wp_tryM, rule emits_weaken [OF probeVolume_answers [unfolded always_def]])
      (auto simp: emits_def retM_def split: outcome.splits)
  show ?case
    unfolding replicate_Suc append_Cons ScanForAttach.simps
  proof (rule wp_bindM, rule emits_weaken [OF probe], goal_cases)
    case (1 r es)
    then have es: "answers es = []" by simp
    have "emits machine_calls (tryM (hcall (PathExists p) (h_PathExists h p))
        (\<lambda>_. ScanForAttach h p (replicate n Tick @ Timer # events))
        (\<lambda>exists. if exists then retM (Some ()) else ScanForAttach h p (replicate n Tick @ Timer # events)))
        (\<lambda>r' es'. scanned (Suc n) r' (answers (es @ es')))"
    proof (rule wp_tryM, rule emits_hcall, goal_cases)
      case (1 a)
      have found: "emits machine_calls (retM (Some ())) (\<lambda>r' es'. scanned (Suc n) r' (answers (es @ [PathExists p (Ok True)] @ es')))"
        using es by (intro wp) (simp add: scanned_def)
      show ?case
      proof (cases "a = Ok True")
        case True
        with found show ?thesis by simp
      next
        case False
        with rest [OF es False] show ?thesis by (cases a) (simp_all add: scanned_def [of _ "Panic _"])
      qed
    qed
    then show ?case using 1 by (cases r) (simp_all add: scanned_def [of _ "Panic _"])
  qed
qed

subsection \<open>Rescanning\<close>

fun is_write :: "host_call \<Rightarrow> bool" where
  "is_write (WriteFile _ _) = True"
| "is_write _ = False"

lemma check_size_emits:
  "emits machine_calls (checkBlockDeviceSize h p n) (\<lambda>r es. filter is_write es = [] \<and>
     (r = Ok () \<longrightarrow> (\<exists>sz pre. es = pre @ [SeekEnd p (Ok sz)] \<and> sint n \<le> sint sz)))"
  unfolding checkBlockDeviceSize_def GetBlockDeviceSize_def
  by (intro wp) (auto split: outcome.splits)

lemma Rescan_emits:
  "emits machine_calls (RescanBlockDeviceGeometry h p n) (\<lambda>r es. length (filter is_write es) \<le> 1 \<and>
     (r = Ok () \<longrightarrow> (n = 0 \<and> es = []) \<or> (\<exists>sz pre. es = pre @ [SeekEnd p (Ok sz)] \<and> sint n \<le> sint sz)))"
  unfolding RescanBlockDeviceGeometry_def findBlockDeviceRescanPath_def Let_def
  by (intro wp emits_weaken [OF check_size_emits]) (auto split: outcome.splits intro!: wp)

section \<open>Properties\<close>

text \<open>C25: ScanForAttach ends. Whatever the host answers, after any number n of ticks and the timer the loop
  has returned: with success at the first check that finds the path, or with the timeout error after
  exactly n checks that did not find it; a failed probe or check does not end it.\<close>

theorem scan_for_attach:
  "emits machine_calls (ScanForAttach h p (replicate n Tick @ Timer # events)) (\<lambda>r es. scanned n r (answers es))"
  by (rule ScanForAttach_emits)

text \<open>A rescan that reports success saw the new size. RescanBlockDeviceGeometry writes at most once, and
  when it succeeds for a size other than 0, the last thing it did was to read a size of the device that is
  not smaller.\<close>

lemma rescan_sees_size:
  "emits machine_calls (RescanBlockDeviceGeometry h p n) (\<lambda>r es. length (filter is_write es) \<le> 1 \<and>
     (r = Ok () \<longrightarrow> (n = 0 \<and> es = []) \<or> (\<exists>sz pre. es = pre @ [SeekEnd p (Ok sz)] \<and> sint n \<le> sint sz)))"
  by (rule Rescan_emits)

text \<open>A device that grows to eight bytes when it is rescanned.\<close>

definition growing_host :: "bool host" where
  "growing_host = idle_host\<lparr>h_Open := (\<lambda>_. answer (Ok [])),
     h_SeekEnd := (\<lambda>_ grown. (Ok (if grown then 8 else 4), grown)),
     h_EvalSymlinks := (\<lambda>f. answer (Ok (if f = ''disk'' then ''/dev/sda'' else f))),
     h_WriteFile := (\<lambda>_ _ _. (Ok (), True))\<rparr>"

lemma rescan_example: "\<exists>s'. RescanBlockDeviceGeometry growing_host ''disk'' 8 (boot False) = (Ok (), s')"
proof -
  have "split CHR ''/'' ''/dev/sda'' = [[], ''dev'', ''sda'']" "has_prefix ''dev'' ''dev''" by code_simp+
  then show ?thesis
    by (simp add: run fun_cong [OF RescanBlockDeviceGeometry_def] fun_cong [OF checkBlockDeviceSize_def]
        fun_cong [OF GetBlockDeviceSize_def] fun_cong [OF findBlockDeviceRescanPath_def] hcall_def growing_host_def
        answer_def boot_def Let_def)
qed

lemma rescan_sees_size_witness:
  "\<exists>s' sz pre. RescanBlockDeviceGeometry growing_host ''disk'' 8 (boot False) = (Ok (), s') \<and>
     machine_calls s' = pre @ [SeekEnd ''disk'' (Ok sz)] \<and> 8 \<le> sint sz"
proof -
  obtain s' where run: "RescanBlockDeviceGeometry growing_host ''disk'' 8 (boot False) = (Ok (), s')"
    using rescan_example by blast
  obtain es where "machine_calls s' = machine_calls (boot False) @ es" "length (filter is_write es) \<le> 1 \<and>
     (Ok () = Ok () \<longrightarrow> ((8 :: 64 word) = 0 \<and> es = []) \<or> (\<exists>sz pre. es = pre @ [SeekEnd ''disk'' (Ok sz)] \<and> sint (8 :: 64 word) \<le> sint sz))"
    by (rule emitsE [OF rescan_sees_size run])
  with run show ?thesis by (auto simp: boot_def)
qed

end
