(* ===== verification/Telemetry.thy ===== *)
theory Telemetry
  imports Host
begin

text \<open>
  The instrumented HTTP transport: \<^verbatim>\<open>internal/edgecenter/http_instrumentation.go\<close>. Its metrics have the path of
  the request as a label, in which identifiers are replaced. The three regular expressions are matched as
  \<^verbatim>\<open>regexp\<close> does: leftmost, greedy, not overlapping, with ASCII word boundaries. The lemmas: what a
  replacement does to the words of a text, and the labels and metrics that result.
\<close>

section \<open>Regular expressions\<close>

definition is_word :: "char \<Rightarrow> bool" where
  "is_word c = (let n = of_char c :: nat in
     48 \<le> n \<and> n \<le> 57 \<or> 65 \<le> n \<and> n \<le> 90 \<or> 97 \<le> n \<and> n \<le> 122 \<or> n = 95)"

text \<open>A boundary: exactly one of the character before and the next one is a word character.\<close>

definition next_word :: "string \<Rightarrow> bool" where
  "next_word s = (case s of [] \<Rightarrow> False | c # _ \<Rightarrow> is_word c)"

definition boundary :: "bool \<Rightarrow> string \<Rightarrow> bool" where
  "boundary w s \<longleftrightarrow> w \<noteq> next_word s"

text \<open>
  \<open>match_token P n\<close> is a boundary, at least \<open>n\<close> characters of the class \<open>P\<close>, and a boundary; the class has
  only word characters, so inside a run of them there is no boundary and only the whole run can match.
  The matchers get whether the character before is a word character, and return the length of the match.
\<close>

definition match_token :: "(char \<Rightarrow> bool) \<Rightarrow> nat \<Rightarrow> bool \<Rightarrow> string \<Rightarrow> nat option" where
  "match_token P n w s =
     (let k = length (takeWhile P s) in
      if boundary w s \<and> n \<le> k \<and> boundary True (drop k s) then Some k else None)"

definition reHex :: "bool \<Rightarrow> string \<Rightarrow> nat option" where
  "reHex = match_token is_hex 16"

definition reNumber :: "bool \<Rightarrow> string \<Rightarrow> nat option" where
  "reNumber = match_token is_digit 1"

definition uuid_shape :: "bool list" where
  "uuid_shape = concat (map (\<lambda>n. replicate n True @ [False]) [8, 4, 4, 4]) @ replicate 12 True"

definition reUUID :: "bool \<Rightarrow> string \<Rightarrow> nat option" where
  "reUUID w s =
     (let n = length uuid_shape in
      if boundary w s \<and> list_all2 (\<lambda>hex c. if hex then is_hex c else c = CHR ''-'') uuid_shape (take n s) \<and>
        boundary True (drop n s) then Some n else None)"

text \<open>
  \<^verbatim>\<open>re.ReplaceAllString(s, ":id")\<close>. No match is empty, and each one ends in a word character.
\<close>

function replace_ids :: "(bool \<Rightarrow> string \<Rightarrow> nat option) \<Rightarrow> bool \<Rightarrow> string \<Rightarrow> string" where
  "replace_ids m w [] = []"
| "replace_ids m w (c # cs) = (case m w (c # cs) of
     Some n \<Rightarrow> '':id'' @ replace_ids m True (drop (n - 1) cs)
   | None \<Rightarrow> c # replace_ids m (is_word c) cs)"
  by pat_completeness auto

termination by (relation "measure (\<lambda>(m, w, s). length s)") auto

section \<open>Labels\<close>

text \<open>The loop of \<^verbatim>\<open>limitPathDepth\<close>: \<open>out\<close> are the parts kept so far.\<close>

fun keep_parts :: "int \<Rightarrow> string list \<Rightarrow> string list \<Rightarrow> string list" where
  "keep_parts maxSegments out [] = out"
| "keep_parts maxSegments out (part # parts) =
     (if part = [] then keep_parts maxSegments out parts
      else if int (length (out @ [part])) \<ge> maxSegments then out @ [part]
      else keep_parts maxSegments (out @ [part]) parts)"

definition limitPathDepth :: "string \<Rightarrow> int \<Rightarrow> string" where
  "limitPathDepth path maxSegments =
     (if maxSegments \<le> 0 then ''/''
      else
        (let out = keep_parts maxSegments [] (split CHR ''/'' path) in
         if out = [] then ''/'' else ''/'' @ join ''/'' out))"

definition sanitizePath :: "string \<Rightarrow> string" where
  "sanitizePath path =
     (let p = replace_ids reUUID False path;
          p = replace_ids reHex False p;
          p = replace_ids reNumber False p in
      limitPathDepth p 6)"

section \<open>The transport\<close>

text \<open>
  \<open>as_NetError\<close> is \<^verbatim>\<open>errors.As\<close> with a \<^verbatim>\<open>net.Error\<close>, answering \<^verbatim>\<open>Timeout()\<close> of the error found, and
  \<open>as_DNSError\<close> is \<^verbatim>\<open>errors.As\<close> with a \<^verbatim>\<open>*net.DNSError\<close>; both are questions to the library's types.
\<close>

record error_types =
  as_NetError :: "error \<Rightarrow> bool option"
  as_DNSError :: "error \<Rightarrow> bool"

definition classifyTransportError :: "error_types \<Rightarrow> error \<Rightarrow> string" where
  "classifyTransportError T err =
     (if errors_Is_lib err DeadlineExceeded then ''deadline_exceeded''
      else (case as_NetError T err of
        Some timeout \<Rightarrow> if timeout then ''timeout'' else ''network_error''
      | None \<Rightarrow> if as_DNSError T err then ''dns_error'' else ''unknown''))"

record http_request =
  rq_Method :: string
  rq_Path :: string
  rq_Body :: string

datatype http_metric =
    apiRequestErrorsTotal string string string
  | apiRequestsTotal string string string
  | apiRequestDuration string string string

record 't http_state =
  http_transport :: 't
  http_metrics :: "http_metric list"

definition RoundTrip ::
    "error_types \<Rightarrow> (http_request \<Rightarrow> ('t, http_response) ext) \<Rightarrow> http_request \<Rightarrow> ('t http_state, http_response) prog" where
  "RoundTrip T next_RoundTrip req s =
     (let meth = rq_Method req; path = sanitizePath (rq_Path req) in
      case next_RoundTrip req (http_transport s) of
        (Err err, t) \<Rightarrow> (Err err, s\<lparr>http_transport := t, http_metrics := http_metrics s @
          [apiRequestErrorsTotal meth path (classifyTransportError T err),
           apiRequestsTotal meth path ''error'', apiRequestDuration meth path ''error'']\<rparr>)
      | (Ok resp, t) \<Rightarrow>
          (let code = show_int (hr_StatusCode resp) in
           (Ok resp, s\<lparr>http_transport := t, http_metrics := http_metrics s @
             [apiRequestsTotal meth path code, apiRequestDuration meth path code]\<rparr>))
      | (Panic p, t) \<Rightarrow> (Panic p, s\<lparr>http_transport := t\<rparr>))"

section \<open>Words\<close>

text \<open>The maximal runs of word characters.\<close>

function words :: "string \<Rightarrow> string list" where
  "words [] = []"
| "words (c # cs) = (if is_word c then (c # takeWhile is_word cs) # words (dropWhile is_word cs) else words cs)"
  by pat_completeness auto

termination by (relation "measure length") (auto simp: le_imp_less_Suc length_dropWhile_le)

lemma word_classes: "is_hex c \<Longrightarrow> is_word c" "is_digit c \<Longrightarrow> is_word c"
  by (auto simp: is_hex_def hex_value_def is_digit_def is_word_def Let_def split: if_splits)

lemma not_word_slash [simp]: "\<not> is_word CHR ''/''" "\<not> is_word CHR '':''"
  by code_simp+

lemma next_word_dropWhile [simp]: "\<not> next_word (dropWhile is_word s)"
  by (induction s) (auto simp: next_word_def)

lemma takeWhile_class:
  assumes "\<And>c. P c \<Longrightarrow> is_word c"
  shows "\<not> next_word (drop (length (takeWhile P s)) s) \<longleftrightarrow> list_all P (takeWhile is_word s)"
    and "list_all P (takeWhile is_word s) \<Longrightarrow> takeWhile P s = takeWhile is_word s"
  using assms by (induction s) (auto simp: next_word_def)

text \<open>A class matches exactly the whole words of that class, at their beginning.\<close>

lemma match_token_word:
  assumes "\<And>c. P c \<Longrightarrow> is_word c" "1 \<le> n"
  shows "match_token P n w s =
    (let t = takeWhile is_word s in if \<not> w \<and> n \<le> length t \<and> list_all P t then Some (length t) else None)"
proof (cases "list_all P (takeWhile is_word s)")
  case True
  then have "takeWhile P s = takeWhile is_word s" using takeWhile_class(2) [of P s] assms(1) by blast
  moreover have "\<not> next_word (drop (length (takeWhile P s)) s)"
    using takeWhile_class(1) [of P s] assms(1) True by blast
  moreover have "next_word s" if "1 \<le> length (takeWhile is_word s)"
    using that by (cases s) (auto simp: next_word_def split: if_splits)
  ultimately show ?thesis using True assms(2) by (auto simp: match_token_def boundary_def Let_def)
next
  case False
  then show ?thesis using takeWhile_class(1) [of P s] assms(1) by (auto simp: match_token_def boundary_def Let_def)
qed

lemma words_token: "t \<noteq> [] \<Longrightarrow> list_all is_word t \<Longrightarrow> \<not> next_word r \<Longrightarrow> words (t @ r) = t # words r"
proof (cases t)
  case (Cons c cs)
  assume "list_all is_word t" "\<not> next_word r"
  moreover have "takeWhile is_word r = []" "dropWhile is_word r = r" if "\<not> next_word r"
    using that by (cases r; simp add: next_word_def)+
  ultimately show ?thesis
    using Cons by (simp add: takeWhile_append dropWhile_append list_all_iff)
qed simp

lemma words_append_sep: "\<not> is_word c \<Longrightarrow> words (a @ c # b) = words a @ words b"
proof (induction a rule: words.induct)
  case (2 d ds)
  show ?case
  proof (cases "is_word d")
    case True
    have all: "ds = takeWhile is_word ds" if "\<forall>x \<in> set ds. is_word x"
      using that takeWhile_eq_all_conv by metis
    have "takeWhile is_word (ds @ c # b) = takeWhile is_word ds"
      "dropWhile is_word (ds @ c # b) = dropWhile is_word ds @ c # b"
      using 2(3) by (auto simp: takeWhile_append dropWhile_append intro!: all)
    with True 2 show ?thesis by simp
  qed (use 2 in simp)
qed simp

text \<open>Inside a word nothing matches, and after it the flag does not matter.\<close>

lemma replace_inside:
  assumes "\<And>s. m True s = None" "list_all is_word t"
  shows "replace_ids m True (t @ r) = t @ replace_ids m True r"
  using assms(2) by (induction t) (auto simp: assms(1))

lemma replace_word_class:
  fixes P n
  defines "m \<equiv> match_token P n"
  assumes P: "\<And>c. P c \<Longrightarrow> is_word c" and n: "1 \<le> n"
  shows "words (replace_ids m False s) = map (\<lambda>t. if n \<le> length t \<and> list_all P t then ''id'' else t) (words s)"
proof -
  have m: "m w s = (let t = takeWhile is_word s in if \<not> w \<and> n \<le> length t \<and> list_all P t then Some (length t) else None)" for w s
    unfolding m_def using P n by (rule match_token_word)
  have None: "m w s = None" if "w \<or> \<not> next_word s" for w s
    using that n by (cases s) (auto simp: m next_word_def Let_def)
  have flag: "replace_ids m True r = replace_ids m False r" if "\<not> next_word r" for r
    using that by (cases r) (auto simp: None next_word_def)
  have start: "\<not> next_word (replace_ids m False r)" if "\<not> next_word r" for r
    using that by (cases r) (auto simp: None next_word_def)
  show ?thesis
  proof (induction s rule: words.induct)
    case (2 c cs)
    show ?case
    proof (cases "is_word c")
      case True
      let ?t = "c # takeWhile is_word cs" and ?r = "dropWhile is_word cs"
      let ?r' = "replace_ids m False ?r"
      note IH = 2(1) [OF True] and nw = start [OF next_word_dropWhile [of cs]]
      have tok: "list_all is_word ?t" using True by (auto simp: list_all_iff dest: set_takeWhileD)
      have "words (replace_ids m False (c # cs)) = (if n \<le> length ?t \<and> list_all P ?t then ''id'' else ?t) # words ?r'"
      proof (cases "n \<le> length ?t \<and> list_all P ?t")
        case True': True
        then have "replace_ids m False (c # cs) = CHR '':'' # ''id'' @ ?r'"
          using True by (simp add: m Let_def dropWhile_eq_drop [symmetric] flag)
        moreover have "list_all is_word ''id''" by code_simp
        ultimately show ?thesis using True' nw words_token [of "''id''" ?r'] by simp
      next
        case False
        have "replace_ids m True cs = takeWhile is_word cs @ replace_ids m True ?r"
          using replace_inside [of m "takeWhile is_word cs" ?r] tok None by simp
        moreover have "m False (c # cs) = None"
          using True False unfolding m by (auto simp: Let_def)
        ultimately have "replace_ids m False (c # cs) = ?t @ ?r'"
          using True by (simp add: flag)
        then have "words (replace_ids m False (c # cs)) = ?t # words ?r'"
          using words_token [OF _ tok nw] by simp
        with False show ?thesis by (simp only: if_False)
      qed
      with True IH show ?thesis by simp
    next
      case False
      then have "replace_ids m False (c # cs) = c # replace_ids m False cs" by (simp add: None next_word_def)
      with False 2 show ?thesis by simp
    qed
  qed simp
qed

section \<open>Labels\<close>

lemma keep_parts_take:
  assumes "int (length out) < n"
  shows "keep_parts n out parts = out @ take (nat n - length out) (filter (\<lambda>p. p \<noteq> []) parts)"
  using assms
proof (induction n out parts rule: keep_parts.induct)
  case (2 n out part parts)
  then have "nat n - length out = Suc (nat n - Suc (length out))" by linarith
  with 2 show ?case by auto
qed simp

lemma words_split: "words s = concat (map words (split CHR ''/'' s))"
proof (induction "length (split CHR ''/'' s)" arbitrary: s)
  case (Suc n)
  have "s = join ''/'' (split CHR ''/'' s)" by (simp add: join_split)
  obtain w ws where s: "split CHR ''/'' s = w # ws" by (meson neq_Nil_conv split_not_Nil)
  show ?case
  proof (cases ws)
    case Nil
    then show ?thesis using s join_split [of "CHR ''/''" s] by simp
  next
    case (Cons v vs)
    let ?r = "join ''/'' ws"
    have "s = w @ CHR ''/'' # ?r" using s Cons join_split [of "CHR ''/''" s] by simp
    moreover have r: "split CHR ''/'' ?r = ws"
      using Cons s split_no_sep [of _ "CHR ''/''" s] by (intro split_join) auto
    moreover have "words ?r = concat (map words ws)" using Suc r s by (metis Suc_inject length_Cons)
    ultimately show ?thesis using s by (simp add: words_append_sep)
  qed
qed simp

lemma in_concat_map: "t \<in> set (concat (map f xs)) \<longleftrightarrow> (\<exists>x \<in> set xs. t \<in> set (f x))"
  by simp

lemma words_join: "words (CHR ''/'' # join ''/'' out) = concat (map words out)"
proof (induction out)
  case (Cons p out)
  then show ?case by (cases out) (auto simp: words_append_sep)
qed simp

text \<open>The two kinds of word that are replaced.\<close>

definition number_word :: "string \<Rightarrow> bool" where
  "number_word t \<longleftrightarrow> list_all is_digit t"

definition hex_word :: "string \<Rightarrow> bool" where
  "hex_word t \<longleftrightarrow> 16 \<le> length t \<and> list_all is_hex t"

lemma id_word [simp]: "\<not> number_word ''id''" "\<not> hex_word ''id''"
  unfolding number_word_def hex_word_def by code_simp+

lemma words_not_Nil: "[] \<notin> set (words s)"
  by (induction s rule: words.induct) auto

lemma words_replaced:
  assumes "t \<in> set (words (replace_ids reNumber False (replace_ids reHex False s)))"
  shows "\<not> number_word t \<and> \<not> hex_word t"
proof -
  let ?h = "replace_ids reHex False s"
  have n: "words (replace_ids reNumber False ?h) = map (\<lambda>t. if 1 \<le> length t \<and> list_all is_digit t then ''id'' else t) (words ?h)"
    unfolding reNumber_def by (rule replace_word_class) (simp_all add: word_classes)
  have h: "words ?h = map (\<lambda>t. if 16 \<le> length t \<and> list_all is_hex t then ''id'' else t) (words s)"
    unfolding reHex_def by (rule replace_word_class) (simp_all add: word_classes)
  from assms n obtain u where u: "u \<in> set (words ?h)" "t = (if 1 \<le> length u \<and> number_word u then ''id'' else u)"
    by (auto simp: number_word_def)
  from u(1) have "u \<noteq> []" using words_not_Nil by metis
  then have "1 \<le> length u" by (cases u) auto
  moreover have "\<not> hex_word u" using u(1) unfolding h hex_word_def [symmetric] by auto
  ultimately show ?thesis using u(2) by auto
qed

lemma sanitizePath_parts:
  "\<exists>out. sanitizePath path = CHR ''/'' # join ''/'' out \<and> length out \<le> 6 \<and> [] \<notin> set out \<and>
     (\<forall>p \<in> set out. CHR ''/'' \<notin> set p \<and> p \<in> set (split CHR ''/'' (replace_ids reNumber False (replace_ids reHex False (replace_ids reUUID False path)))))"
proof -
  let ?p = "replace_ids reNumber False (replace_ids reHex False (replace_ids reUUID False path))"
  let ?out = "take 6 (filter (\<lambda>p. p \<noteq> []) (split CHR ''/'' ?p))"
  have "sanitizePath path = CHR ''/'' # join ''/'' ?out"
    by (simp add: sanitizePath_def limitPathDepth_def keep_parts_take Let_def)
  moreover have part: "p \<in> set (split CHR ''/'' ?p) \<and> p \<noteq> []" if "p \<in> set ?out" for p
    using in_set_takeD [OF that] by simp
  moreover have "length ?out \<le> 6" by simp
  moreover have "[] \<notin> set ?out" using part by blast
  moreover have "\<forall>p \<in> set ?out. CHR ''/'' \<notin> set p \<and> p \<in> set (split CHR ''/'' ?p)"
    using part split_no_sep by blast
  ultimately show ?thesis by (intro exI [of _ ?out] conjI)
qed

section \<open>Properties\<close>

text \<open>C28: The labels of the metrics are bounded. Whatever the path of a request, its label begins with a slash
  and has at most six segments, none of them empty; and no word of it, that is no maximal run of letters,
  digits and underscores, is a decimal number or a hexadecimal number of 16 or more digits.\<close>

theorem label_sanitized:
  "\<exists>out. sanitizePath path = CHR ''/'' # join ''/'' out \<and> length out \<le> 6 \<and> [] \<notin> set out \<and>
     CHR ''/'' \<notin> (\<Union>p \<in> set out. set p) \<and>
     {t \<in> set (words (sanitizePath path)). number_word t \<or> hex_word t} = {}"
proof -
  let ?p = "replace_ids reNumber False (replace_ids reHex False (replace_ids reUUID False path))"
  from sanitizePath_parts [of path]
  obtain out where out: "sanitizePath path = CHR ''/'' # join ''/'' out" "length out \<le> 6" "[] \<notin> set out"
    "\<forall>p \<in> set out. CHR ''/'' \<notin> set p \<and> p \<in> set (split CHR ''/'' ?p)"
    by (elim exE conjE)
  have "t \<in> set (words ?p)" if t: "t \<in> set (words (sanitizePath path))" for t
  proof -
    from t have "\<exists>q \<in> set out. t \<in> set (words q)" unfolding out(1) words_join in_concat_map .
    then have "\<exists>q \<in> set (split CHR ''/'' ?p). t \<in> set (words q)" using out(4) by meson
    then show ?thesis unfolding words_split [of ?p] in_concat_map .
  qed
  then have "{t \<in> set (words (sanitizePath path)). number_word t \<or> hex_word t} = {}"
    using words_replaced by blast
  moreover have "CHR ''/'' \<notin> (\<Union>p \<in> set out. set p)" using out(4) by simp
  ultimately show ?thesis using out(1-3) by (intro exI [of _ out] conjI)
qed

text \<open>C30: The reason of a transport error. Since a DNS error is a net.Error for the library, the branch that
  classifies DNS errors is never taken: RoundTrip records no error with that reason. It hands the response
  or the error on unchanged, and counts the request once, with its duration, under the sanitized path, and
  one error exactly when the request failed.\<close>

theorem transport_errors_classified:
  assumes "\<And>e. as_DNSError T e \<Longrightarrow> as_NetError T e \<noteq> None"
    and "RoundTrip T next_RoundTrip req s = (r, s')" "http_metrics s = []"
  shows "next_RoundTrip req (http_transport s) = (r, http_transport s') \<and>
    (case r of
      Ok resp \<Rightarrow> http_metrics s' = [apiRequestsTotal (rq_Method req) (sanitizePath (rq_Path req)) (show_int (hr_StatusCode resp)),
        apiRequestDuration (rq_Method req) (sanitizePath (rq_Path req)) (show_int (hr_StatusCode resp))]
    | Err e \<Rightarrow> (\<exists>reason \<in> {''deadline_exceeded'', ''timeout'', ''network_error'', ''unknown''}. http_metrics s' =
        [apiRequestErrorsTotal (rq_Method req) (sanitizePath (rq_Path req)) reason,
         apiRequestsTotal (rq_Method req) (sanitizePath (rq_Path req)) ''error'',
         apiRequestDuration (rq_Method req) (sanitizePath (rq_Path req)) ''error''])
    | Panic p \<Rightarrow> http_metrics s' = [])"
proof -
  have "classifyTransportError T e \<in> {''deadline_exceeded'', ''timeout'', ''network_error'', ''unknown''}" for e
    using assms(1) [of e] by (auto simp: classifyTransportError_def split: option.splits)
  moreover obtain r' t where "next_RoundTrip req (http_transport s) = (r', t)" by fastforce
  ultimately show ?thesis
    using assms(2,3) by (cases r') (auto simp: RoundTrip_def Let_def simp del: insert_iff)
qed

definition example_types :: error_types where
  "example_types = \<lparr>as_NetError = (\<lambda>e. if e = Api ''lookup'' then Some False else None), as_DNSError = (\<lambda>e. e = Api ''lookup'')\<rparr>"

definition example_request :: http_request where
  "example_request = \<lparr>rq_Method = ''GET'', rq_Path = ''/v1/pools/42'', rq_Body = []\<rparr>"

lemma example_label: "sanitizePath (rq_Path example_request) = ''/v1/pools/:id''"
  by code_simp

theorem transport_errors_classified_witness:
  "\<exists>s' reason. RoundTrip example_types (\<lambda>_. answer (Err (Api ''lookup''))) example_request
       \<lparr>http_transport = (), http_metrics = []\<rparr> = (Err (Api ''lookup''), s') \<and>
     reason \<noteq> ''dns_error'' \<and> hd (http_metrics s') = apiRequestErrorsTotal ''GET'' ''/v1/pools/:id'' reason"
proof -
  let ?s = "\<lparr>http_transport = (), http_metrics = []\<rparr>"
  obtain s' where run: "RoundTrip example_types (\<lambda>_. answer (Err (Api ''lookup''))) example_request ?s = (Err (Api ''lookup''), s')"
    by (simp add: RoundTrip_def answer_def Let_def)
  have net: "as_NetError example_types e \<noteq> None" if "as_DNSError example_types e" for e
    using that by (simp add: example_types_def)
  have "\<exists>reason \<in> {''deadline_exceeded'', ''timeout'', ''network_error'', ''unknown''}. http_metrics s' =
        [apiRequestErrorsTotal (rq_Method example_request) (sanitizePath (rq_Path example_request)) reason,
         apiRequestsTotal (rq_Method example_request) (sanitizePath (rq_Path example_request)) ''error'',
         apiRequestDuration (rq_Method example_request) (sanitizePath (rq_Path example_request)) ''error'']"
    using transport_errors_classified [OF net run] by (simp only: outcome.case simp_thms http_state.simps)
  then obtain reason where reason: "reason \<in> {''deadline_exceeded'', ''timeout'', ''network_error'', ''unknown''}"
    and "hd (http_metrics s') = apiRequestErrorsTotal (rq_Method example_request) (sanitizePath (rq_Path example_request)) reason"
    by (elim bexE) (simp only: list.sel)
  moreover have "rq_Method example_request = ''GET''" by (simp add: example_request_def)
  ultimately have "hd (http_metrics s') = apiRequestErrorsTotal ''GET'' ''/v1/pools/:id'' reason"
    by (simp only: example_label)
  moreover have "reason \<noteq> ''dns_error''" using reason by auto
  ultimately show ?thesis using run by blast
qed

end
