(* ===== verification/Processes.thy ===== *)
theory Processes
  imports Provider
begin

text \<open>
  The process that a Go program runs in: a part of it returns, panics, or exits the process, and deferred
  calls run when it returns or panics, not when it exits; \<^verbatim>\<open>panicutil\<close>, \<^verbatim>\<open>version\<close> and \<^verbatim>\<open>klog.Fatalf\<close>.
  The lemmas are a calculus for the ending of a part and for what it shows.
\<close>

section \<open>Returning, panicking, exiting\<close>

datatype 'a ending = Returns 'a | Panics string | Exits nat

type_synonym ('s, 'a) proc = "'s \<Rightarrow> 'a ending \<times> 's"

definition returnP :: "'a \<Rightarrow> ('s, 'a) proc" where
  "returnP x s = (Returns x, s)"

definition panicP :: "string \<Rightarrow> ('s, 'a) proc" where
  "panicP p s = (Panics p, s)"

definition Exit :: "nat \<Rightarrow> ('s, 'a) proc" where
  "Exit n s = (Exits n, s)"

definition bindP :: "('s, 'a) proc \<Rightarrow> ('a \<Rightarrow> ('s, 'b) proc) \<Rightarrow> ('s, 'b) proc" where
  "bindP m k s = (case m s of
     (Returns x, s') \<Rightarrow> k x s'
   | (Panics p, s') \<Rightarrow> (Panics p, s')
   | (Exits n, s') \<Rightarrow> (Exits n, s'))"

text \<open>\<open>deferP d m\<close>: the deferred \<open>d\<close> gets the panic that \<^verbatim>\<open>recover()\<close> would return, if there is one.\<close>

definition deferP :: "(string option \<Rightarrow> ('s, unit) proc) \<Rightarrow> ('s, 'a) proc \<Rightarrow> ('s, 'a) proc" where
  "deferP d m s = (case m s of
     (Exits n, s') \<Rightarrow> (Exits n, s')
   | (Returns x, s') \<Rightarrow> bindP (d None) (\<lambda>_. returnP x) s'
   | (Panics p, s') \<Rightarrow> bindP (d (Some p)) (\<lambda>_. panicP p) s')"

text \<open>What the program shows of itself; \<open>Log\<close> is a call of \<^verbatim>\<open>klog\<close>, printed or not by its verbosity; \<open>Serve p\<close>: the controllers run with the provider \<open>p\<close>.\<close>

datatype 'p process_event =
    Stdout string
  | Stderr string
  | Log string
  | LogFlags
  | Flush
  | Serve 'p

record ('w, 'p) process =
  pr_world :: 'w
  pr_goflags :: "string \<rightharpoonup> string"
  pr_events :: "'p process_event list"

definition blank :: "'w \<Rightarrow> ('w, 'p) process" where
  "blank w = \<lparr>pr_world = w, pr_goflags = Map.empty, pr_events = []\<rparr>"

definition event :: "'p process_event \<Rightarrow> (('w, 'p) process, unit) proc" where
  "event e s = (Returns (), s\<lparr>pr_events := pr_events s @ [e]\<rparr>)"

text \<open>A call of a library that uses the world.\<close>

definition library :: "('w, 'a) ext \<Rightarrow> (('w, 'p) process, error + 'a) proc" where
  "library f s = (case f (pr_world s) of
     (Ok x, w) \<Rightarrow> (Returns (Inr x), s\<lparr>pr_world := w\<rparr>)
   | (Err e, w) \<Rightarrow> (Returns (Inl e), s\<lparr>pr_world := w\<rparr>)
   | (Panic p, w) \<Rightarrow> (Panics p, s\<lparr>pr_world := w\<rparr>))"

text \<open>\<^verbatim>\<open>klog.Fatalf\<close> logs, flushes and exits with status 255.\<close>

definition Fatalf :: "string \<Rightarrow> (('w, 'p) process, 'a) proc" where
  "Fatalf msg = bindP (event (Log msg)) (\<lambda>_. bindP (event Flush) (\<lambda>_. Exit 255))"

abbreviation newline :: string where "newline \<equiv> [CHR 0x0A]"

text \<open>\<open>stack\<close> is the text of \<^verbatim>\<open>debug.Stack()\<close> where the panic was recovered.\<close>

definition HandlePanic :: "(string \<Rightarrow> string) \<Rightarrow> string \<Rightarrow> string option \<Rightarrow> (('w, 'p) process, unit) proc" where
  "HandlePanic stack name recovered = (case recovered of
     None \<Rightarrow> returnP ()
   | Some r \<Rightarrow>
       (let msg = ''PANIC recovered in '' @ name @ '': '' @ r @ newline @ ''Stacktrace:'' @ newline @ stack r in
        bindP (event (Log msg)) (\<lambda>_.
        bindP (event (Stderr (msg @ newline))) (\<lambda>_.
        bindP (event Flush) (\<lambda>_. Exit 1)))))"

definition PrintVersionAndExit :: "string \<Rightarrow> (('w, 'p) process, 'a) proc" where
  "PrintVersionAndExit Version = bindP (event (Stdout (Version @ newline))) (\<lambda>_. Exit 0)"

section \<open>What a process shows\<close>

text \<open>\<open>tells m Q\<close>: the ending of \<open>m\<close> and the events that it adds satisfy \<open>Q\<close>.\<close>

definition tells :: "(('w, 'p) process, 'a) proc \<Rightarrow> ('a ending \<Rightarrow> 'p process_event list \<Rightarrow> bool) \<Rightarrow> bool" where
  "tells m Q \<longleftrightarrow> (\<forall>s. \<exists>es. pr_events (snd (m s)) = pr_events s @ es \<and> Q (fst (m s)) es)"

named_theorems tells_intros

lemma tellsD: "tells m Q \<Longrightarrow> m s = (r, s') \<Longrightarrow> \<exists>es. pr_events s' = pr_events s @ es \<and> Q r es"
  unfolding tells_def by (metis fst_conv snd_conv)

lemma tells_weaken: "tells m Q \<Longrightarrow> (\<And>r es. Q r es \<Longrightarrow> Q' r es) \<Longrightarrow> tells m Q'"
  unfolding tells_def by meson

lemma tells_basic [tells_intros]:
  "Q (Returns x) [] \<Longrightarrow> tells (returnP x) Q" "Q (Panics p) [] \<Longrightarrow> tells (panicP p) Q" "Q (Exits n) [] \<Longrightarrow> tells (Exit n) Q"
  "R (Returns ()) [e] \<Longrightarrow> tells (event e) R"
  by (simp_all add: tells_def returnP_def panicP_def Exit_def event_def)

lemma tells_bindP [tells_intros]:
  assumes "tells m (\<lambda>r es. case r of
      Returns x \<Rightarrow> tells (k x) (\<lambda>r' es'. Q r' (es @ es'))
    | Panics p \<Rightarrow> Q (Panics p) es
    | Exits n \<Rightarrow> Q (Exits n) es)"
  shows "tells (bindP m k) Q"
  unfolding tells_def
proof
  fix s
  obtain r s1 where m: "m s = (r, s1)" by fastforce
  from tellsD [OF assms m] obtain es where es: "pr_events s1 = pr_events s @ es" and
    r: "case r of Returns x \<Rightarrow> tells (k x) (\<lambda>r' es'. Q r' (es @ es')) | Panics p \<Rightarrow> Q (Panics p) es | Exits n \<Rightarrow> Q (Exits n) es"
    by blast
  show "\<exists>es. pr_events (snd (bindP m k s)) = pr_events s @ es \<and> Q (fst (bindP m k s)) es"
  proof (cases r)
    case (Returns x)
    obtain r2 s2 where k: "k x s1 = (r2, s2)" by fastforce
    from r Returns have "tells (k x) (\<lambda>r' es'. Q r' (es @ es'))" by simp
    from tellsD [OF this k] obtain es' where "pr_events s2 = pr_events s1 @ es'" "Q r2 (es @ es')" by blast
    with m k es Returns show ?thesis by (simp add: bindP_def)
  qed (use m es r in \<open>simp_all add: bindP_def\<close>)
qed

lemma tells_deferP [tells_intros]:
  fixes m :: "(('w, 'p) process, 'a) proc"
  assumes "tells m (\<lambda>r es. case r of
      Returns x \<Rightarrow> tells (bindP (d None) (\<lambda>_. returnP x)) (\<lambda>r' es'. Q r' (es @ es'))
    | Panics p \<Rightarrow> tells (bindP (d (Some p)) (\<lambda>_. panicP p)) (\<lambda>r' es'. Q r' (es @ es'))
    | Exits n \<Rightarrow> Q (Exits n) es)"
  shows "tells (deferP d m) Q"
  unfolding tells_def
proof
  fix s
  obtain r s1 where m: "m s = (r, s1)" by fastforce
  from tellsD [OF assms m] obtain es where es: "pr_events s1 = pr_events s @ es" and
    r: "case r of
      Returns x \<Rightarrow> tells (bindP (d None) (\<lambda>_. returnP x)) (\<lambda>r' es'. Q r' (es @ es'))
    | Panics p \<Rightarrow> tells (bindP (d (Some p)) (\<lambda>_. panicP p)) (\<lambda>r' es'. Q r' (es @ es'))
    | Exits n \<Rightarrow> Q (Exits n) es" by blast
  show "\<exists>es. pr_events (snd (deferP d m s)) = pr_events s @ es \<and> Q (fst (deferP d m s)) es"
  proof (cases r)
    case (Returns x)
    from r Returns obtain es' where "pr_events (snd (bindP (d None) (\<lambda>_. returnP x :: (('w, 'p) process, 'a) proc) s1)) = pr_events s1 @ es'"
      "Q (fst (bindP (d None) (\<lambda>_. returnP x :: (('w, 'p) process, 'a) proc) s1)) (es @ es')" unfolding tells_def by simp meson
    with m es Returns show ?thesis by (simp add: deferP_def)
  next
    case (Panics p)
    from r Panics obtain es' where "pr_events (snd (bindP (d (Some p)) (\<lambda>_. panicP p :: (('w, 'p) process, 'a) proc) s1)) = pr_events s1 @ es'"
      "Q (fst (bindP (d (Some p)) (\<lambda>_. panicP p :: (('w, 'p) process, 'a) proc) s1)) (es @ es')" unfolding tells_def by simp meson
    with m es Panics show ?thesis by (simp add: deferP_def)
  qed (use m es r in \<open>simp_all add: deferP_def\<close>)
qed

lemma tells_library [tells_intros]:
  assumes "\<And>x w w'. f w = (Ok x, w') \<Longrightarrow> Q (Returns (Inr x)) []"
    and "\<And>e w w'. f w = (Err e, w') \<Longrightarrow> Q (Returns (Inl e)) []"
    and "\<And>p w w'. f w = (Panic p, w') \<Longrightarrow> Q (Panics p) []"
  shows "tells (library f) Q"
  unfolding tells_def
proof
  fix s :: "('b, 'c) process"
  obtain r w where f: "f (pr_world s) = (r, w)" by fastforce
  with assms show "\<exists>es. pr_events (snd (library f s)) = pr_events s @ es \<and> Q (fst (library f s)) es"
    by (cases r) (simp_all add: library_def)
qed

definition serves :: "'p process_event list \<Rightarrow> 'p list" where
  "serves es = concat (map (\<lambda>e. case e of Serve p \<Rightarrow> [p] | _ \<Rightarrow> []) es)"

lemma set_serves: "p \<in> set (serves es) \<longleftrightarrow> Serve p \<in> set es"
  by (auto simp: serves_def split: process_event.splits intro!: bexI [of _ "Serve p"])

lemma serves_simps [simp]:
  "serves [] = []" "serves (es @ es') = serves es @ serves es'" "serves (Serve p # es) = p # serves es"
  "serves (Stdout t # es) = serves es" "serves (Stderr t # es) = serves es" "serves (Log t # es) = serves es"
  "serves (LogFlags # es) = serves es" "serves (Flush # es) = serves es" "serves (map Log ts) = []"
  by (simp_all add: serves_def)

text \<open>Something was written to the standard error.\<close>

definition complains :: "'p process_event list \<Rightarrow> bool" where
  "complains es \<longleftrightarrow> list_ex (\<lambda>e. case e of Stderr _ \<Rightarrow> True | _ \<Rightarrow> False) es"

lemma complains_iff: "complains es \<longleftrightarrow> (\<exists>t. Stderr t \<in> set es)"
proof -
  have "complains es \<longleftrightarrow> (\<exists>e \<in> set es. \<exists>t. e = Stderr t)"
    unfolding complains_def list_ex_iff by (intro bex_cong refl) (auto split: process_event.split)
  then show ?thesis by blast
qed

lemma complains_simps [simp]:
  "\<not> complains []" "complains (es @ es') \<longleftrightarrow> complains es \<or> complains es'" "complains (Stderr t # es)"
  "complains (Serve p # es) \<longleftrightarrow> complains es" "complains (Stdout t # es) \<longleftrightarrow> complains es"
  "complains (Log t # es) \<longleftrightarrow> complains es" "complains (LogFlags # es) \<longleftrightarrow> complains es" "complains (Flush # es) \<longleftrightarrow> complains es"
  by (simp_all add: complains_def)

lemma tells_fixed [tells_intros]:
  "Q (Exits 255) [Log msg, Flush] \<Longrightarrow> tells (Fatalf msg) Q"
  "Q (Exits 0) [Stdout (v @ newline)] \<Longrightarrow> tells (PrintVersionAndExit v) Q"
  by (simp_all add: tells_def Fatalf_def PrintVersionAndExit_def bindP_def event_def Exit_def)

lemma tells_case_option [tells_intros]:
  "(x = None \<Longrightarrow> tells m Q) \<Longrightarrow> (\<And>y. x = Some y \<Longrightarrow> tells (k y) Q) \<Longrightarrow> tells (case x of None \<Rightarrow> m | Some y \<Rightarrow> k y) Q"
  by (cases x) simp_all

text \<open>The handler of panics turns every panic into status 1, after a flush.\<close>

definition panic_events :: "(string \<Rightarrow> string) \<Rightarrow> string \<Rightarrow> string \<Rightarrow> 'p process_event list" where
  "panic_events stack name p =
     (let msg = ''PANIC recovered in '' @ name @ '': '' @ p @ newline @ ''Stacktrace:'' @ newline @ stack p in [Log msg, Stderr (msg @ newline), Flush])"

lemma serves_panic_events [simp]: "serves (panic_events stack name p) = []"
  by (simp_all add: panic_events_def Let_def)

lemma complains_panic_events [simp]: "complains (panic_events stack name p)"
  by (simp add: panic_events_def Let_def)

lemma tells_HandlePanic:
  assumes "tells m (\<lambda>r es. case r of Panics p \<Rightarrow> Q (Exits 1) (es @ panic_events stack name p) | _ \<Rightarrow> Q r es)"
  shows "tells (deferP (HandlePanic stack name) m) Q"
proof (rule tells_deferP, rule tells_weaken [OF assms])
  fix r es
  assume "case r of Panics p \<Rightarrow> Q (Exits 1) (es @ panic_events stack name p) | _ \<Rightarrow> Q r es"
  then show "case r of
      Returns x \<Rightarrow> tells (bindP (HandlePanic stack name None) (\<lambda>_. returnP x)) (\<lambda>r' es'. Q r' (es @ es'))
    | Panics p \<Rightarrow> tells (bindP (HandlePanic stack name (Some p)) (\<lambda>_. panicP p)) (\<lambda>r' es'. Q r' (es @ es'))
    | Exits n \<Rightarrow> Q (Exits n) es"
    by (cases r) (auto simp: tells_def HandlePanic_def panic_events_def bindP_def returnP_def event_def Exit_def Let_def)
qed

lemmas tells_steps = tells_bindP tells_basic tells_fixed tells_library tells_case_option

end
