(* ===== verification/Metrics.thy ===== *)
theory Metrics
  imports Telemetry Processes
begin

text \<open>
  The metrics of the controller manager: the collectors and \<^verbatim>\<open>RegisterMetrics\<close> of
  \<^verbatim>\<open>internal/edgecenter/metrics.go\<close>, and the samples that the instrumented transport and the volume
  operations take. The registry of \<^verbatim>\<open>k8s.io/component-base\<close> is a locale. The lemmas: registration
  succeeds, and no sample has the wrong labels.
\<close>

section \<open>Collectors\<close>

text \<open>The bounds of the buckets are in thousandths of a second.\<close>

datatype vec_kind = CounterVec | HistogramVec "nat list"

record collector =
  col_kind :: vec_kind
  col_Subsystem :: string
  col_Name :: string
  col_Help :: string
  col_labels :: "string list"

definition subsystem :: string where "subsystem = ''edgecenter''"

definition apiRequestsTotal_vec :: collector where
  "apiRequestsTotal_vec = \<lparr>col_kind = CounterVec, col_Subsystem = subsystem, col_Name = ''api_requests_total'',
     col_Help = ''Total number of Edgecenter API HTTP requests.'', col_labels = [''method'', ''path'', ''code'']\<rparr>"

definition apiRequestDuration_vec :: collector where
  "apiRequestDuration_vec = \<lparr>col_kind = HistogramVec [10, 25, 50, 100, 250, 500, 1000, 2500, 5000, 10000],
     col_Subsystem = subsystem, col_Name = ''api_request_duration_seconds'',
     col_Help = ''Latency of Edgecenter API HTTP requests.'', col_labels = [''method'', ''path'', ''code'']\<rparr>"

definition apiRequestErrorsTotal_vec :: collector where
  "apiRequestErrorsTotal_vec = \<lparr>col_kind = CounterVec, col_Subsystem = subsystem, col_Name = ''api_request_errors_total'',
     col_Help = ''Total number of Edgecenter API request transport errors (no HTTP response).'',
     col_labels = [''method'', ''path'', ''reason'']\<rparr>"

definition edgecenterOperationDuration :: collector where
  "edgecenterOperationDuration =
     \<lparr>col_kind = HistogramVec [100, 250, 500, 1000, 2500, 5000, 10000, 30000, 60000, 120000, 300000],
      col_Subsystem = subsystem, col_Name = ''operation_duration_seconds'',
      col_Help = ''Latency of Edgecenter cloud-provider operations (create_volume, attach_disk, etc.).'',
      col_labels = [''operation'']\<rparr>"

definition edgecenterOperationErrorsTotal :: collector where
  "edgecenterOperationErrorsTotal = \<lparr>col_kind = CounterVec, col_Subsystem = subsystem, col_Name = ''operation_errors_total'',
     col_Help = ''Total number of Edgecenter cloud-provider operation errors.'', col_labels = [''operation'']\<rparr>"

definition collectors :: "collector list" where
  "collectors = [apiRequestsTotal_vec, apiRequestDuration_vec, apiRequestErrorsTotal_vec, edgecenterOperationDuration,
     edgecenterOperationErrorsTotal]"

section \<open>Registration\<close>

text \<open>
  The registry: \<open>reg_Register\<close>, and \<open>reg_Sample c ls\<close> for \<^verbatim>\<open>c.WithLabelValues(ls...)\<close> followed by the update of
  the child; the values of the samples are not modelled.
\<close>

record 'w registry =
  reg_Register :: "collector \<Rightarrow> ('w, unit) ext"
  reg_Sample :: "collector \<Rightarrow> string list \<Rightarrow> ('w, unit) ext"

definition register :: "'w registry \<Rightarrow> collector \<Rightarrow> string \<Rightarrow> (('w, 'p) process, unit) proc" where
  "register reg r name = bindP (library (reg_Register reg r)) (\<lambda>res. case res of
     Inl err \<Rightarrow> event (Log (''unable to register metrics '' @ name @ '': '' @ error_msg err))
   | Inr _ \<Rightarrow> returnP ())"

definition take_sample :: "'w registry \<Rightarrow> collector \<times> string list \<Rightarrow> (('w, 'p) process, unit) proc" where
  "take_sample reg cl = bindP (library (reg_Sample reg (fst cl) (snd cl))) (\<lambda>_. returnP ())"

definition RegisterMetrics :: "'w registry \<Rightarrow> (('w, 'p) process, unit) proc" where
  "RegisterMetrics reg =
     bindP (register reg apiRequestsTotal_vec ''apiRequestsTotal'') (\<lambda>_.
     bindP (register reg apiRequestDuration_vec ''apiRequestDuration'') (\<lambda>_.
     bindP (register reg apiRequestErrorsTotal_vec ''apiRequestErrorsTotal'') (\<lambda>_.
     bindP (register reg edgecenterOperationDuration ''edgecenterOperationDuration'') (\<lambda>_.
     bindP (register reg edgecenterOperationErrorsTotal ''edgecenterOperationErrorsTotal'') (\<lambda>_.
     bindP (take_sample reg (apiRequestsTotal_vec, [''GET'', ''/__init__'', ''0''])) (\<lambda>_.
     take_sample reg (edgecenterOperationDuration, [''__init__''])))))))"

section \<open>Samples\<close>

text \<open>The metrics of the model as samples: those of \<^verbatim>\<open>RoundTrip\<close>, and those of an operation on volumes.\<close>

fun http_sample :: "http_metric \<Rightarrow> collector \<times> string list" where
  "http_sample (apiRequestErrorsTotal m p reason) = (apiRequestErrorsTotal_vec, [m, p, reason])"
| "http_sample (apiRequestsTotal m p code) = (apiRequestsTotal_vec, [m, p, code])"
| "http_sample (apiRequestDuration m p code) = (apiRequestDuration_vec, [m, p, code])"

definition recordEdgecenterOperationMetric :: "'w registry \<Rightarrow> string \<Rightarrow> bool \<Rightarrow> (('w, 'p) process, unit) proc" where
  "recordEdgecenterOperationMetric reg operation failed =
     bindP (take_sample reg (edgecenterOperationDuration, [operation])) (\<lambda>_.
     if failed then take_sample reg (edgecenterOperationErrorsTotal, [operation]) else returnP ())"

section \<open>What the registry promises\<close>

text \<open>
  A collector is refused, with an error, exactly when one of its full name is registered; a sample panics
  only with the wrong number of labels. Neither changes what else is registered.
\<close>

definition full_name :: "collector \<Rightarrow> string" where
  "full_name c = col_Subsystem c @ ''_'' @ col_Name c"

lemmas collector_defs = apiRequestsTotal_vec_def apiRequestDuration_vec_def apiRequestErrorsTotal_vec_def
  edgecenterOperationDuration_def edgecenterOperationErrorsTotal_def

lemma distinct_names: "distinct (map full_name collectors)"
  by (simp add: collectors_def full_name_def collector_defs)

definition sample_fits :: "collector \<times> string list \<Rightarrow> bool" where
  "sample_fits cl \<longleftrightarrow> length (snd cl) = length (col_labels (fst cl))"

locale metric_registry =
  fixes reg :: "'w registry" and registered :: "'w \<Rightarrow> string set"
  assumes register_fresh: "full_name c \<notin> registered w \<Longrightarrow>
      \<exists>w'. reg_Register reg c w = (Ok (), w') \<and> registered w' = insert (full_name c) (registered w)"
    and register_again: "full_name c \<in> registered w \<Longrightarrow>
      \<exists>e w'. reg_Register reg c w = (Err e, w') \<and> registered w' = registered w"
    and sample_fits: "sample_fits (c, ls) \<Longrightarrow> \<exists>w'. reg_Sample reg c ls w = (Ok (), w') \<and> registered w' = registered w"
begin

text \<open>\<open>registers m C\<close>: the step returns and registers the names \<open>C\<close>, with no event when all are new.\<close>

definition registers :: "(('w, 'p) process, unit) proc \<Rightarrow> string set \<Rightarrow> bool" where
  "registers m C \<longleftrightarrow> (\<forall>s. \<exists>s'. m s = (Returns (), s') \<and> registered (pr_world s') = C \<union> registered (pr_world s) \<and>
     serves (pr_events s') = serves (pr_events s) \<and>
     (C \<inter> registered (pr_world s) = {} \<longrightarrow> pr_events s' = pr_events s))"

lemma registersD:
  assumes "registers m C"
  obtains s' where "m s = (Returns (), s')" "registered (pr_world s') = C \<union> registered (pr_world s)"
    "serves (pr_events s') = serves (pr_events s)"
    "C \<inter> registered (pr_world s) = {} \<Longrightarrow> pr_events s' = pr_events s"
  using assms unfolding registers_def by meson

lemma registers_bindP:
  assumes "registers m C" "registers n D" "C \<inter> D = {}"
  shows "registers (bindP m (\<lambda>_. n)) (C \<union> D)"
  unfolding registers_def
proof
  fix s
  obtain s1 where 1: "m s = (Returns (), s1)" "registered (pr_world s1) = C \<union> registered (pr_world s)"
    "serves (pr_events s1) = serves (pr_events s)" "C \<inter> registered (pr_world s) = {} \<Longrightarrow> pr_events s1 = pr_events s"
    using registersD [OF assms(1)] by blast
  obtain s2 where 2: "n s1 = (Returns (), s2)" "registered (pr_world s2) = D \<union> registered (pr_world s1)"
    "serves (pr_events s2) = serves (pr_events s1)" "D \<inter> registered (pr_world s1) = {} \<Longrightarrow> pr_events s2 = pr_events s1"
    using registersD [OF assms(2)] by blast
  have "bindP m (\<lambda>_. n) s = (Returns (), s2)" by (simp add: bindP_def 1(1) 2(1))
  moreover have "(C \<union> D) \<inter> registered (pr_world s) = {} \<longrightarrow> pr_events s2 = pr_events s"
    using 1(2,4) 2(4) assms(3) by (auto simp: Int_Un_distrib Int_Un_distrib2 Int_commute)
  ultimately show "\<exists>s'. bindP m (\<lambda>_. n) s = (Returns (), s') \<and> registered (pr_world s') = (C \<union> D) \<union> registered (pr_world s) \<and>
     serves (pr_events s') = serves (pr_events s) \<and> ((C \<union> D) \<inter> registered (pr_world s) = {} \<longrightarrow> pr_events s' = pr_events s)"
    using 1(2,3) 2(2,3) by auto
qed

lemma registers_register: "registers (register reg c name) {full_name c}"
  unfolding registers_def
proof
  fix s
  show "\<exists>s'. register reg c name s = (Returns (), s') \<and> registered (pr_world s') = {full_name c} \<union> registered (pr_world s) \<and>
     serves (pr_events s') = serves (pr_events s) \<and> ({full_name c} \<inter> registered (pr_world s) = {} \<longrightarrow> pr_events s' = pr_events s)"
    using register_again [of c "pr_world s"] register_fresh [of c "pr_world s"]
    by (cases "full_name c \<in> registered (pr_world s)") (auto simp: register_def bindP_def library_def event_def returnP_def)
qed

lemma registers_sample: "sample_fits cl \<Longrightarrow> registers (take_sample reg cl :: (('w, 'p) process, unit) proc) {}"
  unfolding registers_def
proof
  fix s :: "('w, 'p) process"
  assume "sample_fits cl"
  then obtain w' where "reg_Sample reg (fst cl) (snd cl) (pr_world s) = (Ok (), w')" "registered w' = registered (pr_world s)"
    using sample_fits [of "fst cl" "snd cl"] by auto
  then show "\<exists>s'. take_sample reg cl s = (Returns (), s') \<and> registered (pr_world s') = {} \<union> registered (pr_world s) \<and>
     serves (pr_events s') = serves (pr_events s) \<and> ({} \<inter> registered (pr_world s) = {} \<longrightarrow> pr_events s' = pr_events s)"
    by (simp add: take_sample_def bindP_def library_def returnP_def)
qed

lemma sample_fits_intros:
  "sample_fits (http_sample m)" "sample_fits (edgecenterOperationDuration, [op])"
  "sample_fits (edgecenterOperationErrorsTotal, [op])" "sample_fits (apiRequestsTotal_vec, [a, b, c])"
  by (cases m; simp add: sample_fits_def collector_defs) (simp_all add: sample_fits_def collector_defs)

lemma RegisterMetrics_registers: "registers (RegisterMetrics reg) (full_name ` set collectors)"
proof -
  have "full_name ` set collectors = {full_name apiRequestsTotal_vec} \<union> ({full_name apiRequestDuration_vec} \<union>
      ({full_name apiRequestErrorsTotal_vec} \<union> ({full_name edgecenterOperationDuration} \<union>
      ({full_name edgecenterOperationErrorsTotal} \<union> ({} \<union> {})))))"
    by (auto simp: collectors_def)
  then show ?thesis
    unfolding RegisterMetrics_def
    by (simp only:)
      (intro registers_bindP registers_register registers_sample sample_fits_intros;
        use distinct_names in \<open>simp add: collectors_def\<close>)
qed

lemma samples_return:
  fixes s :: "('w, 'p) process"
  shows "fst (take_sample reg (http_sample m) s) = Returns ()" "fst (recordEdgecenterOperationMetric reg op failed s) = Returns ()"
proof -
  have taken: "fst (take_sample reg cl s) = Returns ()" if "sample_fits cl" for cl and s :: "('w, 'p) process"
    using registersD [OF registers_sample [OF that]] by (metis fst_conv)
  then show "fst (take_sample reg (http_sample m) s) = Returns ()" by (simp add: sample_fits_intros)
  show "fst (recordEdgecenterOperationMetric reg op failed s) = Returns ()"
    using taken [OF sample_fits_intros(2) [of op], of s] taken [OF sample_fits_intros(3) [of op]]
    by (auto simp: recordEdgecenterOperationMetric_def bindP_def returnP_def split: prod.splits ending.splits)
qed

end

text \<open>A registry that keeps the full names.\<close>

definition names_registry :: "string list registry" where
  "names_registry = \<lparr>
     reg_Register = (\<lambda>c w. if full_name c \<in> set w then (Err (Api ''duplicate metrics collector registration attempted''), w)
       else (Ok (), full_name c # w)),
     reg_Sample = (\<lambda>c ls w. if sample_fits (c, ls) then (Ok (), w) else (Panic ''inconsistent label cardinality'', w))\<rparr>"

interpretation names_registry: metric_registry names_registry set
  by unfold_locales (auto simp: names_registry_def)



end
