(* ===== verification/Startup.thy ===== *)
theory Startup
  imports Metrics
begin

text \<open>
  The process: \<^verbatim>\<open>cmd/main.go\<close> and the package initialisation of \<^verbatim>\<open>edgecenter.go\<close>. The Kubernetes libraries are
  parameters (\<open>runtime\<close>), the command line of \<^verbatim>\<open>cobra\<close> is a locale. The lemmas: the exit status, and with
  which provider the controllers run.
\<close>

section \<open>The command\<close>

text \<open>
  The flags after parsing: all of them in the order of \<^verbatim>\<open>VisitAll\<close>, \<^verbatim>\<open>klog\<close>'s \<^verbatim>\<open>v\<close>, \<^verbatim>\<open>versionFlag\<close> and the
  \<^verbatim>\<open>userAgentData\<close> that \<^verbatim>\<open>AddExtraFlags\<close> registers.
\<close>

record flags =
  fl_values :: "(string \<times> string) list"
  fl_v :: "string option"
  fl_version :: bool
  fl_user_agent :: "string list"

record 'o ccm_options =
  co_ProviderName :: string
  co_rest :: 'o

text \<open>
  The libraries: the options of the controller manager and what is completed from them and the flags (\<open>'c\<close>),
  providers (\<open>'p\<close>) from the registered factories (\<open>'f\<close>), the controllers.
\<close>

record ('w, 'o, 'c, 'f, 'p) runtime =
  rt_Version :: string
  rt_Stack :: "string \<Rightarrow> string"
  rt_NewCloudControllerManagerOptions :: "('w, 'o ccm_options) ext"
  rt_Sprint_options :: "'o ccm_options \<Rightarrow> string"
  rt_goflag_accepts :: "string \<Rightarrow> string \<Rightarrow> bool"
  rt_Execute :: "(flags \<Rightarrow> (('w, 'p) process, unit) proc) \<Rightarrow> (flags \<Rightarrow> (('w, 'p) process, unit) proc) \<Rightarrow>
    (('w, 'p) process, error option) proc"
  rt_Config :: "'o ccm_options \<Rightarrow> flags \<Rightarrow> string list \<Rightarrow> ('w, 'c) ext"
  rt_CloudProvider :: "'c \<Rightarrow> string \<times> string"
  rt_InitCloudProvider :: "(string \<rightharpoonup> 'f) \<Rightarrow> string \<Rightarrow> string \<Rightarrow> ('w, 'p option) ext"
  rt_Run :: "'c \<Rightarrow> 'p \<Rightarrow> ('w, unit) ext"

definition controllerList :: "string list" where
  "controllerList = [''cloud-node'', ''cloud-node-lifecycle'', ''service'', ''route'']"

definition copy_flags :: "(string \<Rightarrow> string \<Rightarrow> bool) \<Rightarrow> (string \<times> string) list \<Rightarrow> (string \<rightharpoonup> string) \<Rightarrow> (string \<rightharpoonup> string)" where
  "copy_flags accepts values goflags =
     foldl (\<lambda>m (name, v). if name \<in> dom m \<and> accepts name v then m(name \<mapsto> v) else m) goflags values"

definition PersistentPreRun ::
    "('w, 'o, 'c, 'f, 'p) runtime \<Rightarrow> flags \<Rightarrow> (('w, 'p) process, unit) proc" where
  "PersistentPreRun rt fl s =
     event (Stdout ((case fl_v fl of Some v \<Rightarrow> ''Klog verbosity set to: '' @ v | None \<Rightarrow> ''Klog verbosity flag not found'') @ newline))
       (s\<lparr>pr_goflags := copy_flags (rt_goflag_accepts rt) (fl_values fl) (pr_goflags s)\<rparr>)"

definition metrics_endpoints :: "(string \<rightharpoonup> string) \<Rightarrow> string list" where
  "metrics_endpoints get =
     (case get ''metrics-bind-address'' of
        Some mba \<Rightarrow> if mba \<noteq> [] then [''Metrics endpoint (metrics-bind-address): http://'' @ mba @ ''/metrics''] else []
      | None \<Rightarrow> []) @
     (case (get ''bind-address'', get ''secure-port'') of
        (Some bind, Some securePort) \<Rightarrow>
          if bind \<noteq> [] \<and> securePort \<noteq> []
          then [''Metrics endpoint (secure-port): https://'' @ bind @ '':'' @ securePort @ ''/metrics''] else []
      | _ \<Rightarrow> [])"

definition logMetricsEndpointFromFlags :: "flags \<Rightarrow> (('w, 'p) process, unit) proc" where
  "logMetricsEndpointFromFlags fl s =
     (Returns (), s\<lparr>pr_events := pr_events s @ map Log (metrics_endpoints (map_of (fl_values fl)))\<rparr>)"

text \<open>The two places where an error ends the process with status 1.\<close>

definition exit_with :: "string \<Rightarrow> error \<Rightarrow> (('w, 'p) process, 'a) proc" where
  "exit_with pre err = bindP (event (Stderr (pre @ error_msg err @ newline))) (\<lambda>_. Exit 1)"

definition command_Run ::
    "('w, 'o, 'c, 'f, 'p) runtime \<Rightarrow> (flags \<Rightarrow> string \<rightharpoonup> 'f) \<Rightarrow> 'o ccm_options \<Rightarrow> flags \<Rightarrow> (('w, 'p) process, unit) proc" where
  "command_Run rt providers options fl =
     deferP (HandlePanic (rt_Stack rt) ''command.Run'')
       (if fl_version fl then PrintVersionAndExit (rt_Version rt)
        else
          bindP (event LogFlags) (\<lambda>_.
          bindP (logMetricsEndpointFromFlags fl) (\<lambda>_.
          bindP (library (rt_Config rt options fl controllerList)) (\<lambda>r. case r of
            Inl err \<Rightarrow> exit_with [] err
          | Inr c \<Rightarrow>
              bindP (library (rt_InitCloudProvider rt (providers fl) (fst (rt_CloudProvider rt c)) (snd (rt_CloudProvider rt c)))) (\<lambda>r.
              case r of
                Inl err \<Rightarrow> Fatalf (''Cloud provider could not be initialized: '' @ error_msg err)
              | Inr None \<Rightarrow> Fatalf ''cloud provider is nil''
              | Inr (Some cloud) \<Rightarrow>
                  bindP (event (Serve cloud)) (\<lambda>_.
                  bindP (library (rt_Run rt c cloud)) (\<lambda>r. case r of
                    Inl err \<Rightarrow> exit_with [] err
                  | Inr _ \<Rightarrow> returnP ())))))))"

definition main :: "('w, 'o, 'c, 'f, 'p) runtime \<Rightarrow> (flags \<Rightarrow> string \<rightharpoonup> 'f) \<Rightarrow> (('w, 'p) process, unit) proc" where
  "main rt providers =
     deferP (HandlePanic (rt_Stack rt) ''main'')
       (bindP (library (rt_NewCloudControllerManagerOptions rt)) (\<lambda>r. case r of
          Inl err \<Rightarrow> Fatalf (''unable to initialize command options: '' @ error_msg err)
        | Inr s \<Rightarrow>
            (let s = s\<lparr>co_ProviderName := ProviderName\<rparr> in
             bindP (event (Stdout (''Cloud Options '' @ rt_Sprint_options rt s @ newline))) (\<lambda>_.
             deferP (\<lambda>_. event Flush)
               (bindP (event (Log (''edgecenter-cloud-controller-manager version: '' @ rt_Version rt))) (\<lambda>_.
                bindP (rt_Execute rt (PersistentPreRun rt) (command_Run rt providers s)) (\<lambda>r. case r of
                  Some err \<Rightarrow> exit_with ''error: '' err
                | None \<Rightarrow> returnP ())))))))"

text \<open>The factories after the package is loaded: \<^verbatim>\<open>init\<close> registers its own, which uses the flags when it is called.\<close>

definition registered_providers ::
    "('v, 't) client_lib \<Rightarrow> string \<Rightarrow> ('r \<Rightarrow> config outcome) \<Rightarrow> flags \<Rightarrow> string \<rightharpoonup> ('r option \<Rightarrow> ('v, 't) edgecenter outcome)" where
  "registered_providers lib Version ReadInto fl = [ProviderName \<mapsto> provider_factory lib Version (fl_user_agent fl) ReadInto]"

text \<open>The program: the package is initialised, then \<^verbatim>\<open>main\<close> runs. A panic of the first is not handled.\<close>

definition program ::
    "'w registry \<Rightarrow> ('w, 'o, 'c, 'f, 'p) runtime \<Rightarrow> (flags \<Rightarrow> string \<rightharpoonup> 'f) \<Rightarrow> (('w, 'p) process, unit) proc" where
  "program reg rt providers = bindP (RegisterMetrics reg) (\<lambda>_. main rt providers)"

section \<open>The command line\<close>

text \<open>
  \<^verbatim>\<open>Execute\<close> of a \<^verbatim>\<open>cobra\<close> command without subcommands: it returns an error when the arguments cannot be
  parsed, prints the help when asked for it, and otherwise calls \<^verbatim>\<open>PersistentPreRun\<close> and \<^verbatim>\<open>Run\<close> with the
  parsed flags.
\<close>

locale command_line =
  fixes execute :: "(flags \<Rightarrow> ('s, unit) proc) \<Rightarrow> (flags \<Rightarrow> ('s, unit) proc) \<Rightarrow> ('s, error option) proc"
  assumes execute_cases:
    "(\<exists>e. execute pre run s = (Returns (Some e), s)) \<or> execute pre run s = (Returns None, s) \<or>
     (\<exists>fl. execute pre run s = bindP (pre fl) (\<lambda>_. bindP (run fl) (\<lambda>_. returnP None)) s)"

datatype parsed = Usage error | Help | Parsed flags

definition execute_parsed ::
    "parsed \<Rightarrow> (flags \<Rightarrow> ('s, unit) proc) \<Rightarrow> (flags \<Rightarrow> ('s, unit) proc) \<Rightarrow> ('s, error option) proc" where
  "execute_parsed p pre run = (case p of
     Usage e \<Rightarrow> returnP (Some e)
   | Help \<Rightarrow> returnP None
   | Parsed fl \<Rightarrow> bindP (pre fl) (\<lambda>_. bindP (run fl) (\<lambda>_. returnP None)))"

interpretation execute_parsed: command_line "execute_parsed p"
  by unfold_locales (cases p; simp add: execute_parsed_def returnP_def; blast)

section \<open>How it ends\<close>

lemma tells_command [tells_intros]:
  "Q (Exits 1) [Stderr (pre @ error_msg e @ newline)] \<Longrightarrow> tells (exit_with pre e) Q"
  "R (Returns ()) (map Log (metrics_endpoints (map_of (fl_values fl)))) \<Longrightarrow> tells (logMetricsEndpointFromFlags fl) R"
  by (simp_all add: tells_def exit_with_def logMetricsEndpointFromFlags_def bindP_def event_def Exit_def)

text \<open>How the command ends, if it served with a provider and if it did not.\<close>

definition served ::
    "('w, 'o, 'c, 'f, 'p) runtime \<Rightarrow> (flags \<Rightarrow> string \<rightharpoonup> 'f) \<Rightarrow> unit ending \<Rightarrow> 'p process_event list \<Rightarrow> bool" where
  "served rt providers r es \<longleftrightarrow> (\<exists>p fl c w w' res.
     serves es = [p] \<and> (\<exists>v v'. rt_InitCloudProvider rt (providers fl) (fst (rt_CloudProvider rt c)) (snd (rt_CloudProvider rt c)) v = (Ok (Some p), v')) \<and>
     rt_Run rt c p w = (res, w') \<and> r = (case res of Ok _ \<Rightarrow> Returns () | _ \<Rightarrow> Exits 1) \<and>
     (r = Exits 1 \<longrightarrow> complains es))"

definition not_served :: "string \<Rightarrow> unit ending \<Rightarrow> 'p process_event list \<Rightarrow> bool" where
  "not_served Version r es \<longleftrightarrow> serves es = [] \<and>
     (r = Exits 0 \<and> Stdout (Version @ newline) \<in> set es \<or> r = Exits 1 \<and> complains es \<or> r = Exits 255 \<and> es \<noteq> [] \<and> last es = Flush)"

lemma command_Run_tells:
  "tells (command_Run rt providers opts fl) (\<lambda>r es. served rt providers r es \<or> not_served (rt_Version rt) r es)"
proof (cases "fl_version fl")
  case True
  then show ?thesis
    unfolding command_Run_def by (intro tells_HandlePanic) (simp add: tells_fixed not_served_def)
next
  case False
  then show ?thesis
    unfolding command_Run_def
    by (intro tells_HandlePanic)
      (simp, (rule tells_steps tells_command | (simp add: not_served_def; fail) | (force simp: served_def; fail) | simp only: ending.case sum.case)+)
qed

lemma ends_no_panic: "\<not> served rt providers (Panics p) es" "\<not> not_served v (Panics p) es"
proof -
  have "(case res of Ok _ \<Rightarrow> Returns () | _ \<Rightarrow> Exits 1) \<noteq> Panics p" for res :: "unit outcome" by (cases res) simp_all
  then show "\<not> served rt providers (Panics p) es" unfolding served_def complains_iff by metis
qed (simp add: not_served_def)

lemma served_mono:
  assumes "served rt providers r es" "serves es' = serves es" "complains es \<Longrightarrow> complains es'"
  shows "served rt providers r es'"
  using assms unfolding served_def by metis

lemma ends_after:
  assumes "served rt providers r es \<or> not_served v r es" "serves es0 = []"
  shows "served rt providers r (es0 @ es) \<or> not_served v r (es0 @ es)"
  using assms(1)
proof
  assume "served rt providers r es"
  then show ?thesis using served_mono [of rt providers r es "es0 @ es"] assms(2) by simp
qed (use assms(2) in \<open>auto simp: not_served_def\<close>)

lemma ends_flushed:
  assumes "served rt providers r es \<or> not_served v r es"
  shows "served rt providers r (es @ [Flush]) \<or> not_served v r (es @ [Flush])"
  using assms
proof
  assume "served rt providers r es"
  then show ?thesis using served_mono [of rt providers r es "es @ [Flush]"] by simp
qed (auto simp: not_served_def)

lemma execute_tells:
  assumes "command_line execute"
    and "\<And>fl. tells (pre fl) (\<lambda>r es. r = Returns () \<and> serves es = [])"
    and "\<And>fl. tells (run fl) (\<lambda>r es. (\<forall>es0. serves es0 = [] \<longrightarrow> Q r (es0 @ es)) \<and> (\<forall>p. r \<noteq> Panics p))"
  shows "tells (execute pre run) (\<lambda>r es. case r of
      Returns None \<Rightarrow> Q (Returns ()) es \<or> es = []
    | Returns (Some e) \<Rightarrow> es = []
    | Panics p \<Rightarrow> False
    | Exits n \<Rightarrow> Q (Exits n) es)" (is "tells _ ?R")
  unfolding tells_def
proof
  fix s
  consider e where "execute pre run s = (Returns (Some e), s)" | "execute pre run s = (Returns None, s)"
    | fl where "execute pre run s = bindP (pre fl) (\<lambda>_. bindP (run fl) (\<lambda>_. returnP None)) s"
    using command_line.execute_cases [OF assms(1)] by blast
  then show "\<exists>es. pr_events (snd (execute pre run s)) = pr_events s @ es \<and> ?R (fst (execute pre run s)) es"
  proof cases
    case 3
    obtain r1 s1 where m1: "pre fl s = (r1, s1)" by fastforce
    from tellsD [OF assms(2) m1] obtain es1 where es1: "pr_events s1 = pr_events s @ es1" "r1 = Returns ()" "serves es1 = []" by blast
    obtain r2 s2 where m2: "run fl s1 = (r2, s2)" by fastforce
    from tellsD [OF assms(3) m2] es1(3) obtain es2 where es2: "pr_events s2 = pr_events s1 @ es2" "Q r2 (es1 @ es2)" "\<forall>p. r2 \<noteq> Panics p" by blast
    show ?thesis
      unfolding 3 using m1 m2 es1 es2 by (cases r2) (auto simp: bindP_def returnP_def)
  qed simp_all
qed

text \<open>The whole process. Without having served it returns only after printing the help.\<close>

lemma main_tells:
  assumes "command_line (rt_Execute rt)"
  shows "tells (main rt providers) (\<lambda>r es. (served rt providers r es \<or> not_served (rt_Version rt) r es) \<or> r = Returns () \<and> serves es = [])"
proof -
  let ?Q = "\<lambda>r es. served rt providers r es \<or> not_served (rt_Version rt) r es"
  have pre: "tells (PersistentPreRun rt fl) (\<lambda>r es. r = Returns () \<and> serves es = [])" for fl
    by (simp add: tells_def PersistentPreRun_def event_def)
  have run: "tells (command_Run rt providers opts fl) (\<lambda>r es. (\<forall>es0. serves es0 = [] \<longrightarrow> ?Q r (es0 @ es)) \<and> (\<forall>p. r \<noteq> Panics p))" for opts fl
    by (rule tells_weaken [OF command_Run_tells], intro conjI allI impI, erule (1) ends_after) (metis ends_no_panic)
  note exec = execute_tells [OF assms pre run]
  let ?P = "\<lambda>r es. ?Q r es \<or> r = Returns () \<and> serves es = []"
  have body: "tells (bindP (rt_Execute rt (PersistentPreRun rt) (command_Run rt providers opts)) (\<lambda>r. case r of
      Some err \<Rightarrow> exit_with ''error: '' err | None \<Rightarrow> returnP ())) ?P" for opts
  proof (rule tells_bindP, rule tells_weaken [OF exec])
    fix r :: "error option ending" and es
    assume *: "case r of
        Returns None \<Rightarrow> ?Q (Returns ()) es \<or> es = []
      | Returns (Some e) \<Rightarrow> es = []
      | Panics p \<Rightarrow> False
      | Exits n \<Rightarrow> ?Q (Exits n) es"
    show "case r of
        Returns x \<Rightarrow> tells (case x of Some err \<Rightarrow> exit_with ''error: '' err | None \<Rightarrow> returnP ()) (\<lambda>r' es'. ?P r' (es @ es'))
      | Panics p \<Rightarrow> ?P (Panics p) es
      | Exits n \<Rightarrow> ?P (Exits n) es"
    proof (cases r)
      case (Returns x)
      show ?thesis
      proof (cases x)
        case None
        with * Returns have "?P (Returns ()) es" by auto
        then show ?thesis unfolding Returns None ending.case option.case by (intro tells_basic) (simp only: append_Nil2)
      next
        case (Some e)
        with * Returns have "es = []" by simp
        then show ?thesis
          unfolding Returns Some ending.case option.case by (intro tells_command) (simp add: not_served_def)
      qed
    qed (use * in auto)
  qed
  have after: "?P r (es0 @ es)" if "?P r es" "serves es0 = []" for r es0 es
    using that ends_after [of rt providers r es "rt_Version rt" es0] by auto
  have no_panic: "\<not> ?P (Panics p) es" for p es using ends_no_panic by blast
  have logged: "tells (bindP (event (Log t)) (\<lambda>_. m)) ?P" if "tells m ?P" for t m
    by (rule tells_bindP, rule tells_basic, unfold ending.case, rule tells_weaken [OF that], erule after) simp
  have shown: "tells (bindP (event (Stdout t)) (\<lambda>_. m)) ?P" if "tells m ?P" for t m
    by (rule tells_bindP, rule tells_basic, unfold ending.case, rule tells_weaken [OF that], erule after) simp
  have flushed: "tells (deferP (\<lambda>_. event Flush) m) ?P" if "tells m ?P" for m
  proof (rule tells_deferP, rule tells_weaken [OF that])
    fix r es
    assume r: "?P r es"
    have return: "tells (bindP (event Flush) (\<lambda>_. returnP x)) (\<lambda>r' es'. ?P r' (es @ es'))" if "r = Returns x" for x
      using r ends_flushed [of rt providers r es "rt_Version rt"] that
      by (intro tells_bindP tells_basic, unfold ending.case, intro tells_basic) auto
    show "case r of
        Returns x \<Rightarrow> tells (bindP (event Flush) (\<lambda>_. returnP x)) (\<lambda>r' es'. ?P r' (es @ es'))
      | Panics p \<Rightarrow> tells (bindP (event Flush) (\<lambda>_. panicP p)) (\<lambda>r' es'. ?P r' (es @ es'))
      | Exits n \<Rightarrow> ?P (Exits n) es"
      using return r no_panic by (cases r) auto
  qed
  let ?R = "\<lambda>r es. case r of Panics p \<Rightarrow> ?P (Exits 1) (es @ panic_events (rt_Stack rt) ''main'' p) | _ \<Rightarrow> ?P r es"
  have weak: "tells m ?R" if "tells m ?P" for m
    by (rule tells_weaken [OF that]) (use no_panic in \<open>auto split: ending.split\<close>)
  have fatal: "tells (Fatalf t) ?P" for t
    by (rule tells_fixed) (simp add: not_served_def)
  show ?thesis
    unfolding main_def Let_def
  proof (rule tells_HandlePanic, rule tells_bindP, rule tells_library, unfold ending.case sum.case append_Nil)
  qed (rule weak shown flushed logged body fatal | (simp add: not_served_def; fail))+
qed

lemma program_ends:
  assumes "metric_registry reg registered" "command_line (rt_Execute rt)"
    and "program reg rt providers (blank w) = (r, s')"
  shows "(served rt providers r (pr_events s') \<or> not_served (rt_Version rt) r (pr_events s')) \<or>
    r = Returns () \<and> serves (pr_events s') = []"
proof -
  obtain s1 where s1: "RegisterMetrics reg (blank w :: ('a, 'b) process) = (Returns (), s1)" "serves (pr_events s1) = []"
    by (rule metric_registry.registersD [OF assms(1) metric_registry.RegisterMetrics_registers [OF assms(1)], of "blank w"])
      (auto simp: blank_def)
  with assms(3) have "main rt providers s1 = (r, s')" by (simp add: program_def bindP_def)
  from tellsD [OF main_tells [OF assms(2)] this] obtain es where es: "pr_events s' = pr_events s1 @ es"
    "(served rt providers r es \<or> not_served (rt_Version rt) r es) \<or> r = Returns () \<and> serves es = []" by blast
  then show ?thesis
    using ends_after [of rt providers r es "rt_Version rt" "pr_events s1"] s1(2) by auto
qed


text \<open>C19: With which provider the controllers run. Whenever they run, the provider is one that the registered
  factory returned, so it is completely configured (token, metadata sources, timeout, load balancer classes,
  transport, certificate checks). The hypotheses: InitCloudProvider returns a provider only from the factory
  of its name, and a new client has the transport of its library.\<close>

theorem controllers_have_provider:
  assumes "metric_registry reg registered" "command_line (rt_Execute rt)"
    and "program reg rt (registered_providers lib (rt_Version rt) ReadInto) (blank w) = (r, s')"
    and "\<forall>factories name file v p v'. rt_InitCloudProvider rt factories name file v = (Ok (Some p), v') \<longrightarrow>
      (\<exists>factory reader. factories name = Some factory \<and> factory reader = Ok p)"
    and "\<forall>cc c. NewWithRetries lib cc = Ok c \<longrightarrow> conn_Transport c \<in> {None, Some LibraryTransport}"
    and "Serve p \<in> set (pr_events s')"
  shows "provider_ok p"
proof -
  from assms(6) have p: "p \<in> set (serves (pr_events s'))" by (simp add: set_serves)
  then have "serves (pr_events s') \<noteq> []" by auto
  with program_ends [OF assms(1-3)] obtain p' fl c v v' where
    p': "serves (pr_events s') = [p']" "rt_InitCloudProvider rt (registered_providers lib (rt_Version rt) ReadInto fl)
      (fst (rt_CloudProvider rt c)) (snd (rt_CloudProvider rt c)) v = (Ok (Some p'), v')"
    by (auto simp: served_def not_served_def)
  with p p'(1) have "p' = p" by simp
  with p'(2) assms(4) obtain factory reader where
    "registered_providers lib (rt_Version rt) ReadInto fl (fst (rt_CloudProvider rt c)) = Some factory" "factory reader = Ok p"
    by blast
  then have "provider_factory lib (rt_Version rt) (fl_user_agent fl) ReadInto reader = Ok p"
    by (auto simp: registered_providers_def split: if_splits)
  from provider_factory_ok [OF this assms(5)] show ?thesis .
qed

section \<open>A run of the program\<close>

definition example_runtime ::
    "parsed \<Rightarrow> (string list, unit, unit, unit option \<Rightarrow> (unit, string) edgecenter outcome, (unit, string) edgecenter) runtime" where
  "example_runtime args = \<lparr>rt_Version = ''v1'', rt_Stack = (\<lambda>_. []),
     rt_NewCloudControllerManagerOptions = (\<lambda>w. (Ok \<lparr>co_ProviderName = [], co_rest = ()\<rparr>, w)),
     rt_Sprint_options = (\<lambda>_. []), rt_goflag_accepts = (\<lambda>_ _. True), rt_Execute = execute_parsed args,
     rt_Config = (\<lambda>_ _ _ w. (Ok (), w)), rt_CloudProvider = (\<lambda>_. (ProviderName, ''cloud.conf'')),
     rt_InitCloudProvider = (\<lambda>factories name _ w. (case factories name of
         None \<Rightarrow> Ok None
       | Some factory \<Rightarrow> (case factory (Some ()) of Ok p \<Rightarrow> Ok (Some p) | Err e \<Rightarrow> Err e | Panic e \<Rightarrow> Panic e), w)),
     rt_Run = (\<lambda>_ _ w. (Err (Api ''lost the lease''), w))\<rparr>"

definition example_flags :: flags where
  "example_flags = \<lparr>fl_values = [(''bind-address'', ''0.0.0.0''), (''secure-port'', ''10258'')], fl_v = Some ''2'',
     fl_version = False, fl_user_agent = []\<rparr>"

definition example_program :: "parsed \<Rightarrow> ((string list, (unit, string) edgecenter) process, unit) proc" where
  "example_program args = program names_registry (example_runtime args)
     (registered_providers example_lib ''v1'' (\<lambda>_ :: unit. Ok example_config))"

lemma example_command_line: "command_line (rt_Execute (example_runtime args))"
  by (simp add: example_runtime_def execute_parsed.command_line_axioms)

text \<open>What the runs below unfold.\<close>

lemmas proc_defs = bindP_def deferP_def library_def event_def returnP_def panicP_def Exit_def

lemma example_registered:
  obtains s1 :: "(string list, 'p) process" where
    "RegisterMetrics names_registry (blank []) = (Returns (), s1)" "pr_events s1 = []"
  by (rule names_registry.registersD [OF names_registry.RegisterMetrics_registers, of "blank []"], rule that)
    (auto simp: blank_def)

lemma example_runs:
  obtains ec s' where "provider_factory example_lib ''v1'' [] (\<lambda>_ :: unit. Ok example_config) (Some ()) = Ok ec"
    "example_program (Parsed example_flags) (blank []) = (Exits 1, s')" "Serve ec \<in> set (pr_events s')"
proof -
  from example_provider obtain ec where ec: "provider_factory example_lib ''v1'' [] (\<lambda>_ :: unit. Ok example_config) (Some ()) = Ok ec"
    by blast
  obtain s1 :: "(string list, (unit, string) edgecenter) process" where
    s1: "RegisterMetrics names_registry (blank []) = (Returns (), s1)" by (rule example_registered)
  have "\<exists>s'. main (example_runtime (Parsed example_flags)) (registered_providers example_lib ''v1'' (\<lambda>_ :: unit. Ok example_config)) s1 =
      (Exits 1, s') \<and> Serve ec \<in> set (pr_events s')"
    using ec
    by (simp add: main_def command_Run_def example_runtime_def example_flags_def execute_parsed_def PersistentPreRun_def
        logMetricsEndpointFromFlags_def exit_with_def registered_providers_def proc_defs Let_def)
  with s1 ec show ?thesis
    by (auto simp: example_program_def program_def bindP_def intro: that)
qed

lemma help_runs: "\<exists>s'. example_program Help (blank []) = (Returns (), s') \<and> serves (pr_events s') = []"
proof -
  obtain s1 :: "(string list, (unit, string) edgecenter) process" where
    s1: "RegisterMetrics names_registry (blank []) = (Returns (), s1)" "pr_events s1 = []" by (rule example_registered)
  then show ?thesis
    by (simp add: example_program_def program_def main_def example_runtime_def execute_parsed_def HandlePanic_def proc_defs Let_def)
qed


theorem controllers_have_provider_witness:
  "\<exists>ec s'. example_program (Parsed example_flags) (blank []) = (Exits 1, s') \<and> Serve ec \<in> set (pr_events s') \<and> provider_ok ec"
proof -
  obtain ec s' where run: "example_program (Parsed example_flags) (blank []) = (Exits 1, s')" "Serve ec \<in> set (pr_events s')"
    by (rule example_runs)
  have version: "rt_Version (example_runtime args) = ''v1''" for args by (simp add: example_runtime_def)
  have init: "\<forall>factories name file v p v'. rt_InitCloudProvider (example_runtime args) factories name file v = (Ok (Some p), v') \<longrightarrow>
      (\<exists>factory reader. factories name = Some factory \<and> factory reader = Ok p)" for args
    by (auto simp: example_runtime_def split: option.splits outcome.splits)
  from controllers_have_provider [where rt = "example_runtime (Parsed example_flags)" and lib = example_lib,
      OF names_registry.metric_registry_axioms example_command_line _ init example_lib_transport run(2)]
  have "provider_ok ec" using run(1) unfolding example_program_def version by blast
  with run show ?thesis by blast
qed

end
