(* ===== verification/Spec2Isabelle.thy ===== *)
theory Spec2Isabelle
  imports Repeat SimGroups Volumes Mounts Startup
begin

text \<open>
  A verification library for the Edgecenter cloud controller manager (\<^verbatim>\<open>ec-ccm\<close>), the program that
  keeps the load balancers and the node data of a Kubernetes cluster in step with the Edgecenter cloud.

  \<^bold>\<open>The program.\<close> \<^verbatim>\<open>cmd/main.go\<close> starts the Kubernetes controllers with the provider of
  \<^verbatim>\<open>internal/edgecenter\<close>. The service controller calls \<^verbatim>\<open>LbaasV2\<close> (\<^verbatim>\<open>loadbalancer*.go\<close>):
  \<open>EnsureLoadBalancer\<close> and \<open>UpdateLoadBalancer\<close> bring a load balancer with its listeners, pools, members,
  floating IP and security group to the state that a service asks for, \<open>EnsureLoadBalancerDeleted\<close> takes
  them down. The node controllers call \<^verbatim>\<open>Instances\<close> and the zones (\<^verbatim>\<open>instances.go\<close>, \<^verbatim>\<open>edgecenter.go\<close>).
  The provider is built from the configuration (\<^verbatim>\<open>edgecenter.go\<close>), with an HTTP transport that counts requests
  (\<^verbatim>\<open>http_instrumentation.go\<close>); it also manages volumes (\<^verbatim>\<open>volumes.go\<close>) and reads the metadata and the
  devices of the machine it runs on (\<^verbatim>\<open>internal/util\<close>). The state is in the cloud, behind the client of
  \<^verbatim>\<open>edgecentercloud-go\<close>, and on the machine; the program itself keeps the cached metadata, the metadata
  provider and the local instance ID.

  \<^bold>\<open>How it is modelled.\<close> A handler is a function from a state to an outcome and a state
  (\<open>Prelude\<close>): \<open>Ok\<close>, \<open>Err\<close> for a returned error, \<open>Panic\<close>. The state is the cloud, of any type, and the
  list of the requests made so far (\<open>Cloud\<close>). The client is a parameter: a record of functions from
  the cloud to an answer and the next cloud, so that a theorem about a handler holds for every behaviour
  of the API, the ones that change between two requests included. Functions that use the machine instead
  have a second state of the same shape, with the operating system as its parameter (\<open>Host\<close>). Errors keep
  their text and what they wrap. Strings are lists of bytes, durations are nanoseconds.

  \<^item> \<open>Prelude\<close>: errors, outcomes, the combinators for handlers; \<open>emits\<close> (what the requests and the result
    of a handler satisfy), \<open>always\<close> and \<open>only\<close> (the requests alone), \<open>yields\<close> (the returned value),
    \<open>keeps\<close> (a part of the state that does not change), each with rules that follow the statements; the
    locale \<open>trace_property\<close> of the properties of request lists that are closed under composition,
    interpreted for \<open>list_all P\<close>, for automata that return to their state (\<open>follow\<close>), for the guards of \<open>Retry\<close>
    and wherever a new property is introduced.
  \<^item> \<open>GoStrings\<close>, \<open>GoNet\<close>: what the sources use of \<^verbatim>\<open>strings\<close>, \<^verbatim>\<open>strconv\<close>, \<^verbatim>\<open>fmt\<close> and \<^verbatim>\<open>net\<close>.
  \<^item> \<open>Cloud\<close>: the API types, the requests, the client.
  \<^item> \<open>Polling\<close>: the backoff loops of \<^verbatim>\<open>k8s.io/apimachinery\<close>, as the locales \<open>polling\<close> (every run is some
    number of checks up to the number of steps: a cancelled context may end it earlier) and
    \<open>exact_polling\<close> (no cancellation), both interpreted for the loop \<open>poll_driver\<close>; closures that assign
    captured variables.
  \<^item> \<open>Naming\<close>: names and keys (\<^verbatim>\<open>loadbalancer_utils.go\<close>). \<open>Retry\<close>: the waits and \<open>runLBOperationWithRetry\<close>.
  \<^item> \<open>Options\<close>: configuration, annotations, secrets. \<open>SourceRanges\<close>: \<^verbatim>\<open>ipnet.go\<close> with the locale
    \<open>keyed_set\<close> of its contract, and the source ranges of a service.
  \<^item> \<open>Pools\<close>, \<open>Listeners\<close>, \<open>FloatingIPs\<close>, \<open>SecurityGroups\<close>: the files of these names.
    \<open>Nodes\<close>: \<^verbatim>\<open>instances.go\<close> and the node functions of \<^verbatim>\<open>edgecenter.go\<close>.
  \<^item> \<open>LoadBalancer\<close>: \<^verbatim>\<open>loadbalancer.go\<close>. \<open>Phases\<close>: the order of the phases. \<open>Reconcile\<close>: what whole runs
    guarantee.
  \<^item> \<open>Triples\<close>: Hoare triples for handlers, what they make of the cloud. \<open>Store\<close>: the locale \<open>store\<close> of an API that
    behaves as a store, programs that are \<open>calm\<close> (they leave it alone), the rule for retried operations;
    \<open>StoreListeners\<close>, \<open>StorePools\<close>, \<open>StoreMembers\<close>, \<open>StoreCleanup\<close>: the phases on it; \<open>Converge\<close>: whole runs;
    \<open>StoreDelete\<close>: deletions, with the locale \<open>deleting_store\<close>. \<open>Totals\<close>: triples for total correctness and the locale
    \<open>prompt_store\<close> of a store that carries out every request; \<open>Success\<close>, \<open>Complete\<close>: every phase returns on it;
    \<open>Removal\<close>: so does a deletion, with the locale \<open>prompt_deleting\<close>.
  \<^item> \<open>StoreGroups\<close>: the locale \<open>group_store\<close> of an API that stores security groups, and what \<open>ensureSecurityGroup\<close>
    leaves on it; \<open>SimGroups\<close>: a small cloud of groups, an instance of it.
  \<^item> \<open>Simulation\<close>: a small cloud on which runs are evaluated, an instance of these locales. \<open>Steady\<close>: runs that find the cloud
    \<open>converged\<close>, and the rules for programs that are \<open>quiet\<close>; \<open>Repeat\<close>: a second run after a successful one.
  \<^item> \<open>Host\<close>: the operating system, its calls, paths. \<open>Metadata\<close>: \<^verbatim>\<open>metadata.go\<close>; the config drive is followed by
    an automaton. \<open>Provider\<close>: the configuration, the API client and the provider of \<^verbatim>\<open>edgecenter.go\<close>, with
    \<^verbatim>\<open>routes.go\<close>. \<open>Rounding\<close>: sizes as 64 bit integers. \<open>Volumes\<close>: \<^verbatim>\<open>volumes.go\<close>; an automaton says which read
    justifies which change. \<open>Mounts\<close>: \<^verbatim>\<open>util.go\<close>, \<^verbatim>\<open>mount.go\<close>, \<^verbatim>\<open>blockdevice\<close>. \<open>Telemetry\<close>: the HTTP
    transport and the regular expressions of its labels. \<open>Metrics\<close>: the collectors of \<^verbatim>\<open>metrics.go\<close> and their registry.
  \<^item> \<open>Processes\<close>: programs that return, panic or exit, deferred calls, \<^verbatim>\<open>panicutil\<close>; \<open>tells\<close> relates the ending and
    what was shown. \<open>Startup\<close>: \<^verbatim>\<open>main.go\<close>, with the Kubernetes libraries as a record of parameters.

  Functions have their names of the source; a piece of a long function that is a definition of its own is
  named after what it does (\<open>find_or_create\<close>, \<open>wait_phase\<close>, \<open>ensure_listener\<close>). Selectors have the
  initials of their type.

  \<^bold>\<open>What is shown.\<close> For whole runs: that on an API that behaves as a store a successful one leaves exactly what
  the service asks for, that on one which carries out the requests it is successful, and so is a deletion, that a deletion
  spares the other load balancers, that a second run changes nothing, and what a security group then lets in; without any assumption about the API, the order of the changes, the guards before the
  retried ones, the requests that never happen, the state of the members after success, that a run on a
  cloud that is as the service wants it changes nothing, the result of a deletion. For the waits: how
  many reads they make, what success means, and that they succeed when the cloud does its part. For the
  pure parts: the comparison of members as multisets, the operations on sets of networks, the search and
  update of listeners and rules, provider IDs, node addresses, names, rounding. For the provider: what
  one that started is guaranteed to have. For volumes: that no change is made without a read that
  justifies it, the extension asked for, the metrics. For the machine: the metadata cache, the use of
  the config drive on every path, the end of the loop that waits for a disk, a rescan that succeeds. For
  the transport: its labels and counters. For the process: its exit status, and with which provider the
  controllers run. Some theorems state behaviour that callers may not expect:
  equal names after truncation, the error that a failed retry returns, an update that repeats for ever,
  rules that are not found again, disks reported as attached when the read fails, a search for devices
  that asks nothing, a reason for errors that is never used.

  \<^bold>\<open>Bounds.\<close> The numbers of steps of the three backoff loops, 19, 13 and 6, are those of the sources; the
  loops need no other fuel; the search for a device path has 15 steps. The theorems about a loop that
  succeeds say within which number of checks. The loop of \<open>ScanForAttach\<close> runs over the events of its ticker
  and its timer, and ends with the timer. An \<^verbatim>\<open>int\<close> that counts GiB has 64 bits; \<open>RoundUpSizeInt\<close> has the
  width as a type variable.

  \<^bold>\<open>Left out.\<close> Logging; the delays between the checks of a loop; contexts, except that a polling loop may
  end early. \<^verbatim>\<open>time.Duration.Seconds\<close> is truncated division, which agrees with the source's conversion
  through a 64 bit float below 4 million seconds. A Go map that is iterated is a list, standing for one
  order of iteration; entries that come with an error of a directory listing are kept. Times in metrics are left
  out, and closing files.

  \<^bold>\<open>Not modelled.\<close> Mocks, tests, generated and vendored code; the functions \<^verbatim>\<open>logLB...\<close> and \<^verbatim>\<open>LogCfg\<close>, which only
  print. The files \<^verbatim>\<open>client.go\<close>, \<^verbatim>\<open>doc.go\<close>, \<^verbatim>\<open>utils.go\<close> and \<^verbatim>\<open>errors.go\<close> are empty.
\<close>

section \<open>Ensuring a load balancer\<close>



text \<open>C2: on an API that behaves as a store, carries out every request that makes sense and makes its load balancers
  ACTIVE within the reads of a wait, \<open>EnsureLoadBalancer\<close> succeeds and realises the service, from whatever
  listeners and pools it finds: the whole reconciliation returns a value, not an error, when the options are
  resolved, no two load balancers have the name, every port has a node port and its own listener, every node has
  an address, and the floating IP and the security groups, where they are asked for, can be ensured.\<close>

theorem ensure_succeeds:
  assumes "prompt_store (l_client l) v sane" "sane (world s)"
    and "unambiguous {lb_name l svc, lb_legacy_name l svc} (lb_keys v (world s))"
    and "nodes \<noteq> []" "svc_Ports svc \<noteq> []" "distinct (map servicePortKey (svc_Ports svc))"
    and "\<forall>sp \<in> set (svc_Ports svc). sp_NodePort sp \<noteq> 0" "node_addresses nodes = Ok ips"
    and "resolveServiceOptions l svc nodes s = (Ok opts, s1)" "separate opts (svc_Ports svc)"
    and "\<And>lb. so_Internal opts \<or> delivers (\<lambda>s. sane (world s)) (ensureServiceFloatingIP l svc lb) (\<lambda>_ _. True)"
    and "\<not> so_ManageSecurityGroups opts \<or>
      delivers (\<lambda>s. sane (world s)) (ensureSecurityGroup (l_client l) clusterName svc nodes opts) (\<lambda>_ _. True)"
  shows "\<exists>ingress s' lb. EnsureLoadBalancer l clusterName svc nodes s = (Ok ingress, s') \<and> sane (world s') \<and>
    lb_Name lb \<in> {lb_name l svc, lb_legacy_name l svc} \<and> lb_key lb \<in> lb_keys v (world s') \<and>
    realised opts (svc_Ports svc) ips (lns_of v (world s') (lb_ID lb)) (pools_of v (world s') (lb_ID lb))"
  by (rule prompt_store.EnsureLoadBalancer_returns [OF assms(1) refl assms(2-)])

lemma ensure_succeeds_witness:
  "\<exists>ingress s' ips. EnsureLoadBalancer sim_lbaas ''k8s'' example_service [sim_node] sim_empty = (Ok ingress, s') \<and>
     node_addresses [sim_node] = Ok ips \<and>
     realised sim_options (svc_Ports example_service) ips (sim_listeners (world s')) (sim_pools (world s'))"
proof -
  have store: "prompt_store (l_client sim_lbaas) sim_view sim_sane" by (simp add: sim_prompt.prompt_store_axioms)
  obtain ips where ips: "node_addresses [sim_node] = Ok ips" by (simp add: sim_node_def nodeAddressForLB_def)
  have "unambiguous names (lb_keys sim_view (world sim_empty))" for names
    by (simp add: unambiguous_def lb_keys_def sim_view_def sim_empty_def start_def)
  moreover have "separate sim_options (svc_Ports example_service)" by (simp add: separate_def example_ports)
  moreover have "so_Internal sim_options" "\<not> so_ManageSecurityGroups sim_options" by (simp_all add: sim_options_def)
  ultimately show ?thesis
    using ensure_succeeds [OF store sim_sane_empty _ _ _ _ _ ips sim_resolve] ips
    by (fastforce simp: example_ports sim_view_def)
qed





text \<open>C5: the changes of \<open>EnsureLoadBalancer\<close> come in the order of the phases: secret, load balancer,
  listeners, pools, members, cleanup of pools, cleanup of listeners, floating IP, security group; whatever
  the outcome of the run is.\<close>

theorem ensure_phases_in_order:
  assumes "drivers (l_client l)"
  shows "emits calls (EnsureLoadBalancer l clusterName svc nodes) (\<lambda>r es. sorted (phases phase_of es))"
  by (rule emits_weaken [OF EnsureLoadBalancer_phased [OF assms, unfolded always_def]]) (simp add: phased_def)

lemma ensure_phases_in_order_witness:
  "emits calls (EnsureLoadBalancer sim_lbaas ''k8s'' example_service [sim_node]) (\<lambda>r es. sorted (phases phase_of es))"
  by (rule ensure_phases_in_order [OF sim_drivers])

text \<open>C6: every update of members and every deletion of a pool or listener in \<open>EnsureLoadBalancer\<close> comes
  right after a read that saw the load balancer ACTIVE, and all of them concern one load balancer.\<close>

theorem ensure_mutations_guarded:
  assumes "drivers (l_client l)"
  shows "emits calls (EnsureLoadBalancer l clusterName svc nodes) (\<lambda>r es. \<exists>i. guarded i retried False es)"
  using assms by (rule EnsureLoadBalancer_guarded)

lemma ensure_mutations_guarded_witness:
  "emits calls (EnsureLoadBalancer sim_lbaas ''k8s'' example_service [sim_node]) (\<lambda>r es. \<exists>i. guarded i retried False es)"
  by (rule ensure_mutations_guarded [OF sim_drivers])

text \<open>C21: for a service that asks for an internal load balancer, by its class or annotation or by the
  configuration, \<open>EnsureLoadBalancer\<close> makes no request about floating IPs.\<close>

theorem internal_service_no_floating_ip:
  assumes "drivers (l_client l)" "wants_internal l svc"
  shows "only calls (\<lambda>e. \<not> touches_fip e) (EnsureLoadBalancer l clusterName svc nodes)"
  by (rule EnsureLoadBalancer_only [OF assms(1)])
    (use assms(2) in \<open>auto simp: lb_part_def intro!: only_mono [OF ensureSecurityGroup_only sg_phase_no_fip]\<close>)

lemma sim_internal: "wants_internal sim_lbaas example_service"
  by (simp add: wants_internal_def getStringFromServiceAnnotation_def example_service_def sim_opts_def)

lemma internal_service_no_floating_ip_witness:
  "only calls (\<lambda>e. \<not> touches_fip e) (EnsureLoadBalancer sim_lbaas ''k8s'' example_service [sim_node])"
  by (rule internal_service_no_floating_ip [OF sim_drivers sim_internal])

text \<open>when the controller does not manage security groups, \<open>EnsureLoadBalancer\<close> makes no request about
  them.\<close>

theorem unmanaged_security_groups_untouched:
  assumes "drivers (l_client l)" "\<not> lbo_ManageSecurityGroups (l_opts l)"
  shows "only calls (\<lambda>e. \<not> touches_sg e) (EnsureLoadBalancer l clusterName svc nodes)"
proof (rule EnsureLoadBalancer_only [OF assms(1)])
  show "only calls (\<lambda>e. \<not> touches_sg e) (ensureServiceFloatingIP l svc lb)" for lb
    by (rule only_mono [OF ensureServiceFloatingIP_only]) (auto dest: fip_no_sg)
qed (use assms(2) in \<open>auto simp: lb_part_def\<close>)

lemma unmanaged_security_groups_untouched_witness:
  "only calls (\<lambda>e. \<not> touches_sg e) (EnsureLoadBalancer sim_lbaas ''k8s'' example_service [sim_node])"
  by (rule unmanaged_security_groups_untouched [OF sim_drivers]) (simp add: sim_opts_def)


section \<open>Phases\<close>



text \<open>The listeners phase returns one listener for every service port, and its list of obsolete
  listeners has none of them; the same holds for the pools.\<close>

theorem obsolete_resources_unused:
  "yields (ensureLoadBalancerListeners l lb ports opts) (\<lambda>(result, obsolete).
     dom result = servicePortKey ` set ports \<and> ln_ID ` set obsolete \<inter> ln_ID ` ran result = {}) \<and>
   yields (ensureLoadBalancerPools l lb svc listeners opts) (\<lambda>(result, obsolete).
     dom result = servicePortKey ` set (svc_Ports svc) \<and> pool_ID ` set obsolete \<inter> pool_ID ` ran result = {})"
  by (intro conjI yieldsI; clarify; drule ensureLoadBalancerListeners_Ok ensureLoadBalancerPools_Ok; auto)

section \<open>Deleting a load balancer\<close>

text \<open>C12: \<open>EnsureLoadBalancerDeleted\<close> takes things down in order: listeners and pools, the load balancer, the
  security group, the floating IPs.\<close>

theorem delete_in_order:
  assumes "drivers (l_client l)"
  shows "emits calls (EnsureLoadBalancerDeleted l svc) (\<lambda>r es. sorted (phases teardown_of es))"
  by (rule emits_weaken [OF EnsureLoadBalancerDeleted_phased [OF assms, unfolded always_def]]) (simp add: phased_def)

lemma delete_in_order_witness:
  "emits calls (EnsureLoadBalancerDeleted sim_lbaas example_service) (\<lambda>r es. sorted (phases teardown_of es))"
  by (rule delete_in_order [OF sim_drivers])

text \<open>C13: a successful \<open>EnsureLoadBalancerDeleted\<close> has either found no load balancer, and then done nothing
  else, neither to the security group nor to the floating IPs, or has deleted one and seen that it does
  not exist any more; its deletions of pools and listeners are guarded like those of \<open>EnsureLoadBalancer\<close>.\<close>

theorem delete_success:
  assumes "drivers (l_client l)"
  shows "emits calls (EnsureLoadBalancerDeleted l svc) (\<lambda>r es. (\<exists>i. guarded i retried False es) \<and>
    (r = Ok () \<longrightarrow> es = [LB Loadbalancers_List] \<or>
      (\<exists>i. {LB (Loadbalancers_Delete i), LB (Loadbalancers_Exists i (Ok False))} \<subseteq> set es)))"
  using assms by (rule EnsureLoadBalancerDeleted_emits)

lemma delete_success_witness:
  "emits calls (EnsureLoadBalancerDeleted sim_lbaas example_service) (\<lambda>r es. (\<exists>i. guarded i retried False es) \<and>
    (r = Ok () \<longrightarrow> es = [LB Loadbalancers_List] \<or>
      (\<exists>i. {LB (Loadbalancers_Delete i), LB (Loadbalancers_Exists i (Ok False))} \<subseteq> set es)))"
  by (rule delete_success [OF sim_drivers])

text \<open>C10: on a store that carries out every request, \<open>EnsureLoadBalancerDeleted\<close> succeeds, and the load balancer of the
  service is gone, if there was one: when no two load balancers have the name, no listener has two pools, the
  annotation for the floating IPs is readable, and the security group and the floating IPs, where they are to go,
  can be deleted.\<close>

theorem delete_succeeds:
  assumes "prompt_deleting (l_client l) v sane" "sane (world s)"
    and "unambiguous {lb_name l svc, lb_legacy_name l svc} (lb_keys v (world s))"
    and "\<And>lb. lb \<in> set (lbs_of v (world s)) \<Longrightarrow> candidate l svc lb \<Longrightarrow>
      lonely (ln_ID ` set (lns_of v (world s) (lb_ID lb))) (pools_of v (world s) (lb_ID lb))"
    and "getBoolFromServiceAnnotation svc AnnotationSaveFloating False = Ok saved"
    and "\<not> lbo_ManageSecurityGroups (l_opts l) \<or>
      delivers (\<lambda>s. sane (world s)) (EnsureSecurityGroupDeleted l svc) (\<lambda>_ _. True)"
    and "\<And>lb. saved \<or> svc_Ingress svc = [] \<or>
      delivers (\<lambda>s. sane (world s)) (delete_fips l lb (svc_Ingress svc)) (\<lambda>_ _. True)"
  shows "\<exists>s'. EnsureLoadBalancerDeleted l svc s = (Ok (), s') \<and>
    ((\<forall>lb \<in> set (lbs_of v (world s)). \<not> candidate l svc lb) \<and> lb_keys v (world s') = lb_keys v (world s) \<or>
     (\<exists>lb \<in> set (lbs_of v (world s)). candidate l svc lb \<and> lb_keys v (world s') = without (lb_ID lb) (lb_keys v (world s))))"
  by (rule prompt_deleting.EnsureLoadBalancerDeleted_removes [OF assms(1) refl assms(2-)])

lemma delete_succeeds_witness:
  "\<exists>s'. EnsureLoadBalancerDeleted sim_lbaas example_service sim_made = (Ok (), s') \<and>
     lb_keys sim_view (world s') \<noteq> lb_keys sim_view (world sim_made)"
proof -
  let ?w = "world sim_made"
  have store: "prompt_deleting (l_client sim_lbaas) sim_view sim_sane" by (simp add: sim_removal.prompt_deleting_axioms)
  have lbs: "lbs_of sim_view ?w =
      [sim_lb\<lparr>lb_Name := lb_name sim_lbaas example_service\<rparr>, sim_lb\<lparr>lb_ID := ''lb-3'', lb_Name := ''other''\<rparr>]"
    by (simp add: sim_view_def sim_made_def start_def)
  have "lb_name sim_lbaas example_service \<noteq> ''other''" unfolding sim_name by code_simp
  then have names: "unambiguous names (lb_keys sim_view ?w)" for names
    by (auto simp: unambiguous_def lb_keys_def lbs lb_key_def)
  have lonely: "lonely (ln_ID ` set (lns_of sim_view ?w i)) (pools_of sim_view ?w i)" for i
    by (simp add: lonely_def sim_view_def sim_made_def start_def sim_pool_def)
  have saved: "getBoolFromServiceAnnotation example_service AnnotationSaveFloating False = Ok False"
    by (simp add: getBoolFromServiceAnnotation_def example_service_def)
  have free: "\<not> lbo_ManageSecurityGroups (l_opts sim_lbaas)" "svc_Ingress example_service = []"
    by (simp_all add: sim_opts_def example_service_def)
  from delete_succeeds [OF store sim_sane_made names lonely saved disjI1 [OF free(1)] disjI2 [OF disjI1 [OF free(2)]]] obtain s' where
    run: "EnsureLoadBalancerDeleted sim_lbaas example_service sim_made = (Ok (), s')" and
    "(\<forall>lb \<in> set (lbs_of sim_view ?w). \<not> candidate sim_lbaas example_service lb) \<or>
      (\<exists>lb \<in> set (lbs_of sim_view ?w). lb_keys sim_view (world s') = without (lb_ID lb) (lb_keys sim_view ?w))"
    by blast
  moreover have "candidate sim_lbaas example_service (sim_lb\<lparr>lb_Name := lb_name sim_lbaas example_service\<rparr>)"
    by (simp add: candidate_def live_def sim_lb_def)
  ultimately obtain lb where "lb \<in> set (lbs_of sim_view ?w)" "lb_keys sim_view (world s') = without (lb_ID lb) (lb_keys sim_view ?w)"
    unfolding lbs by (metis list.set_intros(1))
  moreover from this(1) have "without (lb_ID lb) (lb_keys sim_view ?w) \<noteq> lb_keys sim_view ?w"
    by (force simp: without_def lb_keys_def lb_key_def)
  ultimately show ?thesis using run by auto
qed

text \<open>C11: what a deletion touches. On an API that behaves as a store, \<open>EnsureLoadBalancerDeleted\<close>, also when it
  fails on the way, changes at most one load balancer, one that the lookup took for that of the service: every
  other one stays, with all its listeners and pools unless it shares some of them. After a success that load
  balancer does not exist any more, or there was none to begin with.\<close>

theorem deletion_spares_others:
  assumes "deleting_store (l_client l) v sane" "drivers (l_client l)" "sane (world s)"
    and "EnsureLoadBalancerDeleted l svc s = (r, s')" "\<forall>p. r \<noteq> Panic p"
  shows "sane (world s') \<and>
    (lb_keys v (world s') = lb_keys v (world s) \<and> lns_of v (world s') = lns_of v (world s) \<and> pools_of v (world s') = pools_of v (world s) \<and>
       (r = Ok () \<longrightarrow> (\<forall>lb \<in> set (lbs_of v (world s)). \<not> candidate l svc lb)) \<or>
     (\<exists>lb \<in> set (lbs_of v (world s)). candidate l svc lb \<and>
       spared (lb_ID lb) (lns_of v (world s)) (pools_of v (world s)) (lns_of v (world s')) (pools_of v (world s')) \<and>
       lb_keys v (world s') \<in> {lb_keys v (world s), without (lb_ID lb) (lb_keys v (world s))} \<and>
       (r = Ok () \<longrightarrow> lb_keys v (world s') = without (lb_ID lb) (lb_keys v (world s)))))"
  by (rule deleting_store.EnsureLoadBalancerDeleted_spares [OF assms(1) refl assms(2-)])

lemma deletion_spares_others_witness:
  "\<exists>s'. EnsureLoadBalancerDeleted sim_lbaas example_service sim_made = (Ok (), s') \<and>
     lb_keys sim_view (world s') = {(''lb-3'', ''other'')}"
proof -
  obtain s' where run: "EnsureLoadBalancerDeleted sim_lbaas example_service sim_made = (Ok (), s')"
    using sim_delete by (metis prod.collapse)
  have lbs: "lbs_of sim_view (world sim_made) =
      [sim_lb\<lparr>lb_Name := lb_name sim_lbaas example_service\<rparr>, sim_lb\<lparr>lb_ID := ''lb-3'', lb_Name := ''other''\<rparr>]"
    by (simp add: sim_view_def sim_made_def start_def)
  have "candidate sim_lbaas example_service (sim_lb\<lparr>lb_Name := lb_name sim_lbaas example_service\<rparr>)"
    by (simp add: candidate_def live_def sim_lb_def)
  moreover have "\<not> candidate sim_lbaas example_service (sim_lb\<lparr>lb_ID := ''lb-3'', lb_Name := ''other''\<rparr>)"
    by (simp add: candidate_def live_def sim_lb_def sim_name) code_simp
  ultimately have "lb_keys sim_view (world s') = without ''lb-0'' (lb_keys sim_view (world sim_made))"
    using deletion_spares_others [of sim_lbaas sim_view sim_sane, unfolded sim_fields(1), OF sim_deleting.deleting_store_axioms
        sim_drivers [unfolded sim_fields(1)] sim_sane_made run]
    unfolding lbs by (auto simp: sim_lb_def)
  also have "\<dots> = {(''lb-3'', ''other'')}"
    by (auto simp: lb_keys_def lbs lb_key_def without_def sim_lb_def)
  finally show ?thesis using run by blast
qed

text \<open>C14: on an API that stores security groups, a successful \<open>ensureSecurityGroup\<close> leaves a group with the name
  of the service that lets the traffic to every port in from the range of the subnet, and every node with a
  provider ID is in this group unless it has no port for it.\<close>

theorem security_group_admits:
  assumes "group_store c g sane" "sane (world s)" "cidr_of g (so_SubnetID opts) \<noteq> []"
    and "\<forall>port \<in> set (svc_Ports svc). toRuleProtocol c (sp_Protocol port) \<noteq> [] \<and> sp_NodePort port \<noteq> 0"
    and "ensureSecurityGroup c cl svc nodes opts s = (Ok (), s')"
  shows "group_admits c g (getSecurityGroupName svc) (so_SubnetID opts) (svc_Ports svc) (world s') \<and>
    nodes_covered g (getSecurityGroupName svc) nodes (world s')"
  using tripleD(1) [OF group_store.triple_ensure_group [OF assms(1,4,3)] assms(2) assms(5)] by blast

lemma security_group_admits_witness:
  "\<forall>opts. case ensureSecurityGroup gs_client ''k8s'' gs_service [sim_node] opts gs_empty of (r, s') \<Rightarrow>
     r = Ok () \<and> group_admits gs_client gs_view (getSecurityGroupName gs_service) (so_SubnetID opts) (svc_Ports gs_service) (world s') \<and>
     nodes_covered gs_view (getSecurityGroupName gs_service) [sim_node] (world s')"
proof
  fix opts
  obtain r s' where run: "ensureSecurityGroup gs_client ''k8s'' gs_service [sim_node] opts gs_empty = (r, s')" by fastforce
  with gs_run [of opts] have ok: "r = Ok ()" by simp
  have ports: "\<forall>port \<in> set (svc_Ports gs_service). toRuleProtocol gs_client (sp_Protocol port) \<noteq> [] \<and> sp_NodePort port \<noteq> 0"
    by (simp add: gs_service_def example_port_def toRuleProtocol_def Let_def)
  have "group_admits gs_client gs_view (getSecurityGroupName gs_service) (so_SubnetID opts) (svc_Ports gs_service) (world s') \<and>
     nodes_covered gs_view (getSecurityGroupName gs_service) [sim_node] (world s')"
    by (rule security_group_admits [OF gsim.group_store_axioms _ _ ports run [unfolded ok]]) (simp_all add: gs_empty_def start_def gs_sane_def numbered_def)
  with run ok show "case ensureSecurityGroup gs_client ''k8s'' gs_service [sim_node] opts gs_empty of (r, s') \<Rightarrow>
     r = Ok () \<and> group_admits gs_client gs_view (getSecurityGroupName gs_service) (so_SubnetID opts) (svc_Ports gs_service) (world s') \<and>
     nodes_covered gs_view (getSecurityGroupName gs_service) [sim_node] (world s')" by simp
qed

end
